(* ===== verification/Kconfig_Prelude.thy ===== *)
theory Kconfig_Prelude
  imports Main "HOL-Library.Word"
begin

text \<open>
  The vocabulary shared by the components of the configuration system under
  \<^verbatim>\<open>src/buildroot/support/kconfig\<close>: the three-valued truth type \<open>tristate\<close> with the
  order \<open>no < mod < yes\<close> that the macros \<open>EXPR_AND\<close>, \<open>EXPR_OR\<close> and \<open>EXPR_NOT\<close> of
  \<^verbatim>\<open>expr.h\<close> compute with, the algebra of these operations, and the C library's
  character tests on the \<open>char\<close> type.  The collection \<open>tri_simps\<close> carries the
  algebra into the proofs of the other theories.
\<close>

named_theorems tri_simps

section \<open>Tristate values\<close>

datatype tristate = No | Mod | Yes

fun tri_rank :: "tristate \<Rightarrow> nat" where
  "tri_rank No = 0"
| "tri_rank Mod = 1"
| "tri_rank Yes = 2"

instantiation tristate :: linorder
begin

definition less_eq_tristate :: "tristate \<Rightarrow> tristate \<Rightarrow> bool" where
  "less_eq_tristate a b \<longleftrightarrow> tri_rank a \<le> tri_rank b"

definition less_tristate :: "tristate \<Rightarrow> tristate \<Rightarrow> bool" where
  "less_tristate a b \<longleftrightarrow> tri_rank a < tri_rank b"

instance
proof
  fix x y z :: tristate
  show "(x < y) = (x \<le> y \<and> \<not> y \<le> x)"
    by (auto simp: less_tristate_def less_eq_tristate_def)
  show "x \<le> x" by (simp add: less_eq_tristate_def)
  show "x \<le> y \<Longrightarrow> y \<le> z \<Longrightarrow> x \<le> z" by (simp add: less_eq_tristate_def)
  show "x \<le> y \<Longrightarrow> y \<le> x \<Longrightarrow> x = y"
    by (cases x; cases y) (simp_all add: less_eq_tristate_def)
  show "x \<le> y \<or> y \<le> x" by (auto simp: less_eq_tristate_def)
qed

end

text \<open>The macros of \<^verbatim>\<open>expr.h\<close>, with their conditional expressions.\<close>

definition EXPR_OR :: "tristate \<Rightarrow> tristate \<Rightarrow> tristate" where
  "EXPR_OR d1 d2 = (if d1 > d2 then d1 else d2)"

definition EXPR_AND :: "tristate \<Rightarrow> tristate \<Rightarrow> tristate" where
  "EXPR_AND d1 d2 = (if d1 < d2 then d1 else d2)"

fun EXPR_NOT :: "tristate \<Rightarrow> tristate" where
  "EXPR_NOT No = Yes"
| "EXPR_NOT Mod = Mod"
| "EXPR_NOT Yes = No"

lemma tri_le_simps [simp]:
  "No \<le> x" "x \<le> Yes" "Mod \<le> No \<longleftrightarrow> False" "Yes \<le> x \<longleftrightarrow> x = Yes" "x \<le> No \<longleftrightarrow> x = No"
  "x < No \<longleftrightarrow> False" "Yes < x \<longleftrightarrow> False" "No < Mod" "Mod < Yes" "No < Yes" "Mod \<le> Yes"
  by (cases x; simp add: less_eq_tristate_def less_tristate_def)+

lemma EXPR_NOT_rank: "tri_rank (EXPR_NOT t) = 2 - tri_rank t"
  by (cases t) auto

lemma EXPR_OR_max: "EXPR_OR a b = max a b"
  by (auto simp: EXPR_OR_def max_def)

lemma EXPR_AND_min: "EXPR_AND a b = min a b"
  by (auto simp: EXPR_AND_def min_def)

lemma EXPR_OR_table [simp]:
  "EXPR_OR No x = x" "EXPR_OR x No = x" "EXPR_OR Yes x = Yes" "EXPR_OR x Yes = Yes"
  "EXPR_OR x x = x"
  by (cases x; simp add: EXPR_OR_def)+

lemma EXPR_AND_table [simp]:
  "EXPR_AND No x = No" "EXPR_AND x No = No" "EXPR_AND Yes x = x" "EXPR_AND x Yes = x"
  "EXPR_AND x x = x"
  by (cases x; simp add: EXPR_AND_def)+

lemma EXPR_OR_ac [tri_simps]:
  "EXPR_OR a b = EXPR_OR b a"
  "EXPR_OR (EXPR_OR a b) c = EXPR_OR a (EXPR_OR b c)"
  "EXPR_OR a (EXPR_OR b c) = EXPR_OR b (EXPR_OR a c)"
  by (auto simp: EXPR_OR_max max.commute max.assoc max.left_commute)

lemma EXPR_AND_ac [tri_simps]:
  "EXPR_AND a b = EXPR_AND b a"
  "EXPR_AND (EXPR_AND a b) c = EXPR_AND a (EXPR_AND b c)"
  "EXPR_AND a (EXPR_AND b c) = EXPR_AND b (EXPR_AND a c)"
  by (auto simp: EXPR_AND_min min.commute min.assoc min.left_commute)

lemma EXPR_NOT_NOT [simp]: "EXPR_NOT (EXPR_NOT a) = a"
  by (cases a) auto

lemma EXPR_NOT_OR [simp]: "EXPR_NOT (EXPR_OR a b) = EXPR_AND (EXPR_NOT a) (EXPR_NOT b)"
  by (cases a; cases b) (auto simp: EXPR_OR_def EXPR_AND_def)

lemma EXPR_NOT_AND [simp]: "EXPR_NOT (EXPR_AND a b) = EXPR_OR (EXPR_NOT a) (EXPR_NOT b)"
  by (cases a; cases b) (auto simp: EXPR_OR_def EXPR_AND_def)

lemma EXPR_OR_absorb: "a \<le> b \<Longrightarrow> EXPR_OR a b = b"
  by (auto simp: EXPR_OR_def)

lemma EXPR_AND_absorb: "a \<le> b \<Longrightarrow> EXPR_AND a b = a"
  by (auto simp: EXPR_AND_def)

lemma EXPR_OR_eq_No [simp]: "EXPR_OR a b = No \<longleftrightarrow> a = No \<and> b = No"
  by (cases a; cases b) (auto simp: EXPR_OR_def)

lemma EXPR_AND_eq_No [simp]: "EXPR_AND a b = No \<longleftrightarrow> a = No \<or> b = No"
  by (cases a; cases b) (auto simp: EXPR_AND_def)

lemma EXPR_AND_eq_Yes [simp]: "EXPR_AND a b = Yes \<longleftrightarrow> a = Yes \<and> b = Yes"
  by (cases a; cases b) (auto simp: EXPR_AND_def)

lemma EXPR_OR_eq_Yes [simp]: "EXPR_OR a b = Yes \<longleftrightarrow> a = Yes \<or> b = Yes"
  by (cases a; cases b) (auto simp: EXPR_OR_def)

lemma tri_cases_ne [simp]: "(\<forall>x. (x::tristate) \<noteq> a) \<longleftrightarrow> False"
  by blast

section \<open>Relations without cycles\<close>

lemma acc_no_loop: "x \<in> Wellfounded.acc R \<Longrightarrow> (x, x) \<notin> R\<^sup>+"
proof (erule acc_induct)
  fix x
  assume *: "\<forall>y. (y, x) \<in> R \<longrightarrow> (y, y) \<notin> R\<^sup>+"
  show "(x, x) \<notin> R\<^sup>+"
  proof
    assume "(x, x) \<in> R\<^sup>+"
    then obtain y where y: "(x, y) \<in> R\<^sup>*" "(y, x) \<in> R" by (meson tranclD2)
    then have "(y, y) \<in> R\<^sup>+" by (meson rtrancl_into_trancl2)
    then show False using * y(2) by blast
  qed
qed

lemma acc_iff_acyclic:
  assumes "finite {q. (q, r) \<in> R\<^sup>*}"
  shows "r \<in> Wellfounded.acc R \<longleftrightarrow> (\<forall>q. (q, r) \<in> R\<^sup>* \<longrightarrow> (q, q) \<notin> R\<^sup>+)"
proof
  assume "r \<in> Wellfounded.acc R"
  then show "\<forall>q. (q, r) \<in> R\<^sup>* \<longrightarrow> (q, q) \<notin> R\<^sup>+" using acc_downwards acc_no_loop by metis
next
  assume a: "\<forall>q. (q, r) \<in> R\<^sup>* \<longrightarrow> (q, q) \<notin> R\<^sup>+"
  let ?A = "{q. (q, r) \<in> R\<^sup>*}"
  let ?S = "R \<inter> ?A \<times> ?A"
  have "finite ?S" using assms by (meson finite_Int finite_SigmaI)
  moreover have "acyclic ?S"
  proof (rule acyclicI, intro allI notI)
    fix x assume x: "(x, x) \<in> ?S\<^sup>+"
    then have "(x, r) \<in> R\<^sup>*" by (cases rule: tranclE) auto
    moreover have "(x, x) \<in> R\<^sup>+" using x trancl_mono [of _ ?S R] by auto
    ultimately show False using a by blast
  qed
  ultimately have "wf ?S" by (rule finite_acyclic_wf)
  then have "q \<in> ?A \<longrightarrow> q \<in> Wellfounded.acc R" for q
  proof (induction q rule: wf_induct_rule)
    case (less q)
    show ?case
    proof
      assume q: "q \<in> ?A"
      show "q \<in> Wellfounded.acc R"
      proof (rule accI)
        fix y assume y: "(y, q) \<in> R"
        then have "y \<in> ?A" using q by (simp add: converse_rtrancl_into_rtrancl)
        then show "y \<in> Wellfounded.acc R" using less y q by blast
      qed
    qed
  qed
  then show "r \<in> Wellfounded.acc R" by blast
qed

end
