(* ===== verification/Kconfig_Data.thy ===== *)
theory Kconfig_Data
  imports Kconfig_Prelude
begin

text \<open>
  The data model of \<^verbatim>\<open>expr.h\<close>: expressions, symbols, properties and menus.  Pointers are
  explicit: a \<open>struct symbol *\<close> is a \<open>symref\<close>, in which the four statically allocated
  symbols of \<^verbatim>\<open>symbol.c\<close> are constructors of their own, so that the pointer comparisons
  \<open>sym == &symbol_yes\<close> of the code are equality tests; a \<open>struct property *\<close> and a
  \<open>struct menu *\<close> are indices into the heaps of the state \<open>kstate\<close>.  Each bit of
  \<open>symbol.flags\<close> is a constructor of \<open>sym_flag\<close> and a flag word is the set of its bits.
\<close>

datatype symref = Symbol_yes | Symbol_mod | Symbol_no | Symbol_empty | Sym nat

text \<open>
  The node kinds of \<open>enum expr_type\<close>, used where the code passes a kind as an argument, and
  the nodes themselves.  \<open>E_LIST\<close> carries \<open>left.expr\<close> (possibly \<open>NULL\<close>) and \<open>right.sym\<close>.
\<close>

datatype expr_type = T_NONE | T_OR | T_AND | T_NOT | T_EQUAL | T_UNEQUAL | T_LIST | T_SYMBOL | T_RANGE

datatype expr =
    E_NONE
  | E_OR expr expr
  | E_AND expr expr
  | E_NOT expr
  | E_EQUAL symref symref
  | E_UNEQUAL symref symref
  | E_LIST "expr option" symref
  | E_SYMBOL symref
  | E_RANGE symref symref

fun etype :: "expr \<Rightarrow> expr_type" where
  "etype E_NONE = T_NONE"
| "etype (E_OR _ _) = T_OR"
| "etype (E_AND _ _) = T_AND"
| "etype (E_NOT _) = T_NOT"
| "etype (E_EQUAL _ _) = T_EQUAL"
| "etype (E_UNEQUAL _ _) = T_UNEQUAL"
| "etype (E_LIST _ _) = T_LIST"
| "etype (E_SYMBOL _) = T_SYMBOL"
| "etype (E_RANGE _ _) = T_RANGE"

datatype symbol_type = S_UNKNOWN | S_BOOLEAN | S_TRISTATE | S_INT | S_HEX | S_STRING | S_OTHER

datatype s_def = S_DEF_USER | S_DEF_AUTO | S_DEF_DEF3 | S_DEF_DEF4

datatype sym_flag =
    SYMBOL_CONST | SYMBOL_CHECK | SYMBOL_CHOICE | SYMBOL_CHOICEVAL | SYMBOL_VALID
  | SYMBOL_OPTIONAL | SYMBOL_WRITE | SYMBOL_CHANGED | SYMBOL_AUTO | SYMBOL_CHECKED
  | SYMBOL_WARNED | SYMBOL_DEF s_def | SYMBOL_NEED_SET_CHOICE_VALUES

datatype menu_flag = MENU_CHANGED | MENU_ROOT

datatype prop_type =
    P_UNKNOWN | P_PROMPT | P_COMMENT | P_MENU | P_DEFAULT | P_CHOICE | P_SELECT
  | P_RANGE | P_ENV | P_SYMBOL

text \<open>
  The \<open>void *val\<close> of \<open>struct symbol_value\<close>: a string for most symbols, a symbol for a choice.
  Values are compared as pointers (\<open>memcmp\<close> in \<open>sym_calc_value\<close>), so a string carries where it
  lives: a literal of the program, the name of a symbol, or the n-th allocated string.
\<close>

datatype addr = A_lit string | A_name symref | A_heap nat

datatype cval = VNull | VStr addr string | VSym symref

record symbol_value =
  val :: cval
  tri :: tristate

record expr_value =
  ev_expr :: "expr option"
  ev_tri :: tristate

record symbol =
  name :: "string option"
  stype :: symbol_type
  curr :: symbol_value
  sdef :: "s_def \<Rightarrow> symbol_value"
  visible :: tristate
  flags :: "sym_flag set"
  props :: "nat list"
  dir_dep :: expr_value
  rev_dep :: expr_value

record property =
  p_sym :: "symref option"
  p_type :: prop_type
  p_text :: "string option"
  p_visible :: expr_value
  p_expr :: "expr option"
  p_menu :: "nat option"

record menu =
  m_next :: "nat option"
  m_parent :: "nat option"
  m_list :: "nat option"
  m_sym :: "symref option"
  m_prompt :: "nat option"
  m_visibility :: "expr option"
  m_dep :: "expr option"
  m_flags :: "menu_flag set"
  m_help :: "string option"

type_synonym symtab = "symref \<Rightarrow> symbol"

definition null_value :: symbol_value where
  "null_value = \<lparr>val = VNull, tri = No\<rparr>"

text \<open>A zeroed \<open>struct symbol\<close>, as \<open>memset\<close> leaves it, with a name and flags.\<close>

definition mk_symbol :: "string option \<Rightarrow> sym_flag set \<Rightarrow> symbol" where
  "mk_symbol nm fl =
     \<lparr>name = nm, stype = S_UNKNOWN, curr = null_value, sdef = (\<lambda>_. null_value), visible = No,
      flags = fl, props = [], dir_dep = \<lparr>ev_expr = None, ev_tri = No\<rparr>,
      rev_dep = \<lparr>ev_expr = None, ev_tri = No\<rparr>\<rparr>"

text \<open>The static initialisers of \<open>symbol_yes\<close>, \<open>symbol_mod\<close>, \<open>symbol_no\<close> and \<open>symbol_empty\<close>.\<close>

fun const_symbol :: "symref \<Rightarrow> symbol" where
  "const_symbol Symbol_yes =
     (mk_symbol (Some ''y'') {SYMBOL_CONST, SYMBOL_VALID})\<lparr>curr := \<lparr>val = VStr (A_lit ''y'') ''y'', tri = Yes\<rparr>\<rparr>"
| "const_symbol Symbol_mod =
     (mk_symbol (Some ''m'') {SYMBOL_CONST, SYMBOL_VALID})\<lparr>curr := \<lparr>val = VStr (A_lit ''m'') ''m'', tri = Mod\<rparr>\<rparr>"
| "const_symbol Symbol_no =
     (mk_symbol (Some ''n'') {SYMBOL_CONST, SYMBOL_VALID})\<lparr>curr := \<lparr>val = VStr (A_lit ''n'') ''n'', tri = No\<rparr>\<rparr>"
| "const_symbol Symbol_empty =
     (mk_symbol (Some '''') {SYMBOL_VALID})\<lparr>curr := \<lparr>val = VStr (A_lit '''') '''', tri = No\<rparr>\<rparr>"
| "const_symbol (Sym _) = mk_symbol None {}"

text \<open>The flag tests of \<^verbatim>\<open>lkc.h\<close>.\<close>

definition sym_is_choice :: "symbol \<Rightarrow> bool" where
  "sym_is_choice s \<longleftrightarrow> SYMBOL_CHOICE \<in> flags s"

definition sym_is_choice_value :: "symbol \<Rightarrow> bool" where
  "sym_is_choice_value s \<longleftrightarrow> SYMBOL_CHOICEVAL \<in> flags s"

definition sym_is_optional :: "symbol \<Rightarrow> bool" where
  "sym_is_optional s \<longleftrightarrow> SYMBOL_OPTIONAL \<in> flags s"

definition sym_has_value :: "symbol \<Rightarrow> bool" where
  "sym_has_value s \<longleftrightarrow> SYMBOL_DEF S_DEF_USER \<in> flags s"

definition sym_get_tristate_value :: "symbol \<Rightarrow> tristate" where
  "sym_get_tristate_value s = tri (curr s)"

end
