(* ===== verification/Kconfig_Expr.thy ===== *)
theory Kconfig_Expr
  imports Kconfig_Data
begin

text \<open>
  The expression operations of \<^verbatim>\<open>expr.c\<close> up to \<open>expr_join_and\<close>, and the transformations
  that do not depend on the duplicate elimination.  The code rewrites expressions in
  place; here every operation returns the rewritten expression.  \<open>NULL\<close> is \<open>None\<close>, so
  \<open>expr option\<close> is a \<open>struct expr *\<close> that may be null, and \<open>expr\<close> one that is not.
  A dependency expression (\<open>expr_wf\<close>) is built from the six kinds of node that
  \<^verbatim>\<open>zconf.y\<close> allows in one; \<open>E_LIST\<close> and \<open>E_RANGE\<close> occur in properties only.
\<close>

section \<open>Nodes and slots\<close>

fun expr_wf :: "expr \<Rightarrow> bool" where
  "expr_wf (E_OR l r) \<longleftrightarrow> expr_wf l \<and> expr_wf r"
| "expr_wf (E_AND l r) \<longleftrightarrow> expr_wf l \<and> expr_wf r"
| "expr_wf (E_NOT e) \<longleftrightarrow> expr_wf e"
| "expr_wf (E_EQUAL _ _) \<longleftrightarrow> True"
| "expr_wf (E_UNEQUAL _ _) \<longleftrightarrow> True"
| "expr_wf (E_SYMBOL _) \<longleftrightarrow> True"
| "expr_wf _ \<longleftrightarrow> False"

text \<open>The number of nodes, the measure of most of the recursions below.\<close>

fun esize :: "expr \<Rightarrow> nat" where
  "esize (E_OR l r) = Suc (esize l + esize r)"
| "esize (E_AND l r) = Suc (esize l + esize r)"
| "esize (E_NOT e) = Suc (esize e)"
| "esize _ = 1"

lemma esize_pos [simp]: "0 < esize e"
  by (cases e) auto

text \<open>The operands of an \<open>E_OR\<close> or \<open>E_AND\<close> node of kind \<open>t\<close>, and the node rebuilt on them.\<close>

fun is_bin :: "expr_type \<Rightarrow> expr \<Rightarrow> bool" where
  "is_bin T_OR (E_OR _ _) = True"
| "is_bin T_AND (E_AND _ _) = True"
| "is_bin _ _ = False"

fun eleft :: "expr \<Rightarrow> expr" where
  "eleft (E_OR l r) = l"
| "eleft (E_AND l r) = l"
| "eleft e = e"

fun eright :: "expr \<Rightarrow> expr" where
  "eright (E_OR l r) = r"
| "eright (E_AND l r) = r"
| "eright e = e"

fun mkbin :: "expr_type \<Rightarrow> expr \<Rightarrow> expr \<Rightarrow> expr" where
  "mkbin T_OR l r = E_OR l r"
| "mkbin _ l r = E_AND l r"

lemma is_bin_cases:
  assumes "is_bin t e"
  obtains l r where "t = T_OR" "e = E_OR l r" | l r where "t = T_AND" "e = E_AND l r"
  using assms by (cases t; cases e) auto

lemma is_bin_etype: "is_bin t e \<longleftrightarrow> etype e = t \<and> (t = T_OR \<or> t = T_AND)"
  by (cases t; cases e) auto

lemma is_bin_mkbin [simp]: "t = T_OR \<or> t = T_AND \<Longrightarrow> is_bin t (mkbin t l r)"
  by auto

lemma is_bin_esize: "is_bin t e \<Longrightarrow> esize e = Suc (esize (eleft e) + esize (eright e))"
  by (auto elim: is_bin_cases)

lemma is_bin_parts [simp]:
  assumes "is_bin t e"
  shows "mkbin t (eleft e) (eright e) = e"
    "esize (mkbin t l r) = Suc (esize l + esize r)"
    "expr_wf e \<longleftrightarrow> expr_wf (eleft e) \<and> expr_wf (eright e)"
    "expr_wf (mkbin t l r) \<longleftrightarrow> expr_wf l \<and> expr_wf r"
  using assms by (auto elim: is_bin_cases)

section \<open>Allocation and copying\<close>

definition expr_alloc_symbol :: "symref \<Rightarrow> expr" where
  "expr_alloc_symbol s = E_SYMBOL s"

fun expr_alloc_comp :: "expr_type \<Rightarrow> symref \<Rightarrow> symref \<Rightarrow> expr" where
  "expr_alloc_comp T_UNEQUAL s1 s2 = E_UNEQUAL s1 s2"
| "expr_alloc_comp _ s1 s2 = E_EQUAL s1 s2"

fun expr_alloc_and :: "expr option \<Rightarrow> expr option \<Rightarrow> expr option" where
  "expr_alloc_and None e2 = e2"
| "expr_alloc_and (Some e1) e2 = (case e2 of Some e \<Rightarrow> Some (E_AND e1 e) | None \<Rightarrow> Some e1)"

fun expr_alloc_or :: "expr option \<Rightarrow> expr option \<Rightarrow> expr option" where
  "expr_alloc_or None e2 = e2"
| "expr_alloc_or (Some e1) e2 = (case e2 of Some e \<Rightarrow> Some (E_OR e1 e) | None \<Rightarrow> Some e1)"

text \<open>
  \<open>expr_copy\<close> refuses the kinds it does not know.  A copy with a refused operand has a null
  operand; the model refuses it as a whole.  On a dependency expression it is the identity
  (\<open>expr_copy_wf\<close>), so the callers below use the expression itself for the copy.
\<close>

fun expr_copy :: "expr \<Rightarrow> expr option" where
  "expr_copy (E_SYMBOL s) = Some (E_SYMBOL s)"
| "expr_copy (E_NOT e) = map_option E_NOT (expr_copy e)"
| "expr_copy (E_EQUAL a b) = Some (E_EQUAL a b)"
| "expr_copy (E_UNEQUAL a b) = Some (E_UNEQUAL a b)"
| "expr_copy (E_AND l r) =
     (case (expr_copy l, expr_copy r) of (Some l', Some r') \<Rightarrow> Some (E_AND l' r') | _ \<Rightarrow> None)"
| "expr_copy (E_OR l r) =
     (case (expr_copy l, expr_copy r) of (Some l', Some r') \<Rightarrow> Some (E_OR l' r') | _ \<Rightarrow> None)"
| "expr_copy _ = None"

lemma expr_copy_wf: "expr_copy e = (if expr_wf e then Some e else None)"
  by (induction e) auto

section \<open>Constant elimination\<close>

fun expr_eliminate_yn :: "expr \<Rightarrow> expr" where
  "expr_eliminate_yn (E_AND l r) =
     (let l' = expr_eliminate_yn l; r' = expr_eliminate_yn r in
      if l' = E_SYMBOL Symbol_no then E_SYMBOL Symbol_no
      else if l' = E_SYMBOL Symbol_yes then r'
      else if r' = E_SYMBOL Symbol_no then E_SYMBOL Symbol_no
      else if r' = E_SYMBOL Symbol_yes then l'
      else E_AND l' r')"
| "expr_eliminate_yn (E_OR l r) =
     (let l' = expr_eliminate_yn l; r' = expr_eliminate_yn r in
      if l' = E_SYMBOL Symbol_no then r'
      else if l' = E_SYMBOL Symbol_yes then E_SYMBOL Symbol_yes
      else if r' = E_SYMBOL Symbol_no then l'
      else if r' = E_SYMBOL Symbol_yes then E_SYMBOL Symbol_yes
      else E_OR l' r')"
| "expr_eliminate_yn e = e"

section \<open>Equality up to the order of operands\<close>

text \<open>
  \<open>elim_eq\<close> is \<open>__expr_eliminate_eq\<close>, \<open>eliminate_eq\<close> is \<open>expr_eliminate_eq\<close> on two
  expressions that are not null.  They call each other with \<open>expr_eq\<close>.  The counter
  \<open>trans_count\<close> is restored by \<open>expr_eq\<close> and not read after the other caller, so it is
  left out here.
\<close>

fun same_symbol :: "expr \<times> expr \<Rightarrow> bool" where
  "same_symbol (E_SYMBOL a, E_SYMBOL b) \<longleftrightarrow> a = b"
| "same_symbol _ \<longleftrightarrow> False"

lemma same_symbolD: "same_symbol p \<Longrightarrow> fst p = snd p"
  by (cases p rule: same_symbol.cases) auto

function elim_eq :: "expr_type \<Rightarrow> expr \<Rightarrow> expr \<Rightarrow> expr \<times> expr"
  and eliminate_eq :: "expr \<Rightarrow> expr \<Rightarrow> expr \<times> expr"
  and expr_eq :: "expr \<Rightarrow> expr \<Rightarrow> bool" where
  "elim_eq t e1 e2 =
     (if is_bin t e1 then
        (let p = elim_eq t (eleft e1) e2; q = elim_eq t (eright e1) (snd p)
         in (mkbin t (fst p) (fst q), snd q))
      else if is_bin t e2 then
        (let p = elim_eq t e1 (eleft e2); q = elim_eq t (fst p) (eright e2)
         in (fst q, mkbin t (snd p) (snd q)))
      else if e1 = e2 \<and> (e1 = E_SYMBOL Symbol_yes \<or> e1 = E_SYMBOL Symbol_no) then (e1, e2)
      else if \<not> expr_eq e1 e2 then (e1, e2)
      else (case t of
              T_OR \<Rightarrow> (E_SYMBOL Symbol_no, E_SYMBOL Symbol_no)
            | T_AND \<Rightarrow> (E_SYMBOL Symbol_yes, E_SYMBOL Symbol_yes)
            | _ \<Rightarrow> (e1, e2)))"
| "eliminate_eq e1 e2 =
     (let p = (if is_bin T_OR e1 then elim_eq T_OR e1 e2
               else if is_bin T_AND e1 then elim_eq T_AND e1 e2 else (e1, e2));
          q = (if etype (fst p) \<noteq> etype (snd p) \<and> is_bin T_OR (snd p)
               then elim_eq T_OR (fst p) (snd p)
               else if etype (fst p) \<noteq> etype (snd p) \<and> is_bin T_AND (snd p)
               then elim_eq T_AND (fst p) (snd p) else p)
      in (expr_eliminate_yn (fst q), expr_eliminate_yn (snd q)))"
| "expr_eq e1 e2 =
     (case (e1, e2) of
        (E_EQUAL a b, E_EQUAL c d) \<Rightarrow> a = c \<and> b = d
      | (E_UNEQUAL a b, E_UNEQUAL c d) \<Rightarrow> a = c \<and> b = d
      | (E_SYMBOL a, E_SYMBOL b) \<Rightarrow> a = b
      | (E_NOT a, E_NOT b) \<Rightarrow> expr_eq a b
      | (E_AND _ _, E_AND _ _) \<Rightarrow>
          same_symbol (eliminate_eq e1 e2)
      | (E_OR _ _, E_OR _ _) \<Rightarrow>
          same_symbol (eliminate_eq e1 e2)
      | _ \<Rightarrow> False)"
  by pat_completeness auto

lemma elim_eq_esize_dom:
  "elim_eq_eliminate_eq_expr_eq_dom (Inl (t, e1, e2)) \<Longrightarrow>
     esize (fst (elim_eq t e1 e2)) \<le> esize e1 \<and> esize (snd (elim_eq t e1 e2)) \<le> esize e2"
  "elim_eq_eliminate_eq_expr_eq_dom (Inr (Inl (e3, e4))) \<Longrightarrow> True"
  "elim_eq_eliminate_eq_expr_eq_dom (Inr (Inr (e5, e6))) \<Longrightarrow> True"
proof (induction t e1 e2 and e3 e4 and e5 e6 rule: elim_eq_eliminate_eq_expr_eq.pinduct)
  case (1 t e1 e2)
  note eq = elim_eq.psimps [OF 1(1)]
  show ?case
  proof (cases "is_bin t e1")
    case True
    from 1(2) [OF True] 1(3) [OF True refl] is_bin_esize [OF True] True
    show ?thesis by (simp add: eq Let_def)
  next
    case e1: False
    show ?thesis
    proof (cases "is_bin t e2")
      case True
      from 1(4) [OF e1 True] 1(5) [OF e1 True refl] is_bin_esize [OF True] e1 True
      show ?thesis by (simp add: eq Let_def)
    next
      case False
      with e1 show ?thesis by (simp add: eq Suc_le_eq split: expr_type.splits)
    qed
  qed
qed auto

text \<open>
  Termination: every call shrinks the two expressions together, except that the comparison of
  two operands of a chain calls \<open>expr_eq\<close> on them, which starts a chain of the other kind.
\<close>

definition elim_rank :: "expr_type \<times> expr \<times> expr + expr \<times> expr + expr \<times> expr \<Rightarrow> nat" where
  "elim_rank x = (case x of
     Inl (t, p) \<Rightarrow> (if is_bin t (fst p) \<or> is_bin t (snd p) then 0 else 3)
   | Inr (Inl _) \<Rightarrow> 1
   | Inr (Inr _) \<Rightarrow> 2)"

definition elim_size :: "expr_type \<times> expr \<times> expr + expr \<times> expr + expr \<times> expr \<Rightarrow> nat" where
  "elim_size x = (case x of
     Inl (t, p) \<Rightarrow> esize (fst p) + esize (snd p)
   | Inr (Inl p) \<Rightarrow> esize (fst p) + esize (snd p)
   | Inr (Inr p) \<Rightarrow> esize (fst p) + esize (snd p))"

lemmas elim_measure = elim_rank_def elim_size_def is_bin_esize

lemma phase_size:
  assumes "p = (if is_bin T_OR e1 then elim_eq T_OR e1 e2
                else if is_bin T_AND e1 then elim_eq T_AND e1 e2 else (e1, e2))"
    and "is_bin T_OR e1 \<Longrightarrow> elim_eq_eliminate_eq_expr_eq_dom (Inl (T_OR, e1, e2))"
    and "\<not> is_bin T_OR e1 \<Longrightarrow> is_bin T_AND e1 \<Longrightarrow> elim_eq_eliminate_eq_expr_eq_dom (Inl (T_AND, e1, e2))"
  shows "esize (fst p) + esize (snd p) \<le> esize e1 + esize e2"
  using assms elim_eq_esize_dom(1) [of T_OR e1 e2] elim_eq_esize_dom(1) [of T_AND e1 e2]
  by (auto split: if_splits)

termination elim_eq
proof (relation "measures [elim_size, elim_rank]", goal_cases)
  case (3 t e1 e2 p)
  with elim_eq_esize_dom(1) [of t "eleft e1" e2] show ?case by (auto simp: elim_measure)
next
  case (5 t e1 e2 p)
  with elim_eq_esize_dom(1) [of t e1 "eleft e2"] show ?case by (auto simp: elim_measure)
next
  case (9 e1 e2 p)
  then have "esize (fst p) + esize (snd p) \<le> esize e1 + esize e2"
    by (intro phase_size) auto
  moreover have "is_bin T_OR (snd p)" using 9 by blast
  ultimately show ?case by (simp add: elim_rank_def elim_size_def le_less)
next
  case (10 e1 e2 p)
  then have "esize (fst p) + esize (snd p) \<le> esize e1 + esize e2"
    by (intro phase_size) auto
  moreover have "is_bin T_AND (snd p)" using 10 by blast
  ultimately show ?case by (simp add: elim_rank_def elim_size_def le_less)
qed (auto simp: elim_measure)


declare elim_eq.simps [simp del] eliminate_eq.simps [simp del] expr_eq.simps [simp del]

definition expr_eliminate_eq :: "expr option \<Rightarrow> expr option \<Rightarrow> expr option \<times> expr option" where
  "expr_eliminate_eq ep1 ep2 =
     (case (ep1, ep2) of
        (Some e1, Some e2) \<Rightarrow> (let p = eliminate_eq e1 e2 in (Some (fst p), Some (snd p)))
      | _ \<Rightarrow> (ep1, ep2))"

section \<open>Joining two operands\<close>

text \<open>bool FOO!=n => FOO, below the operators.\<close>

fun expr_trans_bool :: "symtab \<Rightarrow> expr \<Rightarrow> expr" where
  "expr_trans_bool sy (E_AND l r) = E_AND (expr_trans_bool sy l) (expr_trans_bool sy r)"
| "expr_trans_bool sy (E_OR l r) = E_OR (expr_trans_bool sy l) (expr_trans_bool sy r)"
| "expr_trans_bool sy (E_NOT e) = E_NOT (expr_trans_bool sy e)"
| "expr_trans_bool sy (E_UNEQUAL a b) =
     (if stype (sy a) = S_TRISTATE \<and> b = Symbol_no then E_SYMBOL a else E_UNEQUAL a b)"
| "expr_trans_bool sy e = e"

text \<open>
  The symbol an operand is about: \<open>sym1\<close> of the first operand may sit below an \<open>E_NOT\<close> of a
  comparison, \<open>sym2\<close> of the second one below an \<open>E_NOT\<close> of a symbol only.
\<close>

fun join_sym1 :: "expr \<Rightarrow> symref option" where
  "join_sym1 (E_EQUAL a _) = Some a"
| "join_sym1 (E_UNEQUAL a _) = Some a"
| "join_sym1 (E_SYMBOL a) = Some a"
| "join_sym1 (E_NOT (E_EQUAL a _)) = Some a"
| "join_sym1 (E_NOT (E_UNEQUAL a _)) = Some a"
| "join_sym1 (E_NOT (E_SYMBOL a)) = Some a"
| "join_sym1 _ = None"

fun join_sym2 :: "expr \<Rightarrow> symref option" where
  "join_sym2 (E_EQUAL a _) = Some a"
| "join_sym2 (E_UNEQUAL a _) = Some a"
| "join_sym2 (E_SYMBOL a) = Some a"
| "join_sym2 (E_NOT (E_SYMBOL a)) = Some a"
| "join_sym2 _ = None"

text \<open>\<open>is_comp\<close> tests one operand for \<open>E_EQUAL\<close> or \<open>E_UNEQUAL\<close> with a given right side.\<close>

fun is_eq :: "symref \<Rightarrow> expr \<Rightarrow> bool" where
  "is_eq b (E_EQUAL _ c) \<longleftrightarrow> c = b"
| "is_eq b _ \<longleftrightarrow> False"

fun is_ne :: "symref \<Rightarrow> expr \<Rightarrow> bool" where
  "is_ne b (E_UNEQUAL _ c) \<longleftrightarrow> c = b"
| "is_ne b _ \<longleftrightarrow> False"

fun is_sym :: "expr \<Rightarrow> bool" where
  "is_sym (E_SYMBOL _) \<longleftrightarrow> True"
| "is_sym _ \<longleftrightarrow> False"

fun is_not_sym :: "expr \<Rightarrow> bool" where
  "is_not_sym (E_NOT (E_SYMBOL _)) \<longleftrightarrow> True"
| "is_not_sym _ \<longleftrightarrow> False"

definition expr_join_or :: "symtab \<Rightarrow> expr \<Rightarrow> expr \<Rightarrow> expr option" where
  "expr_join_or sy e1 e2 =
     (if expr_eq e1 e2 then expr_copy e1
      else case (join_sym1 e1, join_sym2 e2) of
        (Some sym1, Some sym2) \<Rightarrow>
          if sym1 \<noteq> sym2 then None
          else if stype (sy sym1) \<noteq> S_BOOLEAN \<and> stype (sy sym1) \<noteq> S_TRISTATE then None
          else if stype (sy sym1) = S_TRISTATE \<and>
            (is_eq Symbol_yes e1 \<and> is_eq Symbol_mod e2 \<or> is_eq Symbol_mod e1 \<and> is_eq Symbol_yes e2)
            then Some (E_UNEQUAL sym1 Symbol_no)
          else if stype (sy sym1) = S_TRISTATE \<and>
            (is_eq Symbol_yes e1 \<and> is_eq Symbol_no e2 \<or> is_eq Symbol_no e1 \<and> is_eq Symbol_yes e2)
            then Some (E_UNEQUAL sym1 Symbol_mod)
          else if stype (sy sym1) = S_TRISTATE \<and>
            (is_eq Symbol_mod e1 \<and> is_eq Symbol_no e2 \<or> is_eq Symbol_no e1 \<and> is_eq Symbol_mod e2)
            then Some (E_UNEQUAL sym1 Symbol_yes)
          else if stype (sy sym1) = S_BOOLEAN \<and> sym1 = sym2 \<and>
            (is_not_sym e1 \<and> is_sym e2 \<or> is_not_sym e2 \<and> is_sym e1)
            then Some (E_SYMBOL Symbol_yes)
          else None
      | _ \<Rightarrow> None)"

text \<open>
  The rule for \<open>(a='b') && (a!='c')\<close> with constants \<open>b\<close> and \<open>c\<close>: \<open>None\<close> when it does not apply.
\<close>

fun join_and_const :: "symtab \<Rightarrow> symref \<Rightarrow> expr \<Rightarrow> expr \<Rightarrow> expr option" where
  "join_and_const sy sym1 (E_EQUAL _ b) (E_UNEQUAL _ c) =
     (if SYMBOL_CONST \<in> flags (sy c) \<and> SYMBOL_CONST \<in> flags (sy b)
      then Some (if b \<noteq> c then E_EQUAL sym1 b else E_SYMBOL Symbol_no) else None)"
| "join_and_const sy sym1 (E_UNEQUAL _ c) (E_EQUAL _ b) =
     (if SYMBOL_CONST \<in> flags (sy c) \<and> SYMBOL_CONST \<in> flags (sy b)
      then Some (if b \<noteq> c then E_EQUAL sym1 b else E_SYMBOL Symbol_no) else None)"
| "join_and_const _ _ _ _ = None"

definition expr_join_and :: "symtab \<Rightarrow> expr \<Rightarrow> expr \<Rightarrow> expr option" where
  "expr_join_and sy e1 e2 =
     (if expr_eq e1 e2 then expr_copy e1
      else case (join_sym1 e1, join_sym2 e2) of
        (Some sym1, Some sym2) \<Rightarrow>
          if sym1 \<noteq> sym2 then None
          else if stype (sy sym1) \<noteq> S_BOOLEAN \<and> stype (sy sym1) \<noteq> S_TRISTATE then None
          else if is_sym e1 \<and> is_eq Symbol_yes e2 \<or> is_sym e2 \<and> is_eq Symbol_yes e1
            then Some (E_EQUAL sym1 Symbol_yes)
          else if is_sym e1 \<and> is_ne Symbol_no e2 \<or> is_sym e2 \<and> is_ne Symbol_no e1
            then Some (E_SYMBOL sym1)
          else if is_sym e1 \<and> is_ne Symbol_mod e2 \<or> is_sym e2 \<and> is_ne Symbol_mod e1
            then Some (E_EQUAL sym1 Symbol_yes)
          else if stype (sy sym1) = S_TRISTATE then
            (case join_and_const sy sym1 e1 e2 of
               Some e \<Rightarrow> Some e
             | None \<Rightarrow>
                 if is_ne Symbol_yes e1 \<and> is_ne Symbol_no e2 \<or> is_ne Symbol_no e1 \<and> is_ne Symbol_yes e2
                   then Some (E_EQUAL sym1 Symbol_mod)
                 else if is_ne Symbol_yes e1 \<and> is_ne Symbol_mod e2 \<or> is_ne Symbol_mod e1 \<and> is_ne Symbol_yes e2
                   then Some (E_EQUAL sym1 Symbol_no)
                 else if is_ne Symbol_mod e1 \<and> is_ne Symbol_no e2 \<or> is_ne Symbol_no e1 \<and> is_ne Symbol_mod e2
                   then Some (E_EQUAL sym1 Symbol_yes)
                 else None)
          else None
      | _ \<Rightarrow> None)"

section \<open>Negation normal form\<close>

text \<open>
  \<open>expr_transform\<close> pushes negations to the leaves and replaces comparisons of boolean symbols.
  The code treats an \<open>E_RANGE\<close> node as if it had operands; no dependency contains one, and the
  model leaves it as it is.  The weight bounds the recursion on the rewritten negations.
\<close>

fun tweight :: "expr \<Rightarrow> nat" where
  "tweight (E_OR l r) = Suc (tweight l + tweight r)"
| "tweight (E_AND l r) = Suc (tweight l + tweight r)"
| "tweight (E_NOT e) = 2 * tweight e"
| "tweight (E_EQUAL _ _) = 2"
| "tweight (E_UNEQUAL _ _) = 2"
| "tweight _ = 1"

lemma tweight_pos [simp]: "0 < tweight e"
  by (induction e) auto

function expr_transform :: "symtab \<Rightarrow> expr \<Rightarrow> expr" where
  "expr_transform sy (E_EQUAL a b) =
     (if stype (sy a) \<noteq> S_BOOLEAN then E_EQUAL a b
      else if b = Symbol_no then E_NOT (E_SYMBOL a)
      else if b = Symbol_mod then E_SYMBOL Symbol_no
      else if b = Symbol_yes then E_SYMBOL a
      else E_EQUAL a b)"
| "expr_transform sy (E_UNEQUAL a b) =
     (if stype (sy a) \<noteq> S_BOOLEAN then E_UNEQUAL a b
      else if b = Symbol_no then E_SYMBOL a
      else if b = Symbol_mod then E_SYMBOL Symbol_yes
      else if b = Symbol_yes then E_NOT (E_SYMBOL a)
      else E_UNEQUAL a b)"
| "expr_transform sy (E_AND l r) = E_AND (expr_transform sy l) (expr_transform sy r)"
| "expr_transform sy (E_OR l r) = E_OR (expr_transform sy l) (expr_transform sy r)"
| "expr_transform sy (E_NOT e) =
     (let l = expr_transform sy e in
      case l of
        E_NOT a \<Rightarrow> expr_transform sy a
      | E_EQUAL a b \<Rightarrow> E_UNEQUAL a b
      | E_UNEQUAL a b \<Rightarrow> E_EQUAL a b
      | E_OR a b \<Rightarrow> expr_transform sy (E_AND (E_NOT a) (E_NOT b))
      | E_AND a b \<Rightarrow> expr_transform sy (E_OR (E_NOT a) (E_NOT b))
      | E_SYMBOL s \<Rightarrow>
          (if s = Symbol_yes then E_SYMBOL Symbol_no
           else if s = Symbol_mod then E_SYMBOL Symbol_mod
           else if s = Symbol_no then E_SYMBOL Symbol_yes
           else E_NOT l)
      | _ \<Rightarrow> E_NOT l)"
| "expr_transform sy (E_SYMBOL s) = E_SYMBOL s"
| "expr_transform sy (E_LIST e s) = E_LIST e s"
| "expr_transform sy (E_RANGE a b) = E_RANGE a b"
| "expr_transform sy E_NONE = E_NONE"
  by pat_completeness auto

lemma expr_transform_tweight_dom:
  "expr_transform_dom (sy, e) \<Longrightarrow> tweight (expr_transform sy e) \<le> tweight e"
proof (induction sy e rule: expr_transform.pinduct)
  case (5 sy e)
  then show ?case
    by (fastforce simp: expr_transform.psimps Let_def split: expr.splits)
qed (auto simp: expr_transform.psimps)

termination expr_transform
proof (relation "measure (\<lambda>(sy, e). tweight e)", goal_cases)
  case (7 sy e l a b)
  then have "tweight (E_OR a b) \<le> tweight e" using expr_transform_tweight_dom by metis
  then show ?case by simp
next
  case (8 sy e l a b)
  then have "tweight (E_AND a b) \<le> tweight e" using expr_transform_tweight_dom by metis
  then show ?case by simp
next
  case (9 sy e l a)
  then have "tweight (E_NOT a) \<le> tweight e" using expr_transform_tweight_dom by metis
  then show ?case using tweight_pos [of a] by (simp del: tweight_pos)
qed auto

section \<open>Searching an expression\<close>

fun expr_contains_symbol :: "expr option \<Rightarrow> symref \<Rightarrow> bool" where
  "expr_contains_symbol None sm = False"
| "expr_contains_symbol (Some (E_AND l r)) sm =
     (expr_contains_symbol (Some l) sm \<or> expr_contains_symbol (Some r) sm)"
| "expr_contains_symbol (Some (E_OR l r)) sm =
     (expr_contains_symbol (Some l) sm \<or> expr_contains_symbol (Some r) sm)"
| "expr_contains_symbol (Some (E_SYMBOL s)) sm = (s = sm)"
| "expr_contains_symbol (Some (E_EQUAL a b)) sm = (a = sm \<or> b = sm)"
| "expr_contains_symbol (Some (E_UNEQUAL a b)) sm = (a = sm \<or> b = sm)"
| "expr_contains_symbol (Some (E_NOT e)) sm = expr_contains_symbol (Some e) sm"
| "expr_contains_symbol (Some _) sm = False"

fun expr_depends_symbol :: "expr option \<Rightarrow> symref \<Rightarrow> bool" where
  "expr_depends_symbol None sm = False"
| "expr_depends_symbol (Some (E_AND l r)) sm =
     (expr_depends_symbol (Some l) sm \<or> expr_depends_symbol (Some r) sm)"
| "expr_depends_symbol (Some (E_SYMBOL s)) sm = (s = sm)"
| "expr_depends_symbol (Some (E_EQUAL a b)) sm =
     (a = sm \<and> (b = Symbol_yes \<or> b = Symbol_mod))"
| "expr_depends_symbol (Some (E_UNEQUAL a b)) sm = (a = sm \<and> b = Symbol_no)"
| "expr_depends_symbol (Some _) sm = False"

section \<open>Extracting common operands\<close>

text \<open>
  \<open>expr_extract_eq\<close> moves the operands that the two chains of kind \<open>t\<close> share into the
  accumulator \<open>ep\<close> and leaves the neutral constant in their slots.
\<close>

function expr_extract_eq ::
  "expr_type \<Rightarrow> expr option \<Rightarrow> expr \<Rightarrow> expr \<Rightarrow> expr option \<times> expr \<times> expr" where
  "expr_extract_eq t ep e1 e2 =
     (if is_bin t e1 then
        (let p = expr_extract_eq t ep (eleft e1) e2;
             q = expr_extract_eq t (fst p) (eright e1) (snd (snd p))
         in (fst q, mkbin t (fst (snd p)) (fst (snd q)), snd (snd q)))
      else if is_bin t e2 then
        (let p = expr_extract_eq t ep e1 (eleft e2);
             q = expr_extract_eq t (fst p) (fst (snd p)) (eright e2)
         in (fst q, fst (snd q), mkbin t (snd (snd p)) (snd (snd q))))
      else if expr_eq e1 e2 then
        (let ep' = Some (case ep of Some e \<Rightarrow> mkbin t e e1 | None \<Rightarrow> e1) in
         case t of
           T_AND \<Rightarrow> (ep', E_SYMBOL Symbol_yes, E_SYMBOL Symbol_yes)
         | T_OR \<Rightarrow> (ep', E_SYMBOL Symbol_no, E_SYMBOL Symbol_no)
         | _ \<Rightarrow> (ep', e1, e2))
      else (ep, e1, e2))"
  by pat_completeness auto

lemma expr_extract_eq_esize_dom:
  "expr_extract_eq_dom (t, ep, e1, e2) \<Longrightarrow>
   esize (fst (snd (expr_extract_eq t ep e1 e2))) \<le> esize e1 \<and>
   esize (snd (snd (expr_extract_eq t ep e1 e2))) \<le> esize e2"
proof (induction t ep e1 e2 rule: expr_extract_eq.pinduct)
  case (1 t ep e1 e2)
  note eq = expr_extract_eq.psimps [OF 1(1)]
  show ?case
  proof (cases "is_bin t e1")
    case True
    from 1(2) [OF True] 1(3) [OF True refl] is_bin_esize [OF True] True
    show ?thesis by (simp add: eq Let_def)
  next
    case e1: False
    show ?thesis
    proof (cases "is_bin t e2")
      case True
      from 1(4) [OF e1 True] 1(5) [OF e1 True refl] is_bin_esize [OF True] e1 True
      show ?thesis by (simp add: eq Let_def)
    next
      case False
      with e1 show ?thesis by (simp add: eq Let_def Suc_le_eq split: expr_type.splits)
    qed
  qed
qed

termination expr_extract_eq
proof (relation "measure (\<lambda>(t, ep, e1, e2). esize e1 + esize e2)", goal_cases)
  case (3 t ep e1 e2 p)
  with expr_extract_eq_esize_dom [of t ep "eleft e1" e2] show ?case by (simp add: is_bin_esize)
next
  case (5 t ep e1 e2 p)
  with expr_extract_eq_esize_dom [of t ep e1 "eleft e2"] show ?case by (simp add: is_bin_esize)
qed (auto simp: is_bin_esize)

declare expr_extract_eq.simps [simp del]

definition extract_eq_yn :: "expr option \<times> expr \<times> expr \<Rightarrow> expr option \<times> expr \<times> expr" where
  "extract_eq_yn r = (case r of
     (None, e1, e2) \<Rightarrow> (None, e1, e2)
   | (Some e, e1, e2) \<Rightarrow> (Some e, expr_eliminate_yn e1, expr_eliminate_yn e2))"

definition expr_extract_eq_and :: "expr \<Rightarrow> expr \<Rightarrow> expr option \<times> expr \<times> expr" where
  "expr_extract_eq_and e1 e2 = extract_eq_yn (expr_extract_eq T_AND None e1 e2)"

definition expr_extract_eq_or :: "expr \<Rightarrow> expr \<Rightarrow> expr option \<times> expr \<times> expr" where
  "expr_extract_eq_or e1 e2 = extract_eq_yn (expr_extract_eq T_OR None e1 e2)"

section \<open>Comparing an expression with a constant\<close>

text \<open>
  \<open>expr_trans_compare e t sm\<close> builds the expression for \<open>e = sm\<close> or \<open>e != sm\<close>.
  The result is \<open>NULL\<close> for a comparison with a symbol other than the three constants and for
  \<open>E_LIST\<close>, \<open>E_RANGE\<close> and \<open>E_NONE\<close>.  With \<open>sm = mod\<close> the code keeps \<open>e\<close> itself for a
  conjunction or disjunction.
\<close>

definition neg_if :: "expr_type \<Rightarrow> expr \<Rightarrow> expr" where
  "neg_if t e = (if t = T_UNEQUAL then E_NOT e else e)"

fun trans_compare :: "expr \<Rightarrow> expr_type \<Rightarrow> symref \<Rightarrow> expr option" where
  "trans_compare (E_AND l r) t sm =
     (case (trans_compare l T_EQUAL sm, trans_compare r T_EQUAL sm) of
        (Some e1, Some e2) \<Rightarrow>
          Some (neg_if t (if sm = Symbol_no then E_OR e1 e2
                          else if sm = Symbol_yes then E_AND e1 e2 else E_AND l r))
      | _ \<Rightarrow> if sm = Symbol_no \<or> sm = Symbol_yes then None else Some (neg_if t (E_AND l r)))"
| "trans_compare (E_OR l r) t sm =
     (case (trans_compare l T_EQUAL sm, trans_compare r T_EQUAL sm) of
        (Some e1, Some e2) \<Rightarrow>
          Some (neg_if t (if sm = Symbol_no then E_AND e1 e2
                          else if sm = Symbol_yes then E_OR e1 e2 else E_OR l r))
      | _ \<Rightarrow> if sm = Symbol_no \<or> sm = Symbol_yes then None else Some (neg_if t (E_OR l r)))"
| "trans_compare (E_NOT e) t sm =
     trans_compare e (if t = T_EQUAL then T_UNEQUAL else T_EQUAL) sm"
| "trans_compare (E_SYMBOL s) t sm = Some (expr_alloc_comp t s sm)"
| "trans_compare (E_LIST _ _) t sm = None"
| "trans_compare (E_RANGE _ _) t sm = None"
| "trans_compare E_NONE t sm = None"
| "trans_compare e t sm =
     (if t = T_EQUAL then
        (if sm = Symbol_yes then expr_copy e
         else if sm = Symbol_mod then Some (E_SYMBOL Symbol_no)
         else if sm = Symbol_no then map_option E_NOT (expr_copy e)
         else None)
      else
        (if sm = Symbol_yes then map_option E_NOT (expr_copy e)
         else if sm = Symbol_mod then Some (E_SYMBOL Symbol_yes)
         else if sm = Symbol_no then expr_copy e
         else None))"

definition expr_trans_compare :: "expr option \<Rightarrow> expr_type \<Rightarrow> symref \<Rightarrow> expr option" where
  "expr_trans_compare e t sm =
     (case e of
        None \<Rightarrow> Some (neg_if t (E_SYMBOL sm))
      | Some e' \<Rightarrow> trans_compare e' t sm)"

fun expr_is_yes :: "expr option \<Rightarrow> bool" where
  "expr_is_yes None \<longleftrightarrow> True"
| "expr_is_yes (Some e) \<longleftrightarrow> e = E_SYMBOL Symbol_yes"

fun expr_is_no :: "expr option \<Rightarrow> bool" where
  "expr_is_no None \<longleftrightarrow> False"
| "expr_is_no (Some e) \<longleftrightarrow> e = E_SYMBOL Symbol_no"

end
