(* ===== verification/Kconfig_Expr_Sem.thy ===== *)
theory Kconfig_Expr_Sem
  imports Kconfig_Expr
begin

text \<open>
  What the rewritings of \<^verbatim>\<open>expr.c\<close> preserve.  \<open>expr_value\<close> is the value \<open>expr_calc_value\<close>
  computes once every symbol it meets has its value: \<open>tv\<close> gives a symbol's tristate value and
  \<open>sv\<close> its string value.  \<open>env_ok\<close> is what the symbol table guarantees of these two: the
  constants have their values, the string of a logical symbol is the letter of its tristate
  value, a boolean symbol is never \<open>m\<close>, and distinct constants have distinct strings.
  \<open>bool_leaves\<close> says that no symbol used as an operand is \<open>m\<close>, as when modules are disabled.
\<close>

fun tri_str :: "tristate \<Rightarrow> string" where
  "tri_str No = ''n''"
| "tri_str Mod = ''m''"
| "tri_str Yes = ''y''"

lemma tri_str_inject [simp]: "tri_str a = tri_str b \<longleftrightarrow> a = b"
  by (cases a; cases b) auto

lemma tri_str_letters [simp]:
  "tri_str a = ''n'' \<longleftrightarrow> a = No" "tri_str a = ''m'' \<longleftrightarrow> a = Mod" "tri_str a = ''y'' \<longleftrightarrow> a = Yes"
  by (cases a; simp)+

definition tri_of_bool :: "bool \<Rightarrow> tristate" where
  "tri_of_bool b = (if b then Yes else No)"

lemma tri_of_bool_simps [simp]:
  "tri_of_bool True = Yes" "tri_of_bool False = No" "tri_of_bool b = Yes \<longleftrightarrow> b"
  "tri_of_bool b = No \<longleftrightarrow> \<not> b" "tri_of_bool b \<noteq> Mod" "Mod \<noteq> tri_of_bool b"
  "EXPR_NOT (tri_of_bool b) = tri_of_bool (\<not> b)"
  by (cases b; simp add: tri_of_bool_def)+

fun expr_value :: "(symref \<Rightarrow> tristate) \<Rightarrow> (symref \<Rightarrow> string) \<Rightarrow> expr \<Rightarrow> tristate" where
  "expr_value tv sv (E_SYMBOL s) = tv s"
| "expr_value tv sv (E_AND l r) = EXPR_AND (expr_value tv sv l) (expr_value tv sv r)"
| "expr_value tv sv (E_OR l r) = EXPR_OR (expr_value tv sv l) (expr_value tv sv r)"
| "expr_value tv sv (E_NOT e) = EXPR_NOT (expr_value tv sv e)"
| "expr_value tv sv (E_EQUAL a b) = tri_of_bool (sv a = sv b)"
| "expr_value tv sv (E_UNEQUAL a b) = tri_of_bool (sv a \<noteq> sv b)"
| "expr_value tv sv _ = No"

definition value_opt :: "(symref \<Rightarrow> tristate) \<Rightarrow> (symref \<Rightarrow> string) \<Rightarrow> expr option \<Rightarrow> tristate" where
  "value_opt tv sv e = (case e of None \<Rightarrow> Yes | Some e' \<Rightarrow> expr_value tv sv e')"

definition consts_ok :: "(symref \<Rightarrow> tristate) \<Rightarrow> bool" where
  "consts_ok tv \<longleftrightarrow> tv Symbol_yes = Yes \<and> tv Symbol_mod = Mod \<and> tv Symbol_no = No"

definition logical :: "symtab \<Rightarrow> symref \<Rightarrow> bool" where
  "logical sy s \<longleftrightarrow> stype (sy s) = S_BOOLEAN \<or> stype (sy s) = S_TRISTATE"

definition env_ok :: "symtab \<Rightarrow> (symref \<Rightarrow> tristate) \<Rightarrow> (symref \<Rightarrow> string) \<Rightarrow> bool" where
  "env_ok sy tv sv \<longleftrightarrow>
     consts_ok tv \<and> sv Symbol_yes = ''y'' \<and> sv Symbol_mod = ''m'' \<and> sv Symbol_no = ''n'' \<and>
     (\<forall>s. logical sy s \<longrightarrow> sv s = tri_str (tv s)) \<and>
     (\<forall>s. stype (sy s) = S_BOOLEAN \<longrightarrow> tv s \<noteq> Mod) \<and>
     (\<forall>s s'. SYMBOL_CONST \<in> flags (sy s) \<longrightarrow> SYMBOL_CONST \<in> flags (sy s') \<longrightarrow> s \<noteq> s' \<longrightarrow> sv s \<noteq> sv s')"

lemma env_okD:
  assumes "env_ok sy tv sv"
  shows "consts_ok tv" "sv Symbol_yes = ''y''" "sv Symbol_mod = ''m''" "sv Symbol_no = ''n''"
    "logical sy s \<Longrightarrow> sv s = tri_str (tv s)" "stype (sy s) = S_BOOLEAN \<Longrightarrow> tv s \<noteq> Mod"
    "SYMBOL_CONST \<in> flags (sy s) \<Longrightarrow> SYMBOL_CONST \<in> flags (sy s') \<Longrightarrow> s \<noteq> s' \<Longrightarrow> sv s \<noteq> sv s'"
  using assms by (auto simp: env_ok_def)

lemma consts_okD [simp]:
  assumes "consts_ok tv"
  shows "tv Symbol_yes = Yes" "tv Symbol_mod = Mod" "tv Symbol_no = No"
  using assms by (auto simp: consts_ok_def)

section \<open>The two chain operations\<close>

definition bop :: "expr_type \<Rightarrow> tristate \<Rightarrow> tristate \<Rightarrow> tristate" where
  "bop t = (if t = T_OR then EXPR_OR else EXPR_AND)"

definition bunit :: "expr_type \<Rightarrow> symref" where
  "bunit t = (if t = T_OR then Symbol_no else Symbol_yes)"

lemma bop_ac [tri_simps]:
  "bop t a b = bop t b a" "bop t (bop t a b) c = bop t a (bop t b c)"
  "bop t a (bop t b c) = bop t b (bop t a c)"
  unfolding bop_def by (simp_all add: tri_simps)

lemma bop_idem [simp]: "bop t a a = a"
  by (simp add: bop_def)

lemma bop_unit [simp]:
  "consts_ok tv \<Longrightarrow> bop t (tv (bunit t)) a = a" "consts_ok tv \<Longrightarrow> bop t a (tv (bunit t)) = a"
  by (simp_all add: bop_def bunit_def)

lemma value_mkbin [simp]:
  "expr_value tv sv (mkbin t l r) = bop t (expr_value tv sv l) (expr_value tv sv r)"
  by (cases t) (simp_all add: bop_def)

lemma value_is_bin:
  "is_bin t e \<Longrightarrow> expr_value tv sv e = bop t (expr_value tv sv (eleft e)) (expr_value tv sv (eright e))"
  by (auto simp: bop_def elim: is_bin_cases)

section \<open>Constant elimination\<close>

lemma yn_value:
  "consts_ok tv \<Longrightarrow> expr_value tv sv (expr_eliminate_yn e) = expr_value tv sv e"
proof (induction e rule: expr_eliminate_yn.induct)
  case (1 l r)
  then show ?case by (auto simp: Let_def)
next
  case (2 l r)
  then show ?case by (auto simp: Let_def)
qed auto

lemma yn_wf: "expr_wf e \<Longrightarrow> expr_wf (expr_eliminate_yn e)"
  by (induction e rule: expr_eliminate_yn.induct) (auto simp: Let_def)

lemma yn_esize: "esize (expr_eliminate_yn e) \<le> esize e"
  by (induction e rule: expr_eliminate_yn.induct) (auto simp: Let_def)

section \<open>Equality is semantic equality\<close>

lemma elim_eq_leaf:
  assumes "\<not> is_bin t e1" "\<not> is_bin t e2" "consts_ok tv" "t = T_OR \<or> t = T_AND"
    and "expr_eq e1 e2 \<Longrightarrow> expr_value tv sv e1 = expr_value tv sv e2"
  shows "\<exists>c. expr_value tv sv e1 = bop t c (expr_value tv sv (fst (elim_eq t e1 e2))) \<and>
             expr_value tv sv e2 = bop t c (expr_value tv sv (snd (elim_eq t e1 e2)))"
proof (cases "expr_eq e1 e2 \<and> \<not> (e1 = e2 \<and> (e1 = E_SYMBOL Symbol_yes \<or> e1 = E_SYMBOL Symbol_no))")
  case True
  then show ?thesis
    using assms by (intro exI [of _ "expr_value tv sv e1"]) (auto simp: elim_eq.simps bop_def)
next
  case False
  then have "elim_eq t e1 e2 = (e1, e2)" using assms(1,2) by (auto simp: elim_eq.simps)
  then show ?thesis using assms(3) by (intro exI [of _ "tv (bunit t)"]) simp
qed

lemma eq_value:
  assumes "consts_ok tv"
  shows "t = T_OR \<or> t = T_AND \<Longrightarrow>
      \<exists>c. expr_value tv sv e1 = bop t c (expr_value tv sv (fst (elim_eq t e1 e2))) \<and>
          expr_value tv sv e2 = bop t c (expr_value tv sv (snd (elim_eq t e1 e2)))"
    and "expr_value tv sv (fst (eliminate_eq e3 e4)) = expr_value tv sv (snd (eliminate_eq e3 e4)) \<Longrightarrow>
      expr_value tv sv e3 = expr_value tv sv e4"
    and "expr_eq e5 e6 \<Longrightarrow> expr_value tv sv e5 = expr_value tv sv e6"
proof (induction t e1 e2 and e3 e4 and e5 e6 rule: elim_eq_eliminate_eq_expr_eq.induct)
  case (1 t e1 e2)
  show ?case
  proof (cases "is_bin t e1")
    case True
    obtain c d where
      "expr_value tv sv (eleft e1) = bop t c (expr_value tv sv (fst (elim_eq t (eleft e1) e2)))"
      "expr_value tv sv e2 = bop t c (expr_value tv sv (snd (elim_eq t (eleft e1) e2)))"
      "expr_value tv sv (eright e1) =
         bop t d (expr_value tv sv (fst (elim_eq t (eright e1) (snd (elim_eq t (eleft e1) e2)))))"
      "expr_value tv sv (snd (elim_eq t (eleft e1) e2)) =
         bop t d (expr_value tv sv (snd (elim_eq t (eright e1) (snd (elim_eq t (eleft e1) e2)))))"
      using 1(1) [OF True "1.prems"] 1(2) [OF True refl "1.prems"] by blast
    then show ?thesis using True
      by (intro exI [of _ "bop t c d"]) (simp add: elim_eq.simps [of t e1 e2] Let_def value_is_bin tri_simps)
  next
    case e1: False
    show ?thesis
    proof (cases "is_bin t e2")
      case True
      obtain c d where
        "expr_value tv sv e1 = bop t c (expr_value tv sv (fst (elim_eq t e1 (eleft e2))))"
        "expr_value tv sv (eleft e2) = bop t c (expr_value tv sv (snd (elim_eq t e1 (eleft e2))))"
        "expr_value tv sv (fst (elim_eq t e1 (eleft e2))) =
           bop t d (expr_value tv sv (fst (elim_eq t (fst (elim_eq t e1 (eleft e2))) (eright e2))))"
        "expr_value tv sv (eright e2) =
           bop t d (expr_value tv sv (snd (elim_eq t (fst (elim_eq t e1 (eleft e2))) (eright e2))))"
        using 1(3) [OF e1 True "1.prems"] 1(4) [OF e1 True refl "1.prems"] by blast
      then show ?thesis using True e1
        by (intro exI [of _ "bop t c d"]) (simp add: elim_eq.simps [of t e1 e2] Let_def value_is_bin tri_simps)
    next
      case False
      show ?thesis
      proof (rule elim_eq_leaf [OF e1 False assms "1.prems"])
        assume "expr_eq e1 e2"
        with 1(5) [OF e1 False] show "expr_value tv sv e1 = expr_value tv sv e2" by metis
      qed
    qed
  qed
next
  case (2 e1 e2)
  define p where "p = (if is_bin T_OR e1 then elim_eq T_OR e1 e2
                       else if is_bin T_AND e1 then elim_eq T_AND e1 e2 else (e1, e2))"
  define q where "q = (if etype (fst p) \<noteq> etype (snd p) \<and> is_bin T_OR (snd p)
                       then elim_eq T_OR (fst p) (snd p)
                       else if etype (fst p) \<noteq> etype (snd p) \<and> is_bin T_AND (snd p)
                       then elim_eq T_AND (fst p) (snd p) else p)"
  have p: "expr_value tv sv e1 = expr_value tv sv e2"
    if "expr_value tv sv (fst p) = expr_value tv sv (snd p)"
    using that 2(1,2) unfolding p_def by (force split: if_splits)
  have q: "expr_value tv sv (fst p) = expr_value tv sv (snd p)"
    if "expr_value tv sv (fst q) = expr_value tv sv (snd q)"
    using that 2(3,4) [OF p_def] unfolding q_def by (force split: if_splits)
  have "eliminate_eq e1 e2 = (expr_eliminate_yn (fst q), expr_eliminate_yn (snd q))"
    unfolding eliminate_eq.simps [of e1 e2] p_def [symmetric] q_def [symmetric] Let_def ..
  with "2.prems" assms p q show ?case by (simp add: yn_value)
next
  case (3 e1 e2)
  then show ?case
    by (auto simp: expr_eq.simps [of e1 e2] dest: same_symbolD split: expr.splits)
qed

section \<open>Joins are the operation they replace\<close>

lemma operand_shape1:
  assumes "join_sym1 e = Some a"
  shows "is_eq b e \<longleftrightarrow> e = E_EQUAL a b" "is_ne b e \<longleftrightarrow> e = E_UNEQUAL a b"
    "is_sym e \<longleftrightarrow> e = E_SYMBOL a" "is_not_sym e \<longleftrightarrow> e = E_NOT (E_SYMBOL a)"
  using assms by (cases e rule: join_sym1.cases; auto)+

lemma operand_shape2:
  assumes "join_sym2 e = Some a"
  shows "is_eq b e \<longleftrightarrow> e = E_EQUAL a b" "is_ne b e \<longleftrightarrow> e = E_UNEQUAL a b"
    "is_sym e \<longleftrightarrow> e = E_SYMBOL a" "is_not_sym e \<longleftrightarrow> e = E_NOT (E_SYMBOL a)"
  using assms by (cases e rule: join_sym2.cases; auto)+

lemma join_or_value:
  assumes "env_ok sy tv sv" "expr_join_or sy e1 e2 = Some e"
  shows "expr_value tv sv e = EXPR_OR (expr_value tv sv e1) (expr_value tv sv e2)"
proof (cases "expr_eq e1 e2")
  case True
  with assms eq_value(3) [OF env_okD(1) [OF assms(1)] True] show ?thesis
    by (auto simp: expr_join_or_def expr_copy_wf split: if_splits)
next
  case False
  with assms(2) obtain a where a: "join_sym1 e1 = Some a" "join_sym2 e2 = Some a" "logical sy a"
    by (auto simp: expr_join_or_def logical_def split: option.splits if_splits)
  note env = env_okD(1-4) [OF assms(1)] env_okD(5) [OF assms(1) a(3)] env_okD(6) [OF assms(1), of a]
  from a assms(2) False env show ?thesis
    unfolding expr_join_or_def operand_shape1 [OF a(1)] operand_shape2 [OF a(2)]
    by (cases "tv a") (auto split: if_splits)
qed

lemma join_and_const_value:
  assumes "env_ok sy tv sv" "logical sy a" "join_and_const sy a e1 e2 = Some e"
    and "join_sym1 e1 = Some a" "join_sym2 e2 = Some a"
  shows "expr_value tv sv e = EXPR_AND (expr_value tv sv e1) (expr_value tv sv e2)"
  using assms(3-) env_okD(1,7) [OF assms(1)]
  by (cases "(sy, a, e1, e2)" rule: join_and_const.cases)
    (auto simp: tri_of_bool_def split: if_splits)

text \<open>Which rule of the ladder in \<open>expr_join_and\<close> has given the result.\<close>

lemma join_ladder:
  "(if c1 then Some x1 else if c2 then Some x2 else if c3 then Some x3
    else if tr then (case j of Some y \<Rightarrow> Some y
      | None \<Rightarrow> if c4 then Some x4 else if c5 then Some x5 else if c6 then Some x6 else None)
    else None) = Some e \<Longrightarrow>
   j = Some e \<or>
   c1 \<and> e = x1 \<or> c2 \<and> e = x2 \<or> c3 \<and> e = x3 \<or> c4 \<and> e = x4 \<or> c5 \<and> e = x5 \<or> c6 \<and> e = x6"
  by (auto split: if_splits option.splits)

lemma join_and_cases:
  assumes "expr_join_and sy e1 e2 = Some e" "\<not> expr_eq e1 e2"
  obtains a where "join_sym1 e1 = Some a" "join_sym2 e2 = Some a" "logical sy a"
    and "join_and_const sy a e1 e2 = Some e \<or>
      (is_sym e1 \<and> is_eq Symbol_yes e2 \<or> is_sym e2 \<and> is_eq Symbol_yes e1) \<and> e = E_EQUAL a Symbol_yes \<or>
      (is_sym e1 \<and> is_ne Symbol_no e2 \<or> is_sym e2 \<and> is_ne Symbol_no e1) \<and> e = E_SYMBOL a \<or>
      (is_sym e1 \<and> is_ne Symbol_mod e2 \<or> is_sym e2 \<and> is_ne Symbol_mod e1) \<and> e = E_EQUAL a Symbol_yes \<or>
      (is_ne Symbol_yes e1 \<and> is_ne Symbol_no e2 \<or> is_ne Symbol_no e1 \<and> is_ne Symbol_yes e2) \<and>
        e = E_EQUAL a Symbol_mod \<or>
      (is_ne Symbol_yes e1 \<and> is_ne Symbol_mod e2 \<or> is_ne Symbol_mod e1 \<and> is_ne Symbol_yes e2) \<and>
        e = E_EQUAL a Symbol_no \<or>
      (is_ne Symbol_mod e1 \<and> is_ne Symbol_no e2 \<or> is_ne Symbol_no e1 \<and> is_ne Symbol_mod e2) \<and>
        e = E_EQUAL a Symbol_yes"
proof -
  from assms obtain a where a: "join_sym1 e1 = Some a" "join_sym2 e2 = Some a" "logical sy a"
    by (auto simp: expr_join_and_def logical_def split: option.splits if_splits)
  then have l: "stype (sy a) \<noteq> S_BOOLEAN \<and> stype (sy a) \<noteq> S_TRISTATE \<longleftrightarrow> False"
    by (auto simp: logical_def)
  show thesis
    by (rule that [OF a], rule join_ladder, rule assms(1) [unfolded expr_join_and_def a option.case prod.case
          l if_False simp_thms not_False_eq_True, simplified assms(2) if_False])
qed

lemma join_and_value:
  assumes "env_ok sy tv sv" "expr_join_and sy e1 e2 = Some e"
  shows "expr_value tv sv e = EXPR_AND (expr_value tv sv e1) (expr_value tv sv e2)"
proof (cases "expr_eq e1 e2")
  case True
  with assms eq_value(3) [OF env_okD(1) [OF assms(1)] True] show ?thesis
    by (auto simp: expr_join_and_def expr_copy_wf split: if_splits)
next
  case False
  from join_and_cases [OF assms(2) this] show ?thesis
  proof cases
    case (1 a)
    note env = env_okD(1-4) [OF assms(1)] env_okD(5) [OF assms(1) 1(3)] env_okD(6) [OF assms(1), of a]
    show ?thesis
    proof (cases "join_and_const sy a e1 e2 = Some e")
      case True
      with join_and_const_value [OF assms(1) 1(3) True 1(1,2)] show ?thesis by simp
    next
      case const: False
      from 1(4) const env show ?thesis
        unfolding operand_shape1 [OF 1(1)] operand_shape2 [OF 1(2)]
        by (elim disjE conjE; cases "tv a"; simp)
    qed
  qed
qed

section \<open>Negation normal form\<close>

lemma transform_value:
  "env_ok sy tv sv \<Longrightarrow> expr_value tv sv (expr_transform sy e) = expr_value tv sv e"
proof (induction sy e rule: expr_transform.induct)
  case (1 sy a b)
  note env = env_okD(1-4) [OF 1] env_okD(5,6) [OF 1, of a]
  then show ?case by (cases "tv a") (auto simp: logical_def)
next
  case (2 sy a b)
  note env = env_okD(1-4) [OF 2] env_okD(5,6) [OF 2, of a]
  then show ?case by (cases "tv a") (auto simp: logical_def)
next
  case (5 sy e)
  have e: "expr_value tv sv (expr_transform sy e) = expr_value tv sv e"
    by (rule 5(1) [OF "5.prems"])
  have c: "consts_ok tv" by (rule env_okD(1) [OF "5.prems"])
  show ?case
  proof (cases "expr_transform sy e")
    case (E_OR a b)
    then have "expr_transform sy (E_NOT e) = expr_transform sy (E_AND (E_NOT a) (E_NOT b))"
      unfolding expr_transform.simps(5) [of sy e] Let_def by (simp del: expr_transform.simps)
    with 5(2) [OF refl E_OR "5.prems"] E_OR e [symmetric] show ?thesis by (simp del: expr_transform.simps)
  next
    case (E_AND a b)
    then have "expr_transform sy (E_NOT e) = expr_transform sy (E_OR (E_NOT a) (E_NOT b))"
      unfolding expr_transform.simps(5) [of sy e] Let_def by (simp del: expr_transform.simps)
    with 5(3) [OF refl E_AND "5.prems"] E_AND e [symmetric] show ?thesis by (simp del: expr_transform.simps)
  next
    case (E_NOT a)
    then have "expr_transform sy (E_NOT e) = expr_transform sy a"
      unfolding expr_transform.simps(5) [of sy e] Let_def by (simp del: expr_transform.simps)
    with 5(4) [OF refl E_NOT "5.prems"] E_NOT e [symmetric] show ?thesis by (simp del: expr_transform.simps)
  next
    case (E_SYMBOL s)
    with e [symmetric] c show ?thesis by (simp add: Let_def)
  qed (use e [symmetric] in \<open>simp_all add: Let_def\<close>)
qed auto

lemma transform_wf: "expr_wf e \<Longrightarrow> expr_wf (expr_transform sy e)"
proof (induction sy e rule: expr_transform.induct)
  case (5 sy e)
  then show ?case
    by (cases "expr_transform sy e") (auto simp: Let_def)
qed auto

fun nnf :: "expr \<Rightarrow> bool" where
  "nnf (E_OR l r) \<longleftrightarrow> nnf l \<and> nnf r"
| "nnf (E_AND l r) \<longleftrightarrow> nnf l \<and> nnf r"
| "nnf (E_NOT e) \<longleftrightarrow> is_sym e"
| "nnf _ \<longleftrightarrow> True"

lemma transform_nnf: "expr_wf e \<Longrightarrow> nnf (expr_transform sy e)"
proof (induction sy e rule: expr_transform.induct)
  case (5 sy e)
  then have "expr_wf (expr_transform sy e)" using transform_wf by simp
  with 5 show ?case
    by (cases "expr_transform sy e") (auto simp: Let_def)
qed auto

section \<open>Extraction of common operands\<close>

definition acc_value ::
  "(symref \<Rightarrow> tristate) \<Rightarrow> (symref \<Rightarrow> string) \<Rightarrow> expr_type \<Rightarrow> expr option \<Rightarrow> tristate" where
  "acc_value tv sv t ep = (case ep of None \<Rightarrow> tv (bunit t) | Some e \<Rightarrow> expr_value tv sv e)"

lemma extract_eq_value:
  assumes "consts_ok tv"
  shows "t = T_OR \<or> t = T_AND \<Longrightarrow>
    \<exists>c. acc_value tv sv t (fst (expr_extract_eq t ep e1 e2)) = bop t (acc_value tv sv t ep) c \<and>
        expr_value tv sv e1 = bop t c (expr_value tv sv (fst (snd (expr_extract_eq t ep e1 e2)))) \<and>
        expr_value tv sv e2 = bop t c (expr_value tv sv (snd (snd (expr_extract_eq t ep e1 e2))))"
proof (induction t ep e1 e2 rule: expr_extract_eq.induct)
  case (1 t ep e1 e2)
  note eq = expr_extract_eq.simps [of t ep e1 e2]
  show ?case
  proof (cases "is_bin t e1")
    case True
    define p where "p = expr_extract_eq t ep (eleft e1) e2"
    define q where "q = expr_extract_eq t (fst p) (eright e1) (snd (snd p))"
    obtain c d where
      "acc_value tv sv t (fst p) = bop t (acc_value tv sv t ep) c"
      "expr_value tv sv (eleft e1) = bop t c (expr_value tv sv (fst (snd p)))"
      "expr_value tv sv e2 = bop t c (expr_value tv sv (snd (snd p)))"
      "acc_value tv sv t (fst q) = bop t (acc_value tv sv t (fst p)) d"
      "expr_value tv sv (eright e1) = bop t d (expr_value tv sv (fst (snd q)))"
      "expr_value tv sv (snd (snd p)) = bop t d (expr_value tv sv (snd (snd q)))"
      using 1(1) [OF True "1.prems"] 1(2) [OF True p_def "1.prems"] unfolding p_def q_def by blast
    then show ?thesis using True
      by (intro exI [of _ "bop t c d"])
        (simp add: eq Let_def p_def [symmetric] q_def [symmetric] value_is_bin tri_simps)
  next
    case e1: False
    show ?thesis
    proof (cases "is_bin t e2")
      case True
      define p where "p = expr_extract_eq t ep e1 (eleft e2)"
      define q where "q = expr_extract_eq t (fst p) (fst (snd p)) (eright e2)"
      obtain c d where
        "acc_value tv sv t (fst p) = bop t (acc_value tv sv t ep) c"
        "expr_value tv sv e1 = bop t c (expr_value tv sv (fst (snd p)))"
        "expr_value tv sv (eleft e2) = bop t c (expr_value tv sv (snd (snd p)))"
        "acc_value tv sv t (fst q) = bop t (acc_value tv sv t (fst p)) d"
        "expr_value tv sv (fst (snd p)) = bop t d (expr_value tv sv (fst (snd q)))"
        "expr_value tv sv (eright e2) = bop t d (expr_value tv sv (snd (snd q)))"
        using 1(3) [OF e1 True "1.prems"] 1(4) [OF e1 True p_def "1.prems"]
        unfolding p_def q_def by blast
      then show ?thesis using True e1
        by (intro exI [of _ "bop t c d"])
          (simp add: eq Let_def p_def [symmetric] q_def [symmetric] value_is_bin tri_simps)
    next
      case False
      show ?thesis
      proof (cases "expr_eq e1 e2")
        case True
        with eq_value(3) [OF assms True] e1 False "1.prems" assms show ?thesis
          by (intro exI [of _ "expr_value tv sv e1"])
            (auto simp: eq Let_def acc_value_def bop_def bunit_def split: option.splits)
      next
        case neq: False
        with e1 False assms show ?thesis by (intro exI [of _ "tv (bunit t)"]) (simp add: eq)
      qed
    qed
  qed
qed

lemma extract_yn_value:
  assumes "consts_ok tv" "t = T_OR \<or> t = T_AND" "extract_eq_yn (expr_extract_eq t None e1 e2) = (ep, f1, f2)"
  shows "expr_value tv sv e1 = bop t (acc_value tv sv t ep) (expr_value tv sv f1)"
    and "expr_value tv sv e2 = bop t (acc_value tv sv t ep) (expr_value tv sv f2)"
proof -
  obtain ep' f1' f2' where r: "expr_extract_eq t None e1 e2 = (ep', f1', f2')" by (metis surj_pair)
  with extract_eq_value [OF assms(1,2), of sv None e1 e2] assms(1)
  have *: "expr_value tv sv e1 = bop t (acc_value tv sv t ep') (expr_value tv sv f1')"
       "expr_value tv sv e2 = bop t (acc_value tv sv t ep') (expr_value tv sv f2')"
    by (auto simp: acc_value_def)
  from assms(3) r have "ep = ep'" "expr_value tv sv f1 = expr_value tv sv f1'"
    "expr_value tv sv f2 = expr_value tv sv f2'"
    by (auto simp: extract_eq_yn_def yn_value [OF assms(1)] split: option.splits)
  with * show "expr_value tv sv e1 = bop t (acc_value tv sv t ep) (expr_value tv sv f1)"
    "expr_value tv sv e2 = bop t (acc_value tv sv t ep) (expr_value tv sv f2)" by simp_all
qed

section \<open>Comparisons and dependencies\<close>

fun bool_leaves :: "(symref \<Rightarrow> tristate) \<Rightarrow> expr \<Rightarrow> bool" where
  "bool_leaves tv (E_OR l r) \<longleftrightarrow> bool_leaves tv l \<and> bool_leaves tv r"
| "bool_leaves tv (E_AND l r) \<longleftrightarrow> bool_leaves tv l \<and> bool_leaves tv r"
| "bool_leaves tv (E_NOT e) \<longleftrightarrow> bool_leaves tv e"
| "bool_leaves tv (E_SYMBOL s) \<longleftrightarrow> tv s \<noteq> Mod"
| "bool_leaves tv _ \<longleftrightarrow> True"

lemma value_bool: "bool_leaves tv e \<Longrightarrow> expr_value tv sv e \<noteq> Mod"
proof (induction e)
  case (E_OR l r)
  then show ?case by (cases "expr_value tv sv l"; cases "expr_value tv sv r") (auto simp: EXPR_OR_def)
next
  case (E_AND l r)
  then show ?case by (cases "expr_value tv sv l"; cases "expr_value tv sv r") (auto simp: EXPR_AND_def)
next
  case (E_NOT e)
  then show ?case by (cases "expr_value tv sv e") auto
qed auto

lemma value_cong:
  assumes "\<And>s. expr_contains_symbol (Some e) s \<Longrightarrow> tv s = tv' s \<and> sv s = sv' s"
  shows "expr_value tv sv e = expr_value tv' sv' e"
  using assms by (induction e) auto

lemma depends_value:
  assumes "env_ok sy tv sv" "logical sy s" "expr_depends_symbol (Some e) s" "tv s = No"
  shows "expr_value tv sv e = No"
  using assms(3) by (induction e) (auto simp: env_okD(3,4) [OF assms(1)] env_okD(2,5) [OF assms(1)] assms(2,4))

lemma trans_bool_value:
  assumes "env_ok sy tv sv" "nnf e"
  shows "expr_value tv sv (expr_trans_bool sy e) = No \<longleftrightarrow> expr_value tv sv e = No"
  using assms(2)
proof (induction e)
  case (E_NOT e)
  then show ?case by (cases e) auto
next
  case (E_UNEQUAL a b)
  show ?case using env_okD(4,5) [OF assms(1)] by (auto simp: logical_def)
qed auto

fun comp_logical :: "symtab \<Rightarrow> expr \<Rightarrow> bool" where
  "comp_logical sy (E_OR l r) \<longleftrightarrow> comp_logical sy l \<and> comp_logical sy r"
| "comp_logical sy (E_AND l r) \<longleftrightarrow> comp_logical sy l \<and> comp_logical sy r"
| "comp_logical sy (E_NOT e) \<longleftrightarrow> comp_logical sy e"
| "comp_logical sy (E_SYMBOL s) \<longleftrightarrow> logical sy s \<or> s = Symbol_yes \<or> s = Symbol_no \<or> s = Symbol_mod"
| "comp_logical sy _ \<longleftrightarrow> True"

fun not_free :: "expr \<Rightarrow> bool" where
  "not_free (E_OR l r) \<longleftrightarrow> not_free l \<and> not_free r"
| "not_free (E_AND l r) \<longleftrightarrow> not_free l \<and> not_free r"
| "not_free (E_NOT e) \<longleftrightarrow> False"
| "not_free _ \<longleftrightarrow> True"

lemma symbol_letter:
  assumes "env_ok sy tv sv" "comp_logical sy (E_SYMBOL s)"
  shows "sv s = tri_str (tv s)"
  using assms env_okD [OF assms(1)] by auto

lemma trans_compare_value:
  assumes "env_ok sy tv sv" "bool_leaves tv e \<or> not_free e" "expr_wf e" "comp_logical sy e"
    and "c = Symbol_no \<or> c = Symbol_yes"
    and "t = T_EQUAL \<or> t = T_UNEQUAL"
  shows "\<exists>f. trans_compare e t c = Some f \<and>
     expr_value tv sv f = tri_of_bool ((expr_value tv sv e = tv c) = (t = T_EQUAL))"
  using assms(2-4,6)
proof (induction e arbitrary: t)
  case (E_OR l r)
  from E_OR.IH(1,2) [of T_EQUAL] E_OR.prems obtain f g where "trans_compare l T_EQUAL c = Some f" "trans_compare r T_EQUAL c = Some g"
    "expr_value tv sv f = tri_of_bool (expr_value tv sv l = tv c)"
    "expr_value tv sv g = tri_of_bool (expr_value tv sv r = tv c)"
    by auto
  with E_OR.prems(4) assms(5) env_okD(1) [OF assms(1)] show ?case
    by (cases "expr_value tv sv l = tv c"; cases "expr_value tv sv r = tv c") (auto simp: neg_if_def)
next
  case (E_AND l r)
  from E_AND.IH(1,2) [of T_EQUAL] E_AND.prems obtain f g where "trans_compare l T_EQUAL c = Some f" "trans_compare r T_EQUAL c = Some g"
    "expr_value tv sv f = tri_of_bool (expr_value tv sv l = tv c)"
    "expr_value tv sv g = tri_of_bool (expr_value tv sv r = tv c)"
    by auto
  with E_AND.prems(4) assms(5) env_okD(1) [OF assms(1)] show ?case
    by (cases "expr_value tv sv l = tv c"; cases "expr_value tv sv r = tv c") (auto simp: neg_if_def)
next
  case (E_NOT e)
  have "expr_value tv sv e \<noteq> Mod" using value_bool E_NOT.prems(1) by auto
  moreover have "tv c = Yes \<or> tv c = No" using assms(5) env_okD(1) [OF assms(1)] by auto
  ultimately have flip: "(EXPR_NOT (expr_value tv sv e) = tv c) = (expr_value tv sv e \<noteq> tv c)"
    by (cases "expr_value tv sv e") auto
  have "\<exists>f. trans_compare e (if t = T_EQUAL then T_UNEQUAL else T_EQUAL) c = Some f \<and>
      expr_value tv sv f = tri_of_bool ((expr_value tv sv e = tv c) = (t \<noteq> T_EQUAL))"
    using E_NOT.IH [of T_EQUAL] E_NOT.IH [of T_UNEQUAL] E_NOT.prems(1-3) by (cases "t = T_EQUAL") auto
  then show ?case
    unfolding trans_compare.simps expr_value.simps flip by (cases "t = T_EQUAL") simp_all
next
  case (E_SYMBOL s)
  then have "sv s = tri_str (tv s)" using symbol_letter [OF assms(1)] by blast
  with E_SYMBOL.prems(4) assms(5) env_okD(1-4) [OF assms(1)] show ?case by auto
qed (use assms(5) env_okD(1) [OF assms(1)] in \<open>auto\<close>)

end
