(* ===== verification/Kconfig_Expr_Dups.thy ===== *)
theory Kconfig_Expr_Dups
  imports Kconfig_Expr_Sem
begin

text \<open>
  Duplicate elimination: \<open>expr_eliminate_dups1\<close>, \<open>expr_eliminate_dups2\<close> and the loop of
  \<open>expr_eliminate_dups\<close> in \<^verbatim>\<open>expr.c\<close>.  The two passes are called with two pointers into the
  \<^emph>\<open>same\<close> tree, and compare these pointers; so here they get the tree and two slots, paths
  from its root, and the test \<open>e1 == e2\<close> is equality of slots.  A pass on a subtree is a pass
  on the tree below that slot.  The passes carry fuel, one unit per nested call;
  \<open>dups1_total\<close> and \<open>dups2_total\<close> show that \<open>dups_fuel\<close> is enough, and \<open>dups_loop_total\<close>
  that the loop makes at most one round per node.
\<close>

section \<open>Slots\<close>

type_synonym slot = "bool list"

fun get :: "expr \<Rightarrow> slot \<Rightarrow> expr" where
  "get e [] = e"
| "get e (d # p) = get (if d then eright e else eleft e) p"

fun put :: "expr \<Rightarrow> slot \<Rightarrow> expr \<Rightarrow> expr" where
  "put e [] x = x"
| "put (E_OR l r) (d # p) x = (if d then E_OR l (put r p x) else E_OR (put l p x) r)"
| "put (E_AND l r) (d # p) x = (if d then E_AND l (put r p x) else E_AND (put l p x) r)"
| "put e (d # p) x = e"

text \<open>The result of joining the operands in two slots: the contents of both slots afterwards.\<close>

definition dups_join :: "symtab \<Rightarrow> expr_type \<Rightarrow> expr \<Rightarrow> expr \<Rightarrow> (expr \<times> expr) option" where
  "dups_join sy t e1 e2 = (case t of
     T_OR \<Rightarrow> map_option (\<lambda>tmp. (E_SYMBOL Symbol_no, tmp)) (expr_join_or sy e1 e2)
   | T_AND \<Rightarrow> map_option (\<lambda>tmp. (E_SYMBOL Symbol_yes, tmp)) (expr_join_and sy e1 e2)
   | _ \<Rightarrow> None)"

fun expr_eliminate_dups1 ::
  "nat \<Rightarrow> symtab \<Rightarrow> expr_type \<Rightarrow> expr \<Rightarrow> slot \<Rightarrow> slot \<Rightarrow> nat \<Rightarrow> (expr \<times> nat) option" where
  "expr_eliminate_dups1 0 sy t e p1 p2 n = None"
| "expr_eliminate_dups1 (Suc k) sy t e p1 p2 n =
     (if is_bin t (get e p1) then
        (case expr_eliminate_dups1 k sy t e (p1 @ [False]) p2 n of
           None \<Rightarrow> None
         | Some (e', n') \<Rightarrow> expr_eliminate_dups1 k sy t e' (p1 @ [True]) p2 n')
      else if is_bin t (get e p2) then
        (case expr_eliminate_dups1 k sy t e p1 (p2 @ [False]) n of
           None \<Rightarrow> None
         | Some (e', n') \<Rightarrow> expr_eliminate_dups1 k sy t e' p1 (p2 @ [True]) n')
      else if p1 = p2 then Some (e, n)
      else
        (case (if etype (get e p1) = T_OR \<or> etype (get e p1) = T_AND
               then map_option (\<lambda>(x, n'). (put e p1 x, n'))
                 (expr_eliminate_dups1 k sy (etype (get e p1)) (get e p1) [] [] n)
               else Some (e, n)) of
           None \<Rightarrow> None
         | Some (e', n') \<Rightarrow>
             (case dups_join sy t (get e' p1) (get e' p2) of
                None \<Rightarrow> Some (e', n')
              | Some (u, tmp) \<Rightarrow> Some (put (put e' p1 u) p2 tmp, Suc n'))))"

text \<open>
  The second pass drops an operand whose negation the other operands imply, as in
  \<open>(FOO || BAR) && (!FOO && !BAR) -> n\<close>.  After descending into an operand \<open>e2\<close> of the chain's
  kind the code goes on with \<open>e2\<close> itself.
\<close>

definition dups_contradiction :: "symtab \<Rightarrow> expr \<Rightarrow> expr \<Rightarrow> expr option" where
  "dups_contradiction sy e1 e2 = (case e1 of
     E_OR _ _ \<Rightarrow>
       (if expr_is_yes (Some (fst (snd (expr_extract_eq_and (expr_transform sy (E_NOT e1)) e2))))
        then Some (E_SYMBOL Symbol_no) else None)
   | E_AND _ _ \<Rightarrow>
       (if expr_is_no (Some (fst (snd (expr_extract_eq_or (expr_transform sy (E_NOT e1)) e2))))
        then Some (E_SYMBOL Symbol_yes) else None)
   | _ \<Rightarrow> None)"

fun expr_eliminate_dups2 ::
  "nat \<Rightarrow> symtab \<Rightarrow> expr_type \<Rightarrow> expr \<Rightarrow> slot \<Rightarrow> slot \<Rightarrow> nat \<Rightarrow> (expr \<times> nat) option" where
  "expr_eliminate_dups2 0 sy t e p1 p2 n = None"
| "expr_eliminate_dups2 (Suc k) sy t e p1 p2 n =
     (if is_bin t (get e p1) then
        (case expr_eliminate_dups2 k sy t e (p1 @ [False]) p2 n of
           None \<Rightarrow> None
         | Some (e', n') \<Rightarrow> expr_eliminate_dups2 k sy t e' (p1 @ [True]) p2 n')
      else
        (case (if is_bin t (get e p2) then
                 (case expr_eliminate_dups2 k sy t e p1 (p2 @ [False]) n of
                    None \<Rightarrow> None
                  | Some (e', n') \<Rightarrow> expr_eliminate_dups2 k sy t e' p1 (p2 @ [True]) n')
               else Some (e, n)) of
           None \<Rightarrow> None
         | Some (e', n') \<Rightarrow>
             if p1 = p2 then Some (e', n')
             else if etype (get e' p1) = T_OR \<or> etype (get e' p1) = T_AND then
               (case expr_eliminate_dups2 k sy (etype (get e' p1)) (get e' p1) [] [] n' of
                  None \<Rightarrow> None
                | Some (x, n'') \<Rightarrow>
                    (case dups_contradiction sy x (get (put e' p1 x) p2) of
                       None \<Rightarrow> Some (put e' p1 x, n'')
                     | Some u \<Rightarrow> Some (put (put e' p1 x) p1 u, Suc n'')))
             else Some (e', n')))"

definition dups_fuel :: "expr \<Rightarrow> nat" where
  "dups_fuel e = Suc (2 * esize e)"

text \<open>One round of the loop: the expression after both passes, and \<open>trans_count\<close>.\<close>

definition dups_round :: "symtab \<Rightarrow> expr \<Rightarrow> (expr \<times> nat) option" where
  "dups_round sy e =
     (if etype e = T_OR \<or> etype e = T_AND then
        (case expr_eliminate_dups1 (dups_fuel e) sy (etype e) e [] [] 0 of
           None \<Rightarrow> None
         | Some (e', n) \<Rightarrow> expr_eliminate_dups2 (dups_fuel e') sy (etype e') e' [] [] n)
      else Some (e, 0))"

fun dups_loop :: "nat \<Rightarrow> symtab \<Rightarrow> expr \<Rightarrow> expr option" where
  "dups_loop 0 sy e = None"
| "dups_loop (Suc k) sy e =
     (case dups_round sy e of
        None \<Rightarrow> None
      | Some (e', n) \<Rightarrow> if n = 0 then Some e' else dups_loop k sy (expr_eliminate_yn e'))"

text \<open>The loop always returns (\<open>dups_loop_total\<close>), so the last case never arises.\<close>

definition eliminate_dups :: "symtab \<Rightarrow> expr \<Rightarrow> expr" where
  "eliminate_dups sy e = (case dups_loop (Suc (esize e)) sy e of Some e' \<Rightarrow> e' | None \<Rightarrow> e)"

definition expr_eliminate_dups :: "symtab \<Rightarrow> expr option \<Rightarrow> expr option" where
  "expr_eliminate_dups sy = map_option (eliminate_dups sy)"

section \<open>Positions in a chain\<close>

fun chain_pos :: "expr_type \<Rightarrow> expr \<Rightarrow> slot \<Rightarrow> bool" where
  "chain_pos t e [] \<longleftrightarrow> True"
| "chain_pos t e (d # p) \<longleftrightarrow> is_bin t e \<and> chain_pos t (if d then eright e else eleft e) p"

fun chain_size :: "expr_type \<Rightarrow> expr \<Rightarrow> nat" where
  "chain_size T_OR (E_OR l r) = Suc (chain_size T_OR l + chain_size T_OR r)"
| "chain_size T_AND (E_AND l r) = Suc (chain_size T_AND l + chain_size T_AND r)"
| "chain_size _ _ = 0"

lemma get_append [simp]: "get e (p @ q) = get (get e p) q"
  by (induction p arbitrary: e) auto

lemma chain_pos_append: "chain_pos t e (p @ q) \<longleftrightarrow> chain_pos t e p \<and> chain_pos t (get e p) q"
  by (induction p arbitrary: e) auto

lemma chain_pos_snoc [simp]: "chain_pos t e (p @ [d]) \<longleftrightarrow> chain_pos t e p \<and> is_bin t (get e p)"
  by (simp add: chain_pos_append)

lemma mkbin_parts [simp]:
  "eleft (mkbin t l r) = l" "eright (mkbin t l r) = r"
  "put (mkbin t l r) (d # p) x = (if d then mkbin t l (put r p x) else mkbin t (put l p x) r)"
  by (cases t; simp)+

lemma is_bin_mkbinE:
  assumes "is_bin t e"
  obtains l r where "e = mkbin t l r" "t = T_OR \<or> t = T_AND"
  using assms by (auto elim: is_bin_cases)

lemma get_put_same [simp]: "chain_pos t e p \<Longrightarrow> get (put e p x) p = x"
  by (induction p arbitrary: e) (auto elim!: is_bin_mkbinE)

lemma put_get_same: "chain_pos t e p \<Longrightarrow> put e p (get e p) = e"
  by (induction p arbitrary: e) (auto elim!: is_bin_mkbinE)

lemma put_put_same [simp]: "chain_pos t e p \<Longrightarrow> put (put e p x) p y = put e p y"
  by (induction p arbitrary: e) (auto elim!: is_bin_mkbinE)

lemma chain_pos_get_cong:
  "chain_pos t e = chain_pos t e' \<Longrightarrow> chain_pos t e p \<Longrightarrow> chain_pos t (get e p) = chain_pos t (get e' p)"
  using chain_pos_append [of t e p] chain_pos_append [of t e' p] by (auto simp: fun_eq_iff)

lemma is_bin_shape: "chain_pos t e = chain_pos t e' \<Longrightarrow> is_bin t e = is_bin t e'"
  by (drule fun_cong [where x = "[False]"]) simp

lemma is_bin_get_shape:
  "chain_pos t e = chain_pos t e' \<Longrightarrow> chain_pos t e p \<Longrightarrow> is_bin t (get e p) = is_bin t (get e' p)"
  by (blast dest: chain_pos_get_cong is_bin_shape)

lemma put_shape:
  "chain_pos t e p \<Longrightarrow> \<not> is_bin t (get e p) \<Longrightarrow> \<not> is_bin t x \<Longrightarrow>
   chain_pos t (put e p x) = chain_pos t e"
proof (induction p arbitrary: e)
  case Nil
  have "chain_pos t x q = chain_pos t e q" for q using Nil by (cases q) auto
  then show ?case by auto
next
  case (Cons d p)
  then obtain l r where e: "e = mkbin t l r" and t: "t = T_OR \<or> t = T_AND"
    by (auto elim: is_bin_mkbinE)
  have "chain_pos t (put e (d # p) x) q = chain_pos t e q" for q
    using Cons.IH [of "if d then r else l"] Cons.prems t by (cases q) (auto simp: e split: if_splits)
  then show ?case by auto
qed

lemma put_esize: "chain_pos t e p \<Longrightarrow> esize (put e p x) + esize (get e p) = esize e + esize x"
proof (induction p arbitrary: e)
  case (Cons d p)
  then obtain l r where e: "e = mkbin t l r" and t: "t = T_OR \<or> t = T_AND"
    by (auto elim: is_bin_mkbinE)
  have s: "esize (mkbin t a b) = Suc (esize a + esize b)" for a b by (cases t) auto
  from Cons.IH [of "if d then r else l"] Cons.prems show ?case
    by (auto simp: e s split: if_splits)
qed simp

lemma get_put_other:
  "chain_pos t e p \<Longrightarrow> \<not> is_bin t (get e p) \<Longrightarrow> chain_pos t e q \<Longrightarrow> \<not> is_bin t (get e q) \<Longrightarrow> p \<noteq> q \<Longrightarrow>
   get (put e p x) q = get e q \<and> put (put e p x) q y = put (put e q y) p x"
proof (induction p arbitrary: e q)
  case Nil
  then show ?case by (cases q) auto
next
  case (Cons d p)
  then obtain d' q' where q: "q = d' # q'" by (cases q) auto
  from Cons.prems obtain l r where e: "e = mkbin t l r" and t: "t = T_OR \<or> t = T_AND"
    by (auto elim: is_bin_mkbinE)
  from Cons.prems Cons.IH [of "if d then r else l" q'] show ?case
    by (cases d; cases d'; simp add: q e)
qed

lemma chain_size_mkbin [simp]:
  "t = T_OR \<or> t = T_AND \<Longrightarrow> chain_size t (mkbin t l r) = Suc (chain_size t l + chain_size t r)"
  by auto

lemma chain_size_leaf [simp]: "\<not> is_bin t e \<Longrightarrow> chain_size t e = 0"
  by (cases "(t, e)" rule: chain_size.cases) auto

lemma chain_size_esize: "2 * chain_size t e < esize e"
  by (induction t e rule: chain_size.induct) auto

lemma chain_size_shape:
  "chain_pos t e = chain_pos t e' \<Longrightarrow> chain_size t e = chain_size t e'"
proof (induction "esize e" arbitrary: e e' rule: less_induct)
  case less
  show ?case
  proof (cases "is_bin t e")
    case True
    with is_bin_shape [OF less.prems] obtain l r l' r' where
      e: "e = mkbin t l r" "e' = mkbin t l' r'" and t: "t = T_OR \<or> t = T_AND"
      by (metis is_bin_mkbinE)
    have "chain_pos t l = chain_pos t l'" "chain_pos t r = chain_pos t r'"
      using chain_pos_get_cong [OF less.prems, of "[False]"] chain_pos_get_cong [OF less.prems, of "[True]"] t
      by (auto simp: e)
    moreover have "esize l < esize e" "esize r < esize e" using t by (auto simp: e)
    ultimately show ?thesis using less.hyps t by (metis chain_size_mkbin e)
  next
    case False
    with is_bin_shape [OF less.prems] show ?thesis by simp
  qed
qed

lemma leaf_esize:
  "chain_pos t e p \<Longrightarrow> \<not> is_bin t (get e p) \<Longrightarrow> esize (get e p) + 2 * chain_size t e \<le> esize e"
proof (induction p arbitrary: e)
  case (Cons d p)
  then obtain l r where e: "e = mkbin t l r" and t: "t = T_OR \<or> t = T_AND"
    by (auto elim: is_bin_mkbinE)
  have s: "esize (mkbin t a b) = Suc (esize a + esize b)" for a b using t by auto
  from Cons.IH [of "if d then r else l"] Cons.prems t chain_size_esize [of t l] chain_size_esize [of t r]
  show ?case by (cases d) (auto simp: e s)
qed simp

lemma value_put:
  assumes "consts_ok tv"
  shows "chain_pos t e p \<Longrightarrow> expr_value tv sv (put e p x) =
      bop t (expr_value tv sv x) (expr_value tv sv (put e p (E_SYMBOL (bunit t))))"
proof (induction p arbitrary: e)
  case Nil
  then show ?case using assms by simp
next
  case (Cons d p)
  then obtain l r where e: "e = mkbin t l r" by (auto elim: is_bin_mkbinE)
  show ?case using Cons.IH [of "if d then r else l"] Cons.prems
    by (cases d) (simp_all add: e tri_simps)
qed

section \<open>What a pass keeps\<close>

text \<open>
  \<open>red e\<close>: constant elimination makes \<open>e\<close> smaller.  \<open>info_le\<close> orders tristate values by
  information, with \<open>m\<close> below both \<open>n\<close> and \<open>y\<close>; all operations on expressions are monotone in it.
\<close>

definition red :: "expr \<Rightarrow> bool" where
  "red e \<longleftrightarrow> esize (expr_eliminate_yn e) < esize e"

definition info_le :: "tristate \<Rightarrow> tristate \<Rightarrow> bool" where
  "info_le a b \<longleftrightarrow> a = Mod \<or> a = b"

lemma yn_mkbin_esize:
  "esize (expr_eliminate_yn (mkbin t l r)) \<le> Suc (esize (expr_eliminate_yn l) + esize (expr_eliminate_yn r))"
  by (cases t) (auto simp: Let_def)

lemma red_mkbin:
  assumes "red l \<or> red r \<or> l = E_SYMBOL Symbol_yes \<or> l = E_SYMBOL Symbol_no
    \<or> r = E_SYMBOL Symbol_yes \<or> r = E_SYMBOL Symbol_no"
  shows "red (mkbin t l r)"
proof -
  have s: "esize (mkbin t l r) = Suc (esize l + esize r)" by (cases t) auto
  from assms consider "red l \<or> red r" | "l = E_SYMBOL Symbol_yes \<or> l = E_SYMBOL Symbol_no
    \<or> r = E_SYMBOL Symbol_yes \<or> r = E_SYMBOL Symbol_no" by blast
  then show ?thesis
  proof cases
    case 1
    then show ?thesis
      using yn_mkbin_esize [of t l r] yn_esize [of l] yn_esize [of r] s by (auto simp: red_def)
  next
    case 2
    then have "esize (expr_eliminate_yn (mkbin t l r)) \<le> esize l + esize r"
      using yn_esize [of l] yn_esize [of r] by (cases t) (auto simp: Let_def)
    with s show ?thesis by (simp add: red_def)
  qed
qed

lemma red_put:
  "chain_pos t e p \<Longrightarrow> red x \<or> p \<noteq> [] \<and> (x = E_SYMBOL Symbol_yes \<or> x = E_SYMBOL Symbol_no) \<Longrightarrow>
   red (put e p x)"
proof (induction p arbitrary: e)
  case (Cons d p)
  then obtain l r where e: "e = mkbin t l r" by (auto elim: is_bin_mkbinE)
  from Cons show ?case
    by (cases d; cases p) (auto simp: e intro!: red_mkbin)
qed simp

locale value_rel =
  fixes R :: "tristate \<Rightarrow> tristate \<Rightarrow> bool"
  assumes R_refl: "R a a"
    and R_trans: "R a b \<Longrightarrow> R b c \<Longrightarrow> R a c"
    and R_bop: "R a a' \<Longrightarrow> R (bop t a b) (bop t a' b)"
begin

text \<open>
  What a pass over a chain of kind \<open>t\<close> does to the expression and the counter: the chain keeps
  its shape, nothing grows, a counted change leaves a constant to eliminate, no change is made
  without being counted, and the values before and after are related by \<open>R\<close>.
\<close>

definition pass_ok :: "symtab \<Rightarrow> expr_type \<Rightarrow> expr \<Rightarrow> nat \<Rightarrow> expr \<Rightarrow> nat \<Rightarrow> bool" where
  "pass_ok sy t e n e' n' \<longleftrightarrow>
     chain_pos t e' = chain_pos t e \<and> esize e' \<le> esize e \<and>
     (e' = e \<and> n' = n \<or> n < n' \<and> red e') \<and>
     (\<forall>tv sv. env_ok sy tv sv \<longrightarrow> R (expr_value tv sv e) (expr_value tv sv e'))"

lemma pass_refl: "pass_ok sy t e n e n"
  by (simp add: pass_ok_def R_refl)

lemma pass_trans: "pass_ok sy t e n e' n' \<Longrightarrow> pass_ok sy t e' n' e'' n'' \<Longrightarrow> pass_ok sy t e n e'' n''"
  unfolding pass_ok_def
  by (intro conjI; (elim conjE)?; (blast intro: R_trans order.trans trans order.strict_trans)?)

lemma pass_descend:
  assumes "\<And>e p q n e' n'. f e p q n = Some (e', n') \<Longrightarrow> chain_pos t e p \<Longrightarrow> chain_pos t e q \<Longrightarrow>
      pass_ok sy t e n e' n'"
    and "(case f e p q n of None \<Rightarrow> None | Some (e', n') \<Rightarrow> f e' p' q' n') = Some (e'', n'')"
    and "chain_pos t e p" "chain_pos t e q" "chain_pos t e p'" "chain_pos t e q'"
  shows "pass_ok sy t e n e'' n''"
proof -
  from assms(2) obtain g m where 1: "f e p q n = Some (g, m)" and 2: "f g p' q' m = Some (e'', n'')"
    by (auto split: option.splits)
  from assms(1) [OF 1 assms(3,4)] have ok: "pass_ok sy t e n g m" .
  then have "chain_pos t g = chain_pos t e" by (simp add: pass_ok_def)
  with assms(1) [OF 2] assms(5,6) have "pass_ok sy t g m e'' n''" by simp
  with ok show ?thesis by (rule pass_trans)
qed

lemma pass_below:
  assumes "chain_pos t e p" "\<not> is_bin t (get e p)" "is_bin t' (get e p)"
    and "pass_ok sy t' (get e p) n x n'"
  shows "pass_ok sy t e n (put e p x) n'"
  unfolding pass_ok_def
proof (intro conjI allI impI)
  have "is_bin t' x" using assms(3,4) is_bin_shape unfolding pass_ok_def by metis
  then have "\<not> is_bin t x" using assms(2,3) by (auto simp: is_bin_etype)
  with assms show "chain_pos t (put e p x) = chain_pos t e" by (intro put_shape)
  show "esize (put e p x) \<le> esize e"
    using put_esize [OF assms(1), of x] assms(4) by (simp add: pass_ok_def)
  show "put e p x = e \<and> n' = n \<or> n < n' \<and> red (put e p x)"
    using assms(4) put_get_same [OF assms(1)] red_put [OF assms(1)] by (auto simp: pass_ok_def)
  fix tv sv assume env: "env_ok sy tv sv"
  note v = value_put [OF env_okD(1) [OF env] assms(1)]
  have "R (expr_value tv sv (get e p)) (expr_value tv sv x)"
    using assms(4) env by (simp add: pass_ok_def)
  then have "R (expr_value tv sv (put e p (get e p))) (expr_value tv sv (put e p x))"
    unfolding v [of sv x] v [of sv "get e p"] by (rule R_bop)
  then show "R (expr_value tv sv e) (expr_value tv sv (put e p x))"
    by (simp add: put_get_same [OF assms(1)])
qed

end

interpretation exact: value_rel "(=)"
  by unfold_locales auto

interpretation refines: value_rel info_le
proof unfold_locales
  fix a a' b and t assume "info_le a a'"
  then show "info_le (bop t a b) (bop t a' b)"
    by (cases a; cases a'; cases b) (auto simp: info_le_def bop_def EXPR_OR_def EXPR_AND_def)
qed (auto simp: info_le_def)

section \<open>The first pass preserves the value\<close>

lemma join_and_const_leaf: "join_and_const sy a e1 e2 = Some f \<Longrightarrow> esize f = 1 \<and> \<not> is_bin t f"
  by (cases "(sy, a, e1, e2)" rule: join_and_const.cases) (auto split: if_splits)

lemma join_and_leaf:
  "expr_join_and sy e1 e2 = Some f \<Longrightarrow> f = e1 \<or> esize f = 1 \<and> (\<forall>t. \<not> is_bin t f)"
  by (cases "expr_eq e1 e2")
    (simp add: expr_join_and_def expr_copy_wf split: if_split_asm,
     elim join_and_cases, assumption, auto dest: join_and_const_leaf)

lemma join_or_leaf:
  "expr_join_or sy e1 e2 = Some f \<Longrightarrow> f = e1 \<or> esize f = 1 \<and> (\<forall>t. \<not> is_bin t f)"
  unfolding expr_join_or_def expr_copy_wf
  by (auto split: if_split_asm option.split_asm)

lemma dups_joinD:
  assumes "dups_join sy t e1 e2 = Some (u, tmp)"
  shows "u = E_SYMBOL (bunit t)" "esize tmp \<le> esize e1" "\<not> is_bin t e1 \<Longrightarrow> \<not> is_bin t tmp"
    and "env_ok sy tv sv \<Longrightarrow> expr_value tv sv tmp = bop t (expr_value tv sv e1) (expr_value tv sv e2)"
  using assms esize_pos [of e1]
  by (auto simp: dups_join_def bunit_def bop_def Suc_le_eq split: expr_type.splits
      dest: join_or_leaf join_and_leaf join_or_value join_and_value)

lemma pass_join:
  assumes t: "t = T_OR \<or> t = T_AND"
    and p: "chain_pos t e p" "\<not> is_bin t (get e p)" and q: "chain_pos t e q" "\<not> is_bin t (get e q)"
    and "p \<noteq> q" "dups_join sy t (get e p) (get e q) = Some (u, tmp)"
  shows "exact.pass_ok sy t e n (put (put e p u) q tmp) (Suc n)"
  unfolding exact.pass_ok_def
proof (intro conjI allI impI disjI2)
  note j = dups_joinD [OF assms(7)]
  note o = get_put_other [OF p q \<open>p \<noteq> q\<close>]
  have u: "\<not> is_bin t u" by (simp add: j(1))
  have e1: "chain_pos t (put e p u) = chain_pos t e" by (rule put_shape [OF p u])
  with o q have q1: "chain_pos t (put e p u) q" "get (put e p u) q = get e q" by auto
  show "chain_pos t (put (put e p u) q tmp) = chain_pos t e"
    using put_shape [of t "put e p u" q tmp] e1 q1 q(2) j(3) p(2) by simp
  show "esize (put (put e p u) q tmp) \<le> esize e"
    using put_esize [OF q1(1), of tmp] put_esize [OF p(1), of u] j(1,2) q1(2) esize_pos [of "get e q"]
    by (simp del: esize_pos)
  have "p \<noteq> []" using p q \<open>p \<noteq> q\<close> by (cases q) auto
  moreover have "chain_pos t (put e q tmp) p"
    using put_shape [OF q, of tmp] j(3) p by simp
  ultimately have "red (put (put e q tmp) p u)"
    using j(1) by (intro red_put) (auto simp: bunit_def)
  then show "red (put (put e p u) q tmp)" using o by simp
  fix tv sv assume env: "env_ok sy tv sv"
  note c = env_okD(1) [OF env]
  have "expr_value tv sv e = bop t (expr_value tv sv (get e p)) (expr_value tv sv (put e p u))"
    using value_put [OF c p(1), of sv "get e p"] by (simp add: put_get_same [OF p(1)] j(1))
  moreover have "expr_value tv sv (put e p u) =
      bop t (expr_value tv sv (get e q)) (expr_value tv sv (put (put e p u) q u))"
    using value_put [OF c q1(1), of sv "get e q"] put_get_same [OF q1(1), unfolded q1(2)] by (simp add: j(1))
  ultimately show "expr_value tv sv e = expr_value tv sv (put (put e p u) q tmp)"
    using value_put [OF c q1(1), of sv tmp] j(4) [OF env] by (simp add: j(1) tri_simps)
qed simp

lemma inner_pass:
  assumes "(if etype (get e p) = T_OR \<or> etype (get e p) = T_AND
       then map_option (\<lambda>(x, n'). (put e p x, n')) (f (etype (get e p)) (get e p))
       else Some (e, n)) = Some (e', n')"
    and "chain_pos t e p" "\<not> is_bin t (get e p)"
    and "\<And>t' x n'. t' = T_OR \<or> t' = T_AND \<Longrightarrow> f t' (get e p) = Some (x, n') \<Longrightarrow>
       exact.pass_ok sy t' (get e p) n x n'"
  shows "exact.pass_ok sy t e n e' n'"
proof (cases "etype (get e p) = T_OR \<or> etype (get e p) = T_AND")
  case True
  with assms(1) obtain x where x: "f (etype (get e p)) (get e p) = Some (x, n')" "e' = put e p x"
    by auto
  show ?thesis
    unfolding x(2) using assms(2,3) _ assms(4) [OF True x(1)]
    by (rule exact.pass_below) (use True in \<open>auto simp: is_bin_etype\<close>)
next
  case False
  with assms(1) show ?thesis by (simp add: exact.pass_refl)
qed

lemma dups1_pass:
  "expr_eliminate_dups1 k sy t e p1 p2 n = Some (e', n') \<Longrightarrow> t = T_OR \<or> t = T_AND \<Longrightarrow>
   chain_pos t e p1 \<Longrightarrow> chain_pos t e p2 \<Longrightarrow> exact.pass_ok sy t e n e' n'"
proof (induction k arbitrary: t e p1 p2 n e' n')
  case (Suc k)
  note IH = Suc.IH [of t, OF _ Suc.prems(2)]
  consider "is_bin t (get e p1)" | "\<not> is_bin t (get e p1)" "is_bin t (get e p2)"
    | "p1 = p2" "\<not> is_bin t (get e p1)" | "\<not> is_bin t (get e p1)" "\<not> is_bin t (get e p2)" "p1 \<noteq> p2"
    by blast
  then show ?case
  proof cases
    case 1
    show ?thesis
      by (rule exact.pass_descend [where f = "expr_eliminate_dups1 k sy t"
            and p = "p1 @ [False]" and q = "p2" and p' = "p1 @ [True]" and q' = "p2"])
        (erule (2) IH, use 1 Suc.prems in auto)
  next
    case 2
    show ?thesis
      by (rule exact.pass_descend [where f = "expr_eliminate_dups1 k sy t"
            and p = "p1" and q = "p2 @ [False]" and p' = "p1" and q' = "p2 @ [True]"])
        (erule (2) IH, use 2 Suc.prems in auto)
  next
    case 3
    with Suc.prems(1) show ?thesis by (simp add: exact.pass_refl)
  next
    case 4
    with Suc.prems(1) obtain f m where
      inner: "(if etype (get e p1) = T_OR \<or> etype (get e p1) = T_AND
       then map_option (\<lambda>(x, n'). (put e p1 x, n'))
         (expr_eliminate_dups1 k sy (etype (get e p1)) (get e p1) [] [] n)
       else Some (e, n)) = Some (f, m)"
      and join: "(case dups_join sy t (get f p1) (get f p2) of None \<Rightarrow> Some (f, m)
        | Some (u, tmp) \<Rightarrow> Some (put (put f p1 u) p2 tmp, Suc m)) = Some (e', n')"
      by (auto split: option.splits)
    have f: "exact.pass_ok sy t e n f m"
      by (rule inner_pass [where f = "\<lambda>t' x. expr_eliminate_dups1 k sy t' x [] [] n",
            OF inner Suc.prems(3) 4(1)]) (auto intro: Suc.IH)
    then have shape: "chain_pos t e = chain_pos t f" by (simp add: exact.pass_ok_def)
    have "exact.pass_ok sy t f m e' n'"
      using join pass_join [OF Suc.prems(2) _ _ _ _ 4(3), of f sy] Suc.prems(3,4) 4(1,2)
        is_bin_get_shape [OF shape]
      by (auto simp: shape exact.pass_refl split: option.splits)
    with f show ?thesis by (rule exact.pass_trans)
  qed
qed simp

section \<open>The second pass refines the value\<close>

lemma value_absorb:
  assumes "consts_ok tv" "chain_pos t e p"
  shows "bop t (expr_value tv sv (get e p)) (expr_value tv sv e) = expr_value tv sv e"
proof -
  have "expr_value tv sv e = bop t (expr_value tv sv (get e p)) (expr_value tv sv (put e p (E_SYMBOL (bunit t))))"
    using value_put [OF assms, of sv "get e p"] by (simp add: put_get_same [OF assms(2)])
  then show ?thesis by (metis bop_ac(2) bop_idem)
qed

lemma dups_contradictionD:
  assumes "dups_contradiction sy x y = Some u" "env_ok sy tv sv"
  shows "(\<exists>l r. x = E_OR l r) \<and> u = E_SYMBOL Symbol_no \<and>
      bop T_AND (EXPR_NOT (expr_value tv sv x)) (expr_value tv sv y) = expr_value tv sv y \<or>
    (\<exists>l r. x = E_AND l r) \<and> u = E_SYMBOL Symbol_yes \<and>
      bop T_OR (EXPR_NOT (expr_value tv sv x)) (expr_value tv sv y) = expr_value tv sv y"
proof -
  note c = env_okD(1) [OF assms(2)]
  have neg: "expr_value tv sv (expr_transform sy (E_NOT x)) = EXPR_NOT (expr_value tv sv x)"
    using transform_value [OF assms(2), of "E_NOT x"] by simp
  have ex: "bop t (EXPR_NOT (expr_value tv sv x)) (expr_value tv sv y) = expr_value tv sv y"
    if "t = T_OR \<or> t = T_AND"
      "extract_eq_yn (expr_extract_eq t None (expr_transform sy (E_NOT x)) y) = (ep, E_SYMBOL (bunit t), f)"
    for t ep f
    using extract_yn_value [OF c that, of sv] c neg by simp (metis bop_ac(2) bop_idem)
  from assms(1) consider l r where "x = E_OR l r" "u = E_SYMBOL Symbol_no"
      "fst (snd (expr_extract_eq_and (expr_transform sy (E_NOT x)) y)) = E_SYMBOL Symbol_yes"
    | l r where "x = E_AND l r" "u = E_SYMBOL Symbol_yes"
      "fst (snd (expr_extract_eq_or (expr_transform sy (E_NOT x)) y)) = E_SYMBOL Symbol_no"
    by (auto simp: dups_contradiction_def split: expr.splits if_splits)
  then show ?thesis
  proof cases
    case 1
    then show ?thesis using ex [of T_AND] by (metis bunit_def expr_extract_eq_and_def expr_type.distinct prod.collapse)
  next
    case 2
    then show ?thesis using ex [of T_OR] by (metis bunit_def expr_extract_eq_or_def prod.collapse)
  qed
qed

lemma contradiction_info:
  "bop T_AND (EXPR_NOT a) b = b \<Longrightarrow> bop T_AND a v = v \<Longrightarrow> bop T_AND b v = v \<Longrightarrow> info_le v No"
  "bop T_OR (EXPR_NOT a) b = b \<Longrightarrow> bop T_OR a v = v \<Longrightarrow> bop T_OR b v = v \<Longrightarrow> info_le v Yes"
  by (cases a; cases b; cases v; simp add: info_le_def bop_def)+

lemma pass_contradiction:
  assumes t: "t = T_OR \<or> t = T_AND"
    and p: "chain_pos t e p" "\<not> is_bin t (get e p)" and q: "chain_pos t e q" and "p \<noteq> []"
    and u: "dups_contradiction sy (get e p) (get e q) = Some u"
  shows "refines.pass_ok sy t e n (put e p u) (Suc n)"
  unfolding refines.pass_ok_def
proof (intro conjI allI impI disjI2)
  have u': "u = E_SYMBOL Symbol_yes \<or> u = E_SYMBOL Symbol_no"
    using u by (auto simp: dups_contradiction_def split: expr.splits if_splits)
  then show "chain_pos t (put e p u) = chain_pos t e" by (intro put_shape p) auto
  show "esize (put e p u) \<le> esize e"
    using put_esize [OF p(1), of u] u' esize_pos [of "get e p"] by (auto simp del: esize_pos)
  show "red (put e p u)" using red_put [OF p(1)] u' \<open>p \<noteq> []\<close> by blast
  fix tv sv assume env: "env_ok sy tv sv"
  note c = env_okD(1) [OF env]
  have v: "expr_value tv sv (put e p u) = bop t (expr_value tv sv u) (expr_value tv sv (put e p (E_SYMBOL (bunit t))))"
    by (rule value_put [OF c p(1)])
  note absorb = value_absorb [OF c p(1), of sv] value_absorb [OF c q, of sv]
  from dups_contradictionD [OF u env] consider
    (neg_or) "t = T_AND" "u = E_SYMBOL Symbol_no"
      "bop T_AND (EXPR_NOT (expr_value tv sv (get e p))) (expr_value tv sv (get e q)) = expr_value tv sv (get e q)"
  | (neg_and) "t = T_OR" "u = E_SYMBOL Symbol_yes"
      "bop T_OR (EXPR_NOT (expr_value tv sv (get e p))) (expr_value tv sv (get e q)) = expr_value tv sv (get e q)"
    using t p(2) by fastforce
  then show "info_le (expr_value tv sv e) (expr_value tv sv (put e p u))"
  proof cases
    case neg_or
    from contradiction_info(1) [OF neg_or(3) absorb [unfolded neg_or(1)]]
    show ?thesis using v neg_or c by (simp add: bop_def)
  next
    case neg_and
    from contradiction_info(2) [OF neg_and(3) absorb [unfolded neg_and(1)]]
    show ?thesis using v neg_and c by (simp add: bop_def)
  qed
qed simp

lemma dups2_pass:
  "expr_eliminate_dups2 k sy t e p1 p2 n = Some (e', n') \<Longrightarrow> t = T_OR \<or> t = T_AND \<Longrightarrow>
   chain_pos t e p1 \<Longrightarrow> chain_pos t e p2 \<Longrightarrow> refines.pass_ok sy t e n e' n'"
proof (induction k arbitrary: t e p1 p2 n e' n')
  case (Suc k)
  note IH = Suc.IH [of t, OF _ Suc.prems(2)]
  show ?case
  proof (cases "is_bin t (get e p1)")
    case True
    show ?thesis
      by (rule refines.pass_descend [where f = "expr_eliminate_dups2 k sy t"
            and p = "p1 @ [False]" and q = "p2" and p' = "p1 @ [True]" and q' = "p2"])
        (erule (2) IH, use True Suc.prems in auto)
  next
    case p1: False
    define r where "r = (if is_bin t (get e p2) then
        (case expr_eliminate_dups2 k sy t e p1 (p2 @ [False]) n of None \<Rightarrow> None
         | Some (e', n') \<Rightarrow> expr_eliminate_dups2 k sy t e' p1 (p2 @ [True]) n') else Some (e, n))"
    have step: "(case r of None \<Rightarrow> None | Some (e', n') \<Rightarrow>
        if p1 = p2 then Some (e', n')
        else if etype (get e' p1) = T_OR \<or> etype (get e' p1) = T_AND then
          (case expr_eliminate_dups2 k sy (etype (get e' p1)) (get e' p1) [] [] n' of
             None \<Rightarrow> None
           | Some (x, n'') \<Rightarrow>
               (case dups_contradiction sy x (get (put e' p1 x) p2) of
                  None \<Rightarrow> Some (put e' p1 x, n'')
                | Some u \<Rightarrow> Some (put (put e' p1 x) p1 u, Suc n'')))
        else Some (e', n')) = Some (e', n')"
      using Suc.prems(1) unfolding expr_eliminate_dups2.simps if_not_P [OF p1] r_def .
    then obtain f m where r: "r = Some (f, m)" by (auto split: option.splits)
    note step = step [unfolded r option.case prod.case]
    have f: "refines.pass_ok sy t e n f m"
    proof (cases "is_bin t (get e p2)")
      case True
      have d: "(case expr_eliminate_dups2 k sy t e p1 (p2 @ [False]) n of None \<Rightarrow> None
         | Some (e', n') \<Rightarrow> expr_eliminate_dups2 k sy t e' p1 (p2 @ [True]) n') = Some (f, m)"
        using r unfolding r_def if_P [OF True] .
      show ?thesis
        by (rule refines.pass_descend [where f = "expr_eliminate_dups2 k sy t", OF _ d]) (erule (2) IH, use True Suc.prems(3,4) in simp_all)
    qed (use r r_def in \<open>simp add: refines.pass_refl\<close>)
    then have shape: "chain_pos t e = chain_pos t f" by (simp add: refines.pass_ok_def)
    have leaf: "\<not> is_bin t (get f p1)" "chain_pos t f p1"
      using p1 is_bin_get_shape [OF shape Suc.prems(3)] Suc.prems(3) unfolding shape by blast+
    have "refines.pass_ok sy t f m e' n'"
    proof (cases "p1 \<noteq> p2 \<and> (etype (get f p1) = T_OR \<or> etype (get f p1) = T_AND)")
      case True
      then obtain x l where
        x: "expr_eliminate_dups2 k sy (etype (get f p1)) (get f p1) [] [] m = Some (x, l)"
        and c: "(case dups_contradiction sy x (get (put f p1 x) p2) of None \<Rightarrow> Some (put f p1 x, l)
           | Some u \<Rightarrow> Some (put (put f p1 x) p1 u, Suc l)) = Some (e', n')"
        using step by (auto split: option.splits)
      have t': "is_bin (etype (get f p1)) (get f p1)" using True by (auto simp: is_bin_etype)
      have xp: "refines.pass_ok sy (etype (get f p1)) (get f p1) m x l"
        using Suc.IH [OF x] True by simp
      have g: "refines.pass_ok sy t f m (put f p1 x) l"
        by (rule refines.pass_below [OF leaf(2,1) t' xp])
      then have s: "chain_pos t (put f p1 x) = chain_pos t f" by (simp add: refines.pass_ok_def)
      have "p1 \<noteq> []" using True leaf Suc.prems(4) shape by (cases p2) auto
      then have "refines.pass_ok sy t (put f p1 x) l e' n'"
        using c pass_contradiction [OF Suc.prems(2), of "put f p1 x" p1 p2 sy _ l] leaf s shape Suc.prems(4)
          is_bin_get_shape [OF s, of p1]
        by (auto simp: refines.pass_refl split: option.splits)
      with g show ?thesis by (rule refines.pass_trans)
    next
      case False
      then show ?thesis
        using step by (auto simp: refines.pass_refl split: if_splits)
    qed
    with f show ?thesis by (rule refines.pass_trans)
  qed
qed simp

section \<open>Enough fuel\<close>

definition chain_measure :: "expr_type \<Rightarrow> expr \<Rightarrow> slot \<Rightarrow> slot \<Rightarrow> nat" where
  "chain_measure t e p q =
     chain_size t (get e p) + chain_size t (get e q) + 2 * (esize e - 2 * chain_size t e)"

lemma chain_measure_descend:
  assumes "chain_pos t e' = chain_pos t e" "esize e' \<le> esize e" "is_bin t (get e p)"
    "chain_pos t e p" "chain_pos t e q"
  shows "chain_measure t e' (p @ [d]) q < chain_measure t e p q"
    "chain_measure t e' q (p @ [d]) < chain_measure t e q p"
proof -
  from assms(3) obtain l r where g: "get e p = mkbin t l r" and t: "t = T_OR \<or> t = T_AND"
    by (auto elim: is_bin_mkbinE)
  note sz = chain_size_shape [OF chain_pos_get_cong [OF assms(1)]]
  have "chain_size t (get e' (p @ [d])) = chain_size t (get e (p @ [d]))"
    "chain_size t (get e' q) = chain_size t (get e q)"
    using assms by (intro sz; simp)+
  moreover have "chain_size t (get e (p @ [d])) < chain_size t (get e p)"
    using t by (simp add: g)
  ultimately show "chain_measure t e' (p @ [d]) q < chain_measure t e p q"
    "chain_measure t e' q (p @ [d]) < chain_measure t e q p"
    using chain_size_shape [OF assms(1)] assms(2) by (simp_all add: chain_measure_def)
qed

lemma chain_measure_shape:
  "chain_pos t e' = chain_pos t e \<Longrightarrow> esize e' \<le> esize e \<Longrightarrow> chain_pos t e p \<Longrightarrow> chain_pos t e q \<Longrightarrow>
   chain_measure t e' p q \<le> chain_measure t e p q"
  using chain_size_shape [of t e' e] chain_size_shape [OF chain_pos_get_cong [of t e' e p]]
    chain_size_shape [OF chain_pos_get_cong [of t e' e q]]
  by (simp add: chain_measure_def)

lemma chain_measure_below:
  assumes "chain_pos t e p" "\<not> is_bin t (get e p)" "is_bin t' (get e p)"
  shows "chain_measure t' (get e p) [] [] < chain_measure t e p q"
proof -
  from assms(3) obtain l r where g: "get e p = mkbin t' l r" and t: "t' = T_OR \<or> t' = T_AND"
    by (auto elim: is_bin_mkbinE)
  then have "0 < chain_size t' (get e p)" by simp
  then show ?thesis
    using leaf_esize [OF assms(1,2)] chain_size_esize [of t' "get e p"] by (simp add: chain_measure_def)
qed

lemma descend_total:
  fixes f :: "expr \<Rightarrow> slot \<Rightarrow> slot \<Rightarrow> nat \<Rightarrow> (expr \<times> nat) option"
  assumes total: "\<And>e p q n. chain_measure t e p q < k \<Longrightarrow> chain_pos t e p \<Longrightarrow> chain_pos t e q \<Longrightarrow>
      \<exists>e' n'. f e p q n = Some (e', n')"
    and shape: "\<And>e p q n e' n'. f e p q n = Some (e', n') \<Longrightarrow> chain_pos t e p \<Longrightarrow> chain_pos t e q \<Longrightarrow>
      chain_pos t e' = chain_pos t e \<and> esize e' \<le> esize e"
    and p: "chain_pos t e p" "chain_pos t e q" "is_bin t (get e p)"
  shows "chain_measure t e p q < Suc k \<Longrightarrow>
      \<exists>e' n'. (case f e (p @ [False]) q n of None \<Rightarrow> None
        | Some (e', n') \<Rightarrow> f e' (p @ [True]) q n') = Some (e', n')"
    and "chain_measure t e q p < Suc k \<Longrightarrow>
      \<exists>e' n'. (case f e q (p @ [False]) n of None \<Rightarrow> None
        | Some (e', n') \<Rightarrow> f e' q (p @ [True]) n') = Some (e', n')"
proof -
  assume m: "chain_measure t e p q < Suc k"
  have p': "chain_pos t e (p @ [False])" using p by simp
  have "chain_measure t e (p @ [False]) q < k"
    using chain_measure_descend(1) [of t e e p q False] p m by simp
  then obtain g i where g: "f e (p @ [False]) q n = Some (g, i)" using total p' p(2) by blast
  from shape [OF g p' p(2)] have s: "chain_pos t g = chain_pos t e" "esize g \<le> esize e" by auto
  have "chain_measure t g (p @ [True]) q < k"
    using chain_measure_descend(1) [OF s p(3,1,2), of True] m by simp
  with total [of g "p @ [True]" q i] p s g is_bin_get_shape [OF s(1), of p]
  show "\<exists>e' n'. (case f e (p @ [False]) q n of None \<Rightarrow> None
        | Some (e', n') \<Rightarrow> f e' (p @ [True]) q n') = Some (e', n')" by simp
next
  assume m: "chain_measure t e q p < Suc k"
  have p': "chain_pos t e (p @ [False])" using p by simp
  have "chain_measure t e q (p @ [False]) < k"
    using chain_measure_descend(2) [of t e e p q False] p m by simp
  then obtain g i where g: "f e q (p @ [False]) n = Some (g, i)" using total p' p(2) by blast
  from shape [OF g p(2) p'] have s: "chain_pos t g = chain_pos t e" "esize g \<le> esize e" by auto
  have "chain_measure t g q (p @ [True]) < k"
    using chain_measure_descend(2) [OF s p(3,1,2), of True] m by simp
  with total [of g q "p @ [True]" i] p s g is_bin_get_shape [OF s(1), of p]
  show "\<exists>e' n'. (case f e q (p @ [False]) n of None \<Rightarrow> None
        | Some (e', n') \<Rightarrow> f e' q (p @ [True]) n') = Some (e', n')" by simp
qed

lemma below_total:
  assumes "\<And>t e. chain_measure t e [] [] < k \<Longrightarrow> t = T_OR \<or> t = T_AND \<Longrightarrow> \<exists>e' n'. f t e = Some (e', n')"
    and "chain_measure t e p q < Suc k" "chain_pos t e p" "\<not> is_bin t (get e p)"
    and t': "etype (get e p) = T_OR \<or> etype (get e p) = T_AND"
  shows "\<exists>e' n'. f (etype (get e p)) (get e p) = Some (e', n')"
proof -
  from t' have "is_bin (etype (get e p)) (get e p)" by (auto simp: is_bin_etype)
  from chain_measure_below [OF assms(3,4) this, of q] assms(1) [OF _ t'] assms(2)
  show ?thesis by simp
qed

lemma dups1_total:
  "chain_measure t e p1 p2 < k \<Longrightarrow> t = T_OR \<or> t = T_AND \<Longrightarrow> chain_pos t e p1 \<Longrightarrow> chain_pos t e p2 \<Longrightarrow>
   \<exists>e' n'. expr_eliminate_dups1 k sy t e p1 p2 n = Some (e', n')"
proof (induction k arbitrary: t e p1 p2 n)
  case (Suc k)
  have shape: "chain_pos t e' = chain_pos t e \<and> esize e' \<le> esize e"
    if "expr_eliminate_dups1 k sy t e p q n = Some (e', n')" "chain_pos t e p" "chain_pos t e q" for e e' p q n n'
    using dups1_pass [OF that(1) Suc.prems(2) that(2,3)] by (simp add: exact.pass_ok_def)
  note IH = Suc.IH [of t, OF _ Suc.prems(2)]
  consider "is_bin t (get e p1)" | "\<not> is_bin t (get e p1)" "is_bin t (get e p2)"
    | "\<not> is_bin t (get e p1)" "\<not> is_bin t (get e p2)" by blast
  then show ?case
  proof cases
    case 1
    show ?thesis
      unfolding expr_eliminate_dups1.simps if_P [OF 1]
      by (rule descend_total(1) [OF IH shape Suc.prems(3,4) 1 Suc.prems(1)])
  next
    case 2
    show ?thesis
      unfolding expr_eliminate_dups1.simps if_not_P [OF 2(1)] if_P [OF 2(2)]
      by (rule descend_total(2) [OF IH shape Suc.prems(4,3) 2(2) Suc.prems(1)])
  next
    case 3
    have "\<exists>x m. expr_eliminate_dups1 k sy (etype (get e p1)) (get e p1) [] [] n = Some (x, m)"
      if "etype (get e p1) = T_OR \<or> etype (get e p1) = T_AND"
      by (rule below_total [where f = "\<lambda>t e. expr_eliminate_dups1 k sy t e [] [] n",
            OF _ Suc.prems(1,3) 3(1) that]) (simp add: Suc.IH)
    with 3 show ?thesis by (auto split: option.splits)
  qed
qed simp

lemma dups2_total:
  "chain_measure t e p1 p2 < k \<Longrightarrow> t = T_OR \<or> t = T_AND \<Longrightarrow> chain_pos t e p1 \<Longrightarrow> chain_pos t e p2 \<Longrightarrow>
   \<exists>e' n'. expr_eliminate_dups2 k sy t e p1 p2 n = Some (e', n')"
proof (induction k arbitrary: t e p1 p2 n)
  case (Suc k)
  have shape: "chain_pos t e' = chain_pos t e \<and> esize e' \<le> esize e"
    if "expr_eliminate_dups2 k sy t e p q n = Some (e', n')" "chain_pos t e p" "chain_pos t e q" for e e' p q n n'
    using dups2_pass [OF that(1) Suc.prems(2) that(2,3)] by (simp add: refines.pass_ok_def)
  note IH = Suc.IH [of t, OF _ Suc.prems(2)]
  show ?case
  proof (cases "is_bin t (get e p1)")
    case True
    show ?thesis
      unfolding expr_eliminate_dups2.simps if_P [OF True]
      by (rule descend_total(1) [OF IH shape Suc.prems(3,4) True Suc.prems(1)])
  next
    case False
    have "\<exists>f m. (if is_bin t (get e p2) then
        (case expr_eliminate_dups2 k sy t e p1 (p2 @ [False]) n of None \<Rightarrow> None
         | Some (e', n') \<Rightarrow> expr_eliminate_dups2 k sy t e' p1 (p2 @ [True]) n') else Some (e, n)) = Some (f, m)
        \<and> chain_pos t f = chain_pos t e \<and> esize f \<le> esize e" (is "\<exists>f m. ?r = Some (f, m) \<and> _")
    proof (cases "is_bin t (get e p2)")
      case True
      have q: "chain_pos t e (p2 @ [False])" "chain_pos t e (p2 @ [True])" using True Suc.prems(4) by simp_all
      have "\<exists>f m. (case expr_eliminate_dups2 k sy t e p1 (p2 @ [False]) n of None \<Rightarrow> None
          | Some (e', n') \<Rightarrow> expr_eliminate_dups2 k sy t e' p1 (p2 @ [True]) n') = Some (f, m)"
        by (rule descend_total(2) [OF IH shape Suc.prems(4,3) True Suc.prems(1)])
      then obtain f m g i where g: "expr_eliminate_dups2 k sy t e p1 (p2 @ [False]) n = Some (g, i)"
        and f: "expr_eliminate_dups2 k sy t g p1 (p2 @ [True]) i = Some (f, m)"
        by (auto split: option.splits)
      show ?thesis using shape [OF g Suc.prems(3) q(1)] shape [OF f] True g f q Suc.prems(3) by auto
    qed simp
    then obtain f m where r: "?r = Some (f, m)" and s: "chain_pos t f = chain_pos t e" "esize f \<le> esize e"
      by blast
    have leaf: "chain_pos t f p1" "\<not> is_bin t (get f p1)"
      using is_bin_get_shape [OF s(1)] Suc.prems(3) False s(1) by auto
    have "chain_measure t f p1 p2 < Suc k"
      using chain_measure_shape [OF s Suc.prems(3,4)] Suc.prems(1) by simp
    then have "\<exists>x l. expr_eliminate_dups2 k sy (etype (get f p1)) (get f p1) [] [] m = Some (x, l)"
      if "etype (get f p1) = T_OR \<or> etype (get f p1) = T_AND"
      by (rule below_total [where f = "\<lambda>t e. expr_eliminate_dups2 k sy t e [] [] m",
            OF _ _ leaf that, rotated]) (simp add: Suc.IH)
    then show ?thesis
      unfolding expr_eliminate_dups2.simps if_not_P [OF False] r option.case prod.case
      by (auto split: option.splits)
  qed
qed simp

lemma chain_measure_fuel: "chain_measure t e [] [] < dups_fuel e"
  using chain_size_esize [of t e] by (simp add: chain_measure_def dups_fuel_def)

lemma dups_round_total: "\<exists>e' n. dups_round sy e = Some (e', n)"
proof (cases "etype e = T_OR \<or> etype e = T_AND")
  case True
  with dups1_total [OF chain_measure_fuel, of "etype e" e sy 0] obtain f m where
    f: "expr_eliminate_dups1 (dups_fuel e) sy (etype e) e [] [] 0 = Some (f, m)" by auto
  have "is_bin (etype e) e" using True by (auto simp: is_bin_etype)
  with is_bin_shape [of "etype e" f e] dups1_pass [OF f True] have "is_bin (etype e) f"
    by (simp add: exact.pass_ok_def)
  then have "etype f = T_OR \<or> etype f = T_AND" by (auto elim: is_bin_mkbinE)
  with dups2_total [OF chain_measure_fuel, of "etype f" f sy m] True f show ?thesis
    by (auto simp: dups_round_def)
qed (simp add: dups_round_def)

section \<open>The loop\<close>

lemma dups_round_pass:
  assumes "dups_round sy e = Some (e', n)"
  shows "e' = e \<and> n = 0 \<or> 0 < n \<and> red e'" and "esize e' \<le> esize e"
    and "env_ok sy tv sv \<Longrightarrow> info_le (expr_value tv sv e) (expr_value tv sv e')"
proof -
  have "refines.pass_ok sy (etype e) e 0 e' n"
  proof (cases "etype e = T_OR \<or> etype e = T_AND")
    case True
    with assms obtain f m where f: "expr_eliminate_dups1 (dups_fuel e) sy (etype e) e [] [] 0 = Some (f, m)"
      and g: "expr_eliminate_dups2 (dups_fuel f) sy (etype f) f [] [] m = Some (e', n)"
      by (auto simp: dups_round_def split: option.splits)
    have p: "exact.pass_ok sy (etype e) e 0 f m" using dups1_pass [OF f True] by simp
    have "is_bin (etype e) e" using True by (auto simp: is_bin_etype)
    then have "is_bin (etype e) f" using is_bin_shape [of "etype e" f e] p by (simp add: exact.pass_ok_def)
    then have ty: "etype f = etype e" using True by (auto elim: is_bin_mkbinE)
    have "refines.pass_ok sy (etype e) e 0 f m"
      using p by (auto simp: exact.pass_ok_def refines.pass_ok_def info_le_def)
    moreover have "refines.pass_ok sy (etype e) f m e' n" using dups2_pass [OF g] True by (simp add: ty)
    ultimately show ?thesis by (rule refines.pass_trans)
  next
    case False
    with assms show ?thesis by (simp add: dups_round_def refines.pass_refl)
  qed
  then show "e' = e \<and> n = 0 \<or> 0 < n \<and> red e'" "esize e' \<le> esize e"
    "env_ok sy tv sv \<Longrightarrow> info_le (expr_value tv sv e) (expr_value tv sv e')"
    by (auto simp: refines.pass_ok_def)
qed

lemma dups_loop_total: "esize e < k \<Longrightarrow> \<exists>e'. dups_loop k sy e = Some e'"
proof (induction k arbitrary: e)
  case (Suc k)
  obtain f n where r: "dups_round sy e = Some (f, n)" using dups_round_total by blast
  show ?case
  proof (cases "n = 0")
    case False
    with dups_round_pass [OF r] have "esize (expr_eliminate_yn f) < esize e" by (simp add: red_def)
    with Suc.IH [of "expr_eliminate_yn f"] Suc.prems False r show ?thesis by simp
  qed (simp add: r)
qed simp

lemma dups_loop_fix: "dups_loop k sy e = Some e' \<Longrightarrow> dups_round sy e' = Some (e', 0)"
proof (induction k arbitrary: e)
  case (Suc k)
  obtain f n where r: "dups_round sy e = Some (f, n)" using dups_round_total by blast
  with Suc dups_round_pass(1) [OF r] show ?case by (auto split: if_splits)
qed simp

lemma dups_loop_value:
  assumes "env_ok sy tv sv"
  shows "dups_loop k sy e = Some e' \<Longrightarrow> info_le (expr_value tv sv e) (expr_value tv sv e') \<and> esize e' \<le> esize e"
proof (induction k arbitrary: e)
  case (Suc k)
  obtain f n where r: "dups_round sy e = Some (f, n)" using dups_round_total by blast
  note p = dups_round_pass(2) [OF r] dups_round_pass(3) [OF r assms]
  show ?case
  proof (cases "n = 0")
    case False
    with Suc r have "info_le (expr_value tv sv (expr_eliminate_yn f)) (expr_value tv sv e') \<and>
        esize e' \<le> esize (expr_eliminate_yn f)" by simp
    with p yn_value [OF env_okD(1) [OF assms], of sv f] yn_esize [of f] show ?thesis
      by (auto intro: refines.R_trans)
  qed (use Suc.prems r p in simp)
qed simp

lemma eliminate_dups_loop: "dups_loop (Suc (esize e)) sy e = Some (eliminate_dups sy e)"
  using dups_loop_total [of e "Suc (esize e)" sy] by (auto simp: eliminate_dups_def)

lemma eliminate_dups_value:
  assumes "env_ok sy tv sv" "expr_value tv sv e \<noteq> Mod"
  shows "expr_value tv sv (eliminate_dups sy e) = expr_value tv sv e"
  using dups_loop_value [OF assms(1) eliminate_dups_loop, of e] assms(2) by (auto simp: info_le_def)

end
