(* ===== verification/Kconfig_Expr_Props.thy ===== *)
theory Kconfig_Expr_Props
  imports Kconfig_Expr_Dups
begin

text \<open>
  What the rewriting of dependency expressions guarantees.  Expressions are evaluated by
  \<open>expr_value\<close> in an environment that is consistent with the symbol table (\<open>env_ok\<close>); the
  sample table at the start, two tristate symbols and a boolean one, serves the witnesses.
\<close>

section \<open>A sample symbol table\<close>

abbreviation "FOO \<equiv> Sym 0"
abbreviation "BAR \<equiv> Sym 2"
abbreviation "BAZ \<equiv> Sym 3"

definition sample_syms :: symtab where
  "sample_syms s =
     (if s = FOO \<or> s = BAR then (mk_symbol (Some ''FOO'') {})\<lparr>stype := S_TRISTATE\<rparr>
      else if s = BAZ then (mk_symbol (Some ''BAZ'') {})\<lparr>stype := S_BOOLEAN\<rparr>
      else const_symbol s)"

definition sample_tri :: "tristate \<Rightarrow> tristate \<Rightarrow> symref \<Rightarrow> tristate" where
  "sample_tri foo bar s =
     (if s = FOO then foo else if s = BAR then bar else if s = BAZ then Yes else tri (curr (const_symbol s)))"

definition sample_str :: "tristate \<Rightarrow> tristate \<Rightarrow> symref \<Rightarrow> string" where
  "sample_str foo bar s =
     (if s = Symbol_empty then '''' else tri_str (sample_tri foo bar s))"

lemma sample_stype:
  "stype (sample_syms s) = (if s = FOO \<or> s = BAR then S_TRISTATE else if s = BAZ then S_BOOLEAN else S_UNKNOWN)"
  by (cases s) (auto simp: sample_syms_def mk_symbol_def)

lemma sample_const:
  "SYMBOL_CONST \<in> flags (sample_syms s) \<longleftrightarrow> s \<in> {Symbol_yes, Symbol_mod, Symbol_no}"
  by (cases s) (auto simp: sample_syms_def mk_symbol_def)

lemma sample_env_ok: "env_ok sample_syms (sample_tri foo bar) (sample_str foo bar)"
  by (auto simp: env_ok_def consts_ok_def logical_def sample_stype sample_const
      sample_tri_def sample_str_def split: if_splits)

lemma sample_logical: "logical sample_syms FOO"
  by (simp add: logical_def sample_stype)

section \<open>Transformation\<close>

text \<open>
  C15: \<open>expr_transform\<close> keeps the value of every dependency expression in every consistent
  environment and returns an expression of the same kind in which \<open>!\<close> stands in front of
  symbols only.
\<close>

theorem expr_transform_correct:
  assumes "env_ok sy tv sv" "expr_wf e"
  shows "expr_value tv sv (expr_transform sy e) = expr_value tv sv e \<and>
    nnf (expr_transform sy e) \<and> expr_wf (expr_transform sy e)"
  using assms transform_value transform_nnf transform_wf by blast

theorem expr_transform_correct_witness:
  "expr_value (sample_tri Mod No) (sample_str Mod No)
     (expr_transform sample_syms (E_NOT (E_AND (E_SYMBOL FOO) (E_NOT (E_EQUAL BAZ Symbol_yes))))) = Yes"
  using expr_transform_correct [OF sample_env_ok,
      of "E_NOT (E_AND (E_SYMBOL FOO) (E_NOT (E_EQUAL BAZ Symbol_yes)))" Mod No]
  by (simp add: sample_tri_def sample_str_def)

section \<open>Duplicate elimination\<close>

text \<open>
  C16: \<open>expr_eliminate_dups\<close> terminates within one round per node, its result is a fixed point
  of both passes and never larger than the argument, and where the argument is \<open>y\<close> or \<open>n\<close> the
  result has the same value.
\<close>

theorem expr_eliminate_dups_correct:
  assumes "env_ok sy tv sv"
  shows "\<exists>f. dups_loop (Suc (esize e)) sy e = Some f \<and> expr_eliminate_dups sy (Some e) = Some f \<and>
    dups_round sy f = Some (f, 0) \<and> esize f \<le> esize e \<and>
    (expr_value tv sv e \<noteq> Mod \<longrightarrow> expr_value tv sv f = expr_value tv sv e)"
  using eliminate_dups_loop [of e sy] dups_loop_fix [OF eliminate_dups_loop]
    dups_loop_value [OF assms eliminate_dups_loop [of e sy]] eliminate_dups_value [OF assms, of e]
  by (auto simp: expr_eliminate_dups_def)

theorem expr_eliminate_dups_correct_witness:
  "\<exists>f. expr_eliminate_dups sample_syms (Some (E_AND (E_SYMBOL FOO) (E_SYMBOL FOO))) = Some f \<and>
    expr_value (sample_tri Yes No) (sample_str Yes No) f = Yes"
  using expr_eliminate_dups_correct [OF sample_env_ok, of "E_AND (E_SYMBOL FOO) (E_SYMBOL FOO)" Yes No]
  by (auto simp: sample_tri_def)

text \<open>
  C34: the first pass returns on every chain of \<open>&&\<close> or \<open>||\<close> and preserves the value exactly,
  \<open>m\<close> included; it reports no change exactly when the expression is unchanged.
\<close>

theorem expr_eliminate_dups1_correct:
  assumes "env_ok sy tv sv" "etype e = T_OR \<or> etype e = T_AND"
  shows "\<exists>f n. expr_eliminate_dups1 (dups_fuel e) sy (etype e) e [] [] 0 = Some (f, n) \<and>
    expr_value tv sv f = expr_value tv sv e \<and> esize f \<le> esize e \<and> (n = 0 \<longrightarrow> f = e)"
proof -
  from dups1_total [OF chain_measure_fuel assms(2)] obtain f n where
    f: "expr_eliminate_dups1 (dups_fuel e) sy (etype e) e [] [] 0 = Some (f, n)" by fastforce
  from dups1_pass [OF f assms(2)] assms(1) have "expr_value tv sv f = expr_value tv sv e"
    "esize f \<le> esize e" "n = 0 \<longrightarrow> f = e"
    by (auto simp: exact.pass_ok_def)
  with f show ?thesis by blast
qed

theorem expr_eliminate_dups1_correct_witness:
  "\<exists>f n. expr_eliminate_dups1 (dups_fuel (E_OR (E_SYMBOL FOO) (E_SYMBOL FOO))) sample_syms T_OR
       (E_OR (E_SYMBOL FOO) (E_SYMBOL FOO)) [] [] 0 = Some (f, n) \<and>
     expr_value (sample_tri Mod No) (sample_str Mod No) f = Mod"
  using expr_eliminate_dups1_correct [OF sample_env_ok, of "E_OR (E_SYMBOL FOO) (E_SYMBOL FOO)" Mod No]
  by (auto simp: sample_tri_def)



section \<open>Comparison of expressions\<close>

text \<open>
  C36: expressions that \<open>expr_eq\<close> calls equal have the same value, whatever the values of the
  symbols.
\<close>

theorem expr_eq_sound:
  assumes "consts_ok tv" "expr_eq e1 e2"
  shows "expr_value tv sv e1 = expr_value tv sv e2"
  using assms eq_value(3) by blast

theorem expr_eq_sound_witness:
  "expr_value (sample_tri Mod Yes) (sample_str Mod Yes) (E_OR (E_SYMBOL FOO) (E_SYMBOL BAR)) =
   expr_value (sample_tri Mod Yes) (sample_str Mod Yes) (E_OR (E_SYMBOL BAR) (E_SYMBOL FOO))"
  by (rule expr_eq_sound [OF env_okD(1) [OF sample_env_ok]]) code_simp

text \<open>
  \<open>__expr_eliminate_eq\<close> removes the same operands from both chains: there is one value
  that, joined with either rest, gives back the value of the chain it came from.
\<close>

theorem elim_eq_common:
  assumes "consts_ok tv" "t = T_OR \<or> t = T_AND" "elim_eq t e1 e2 = (f1, f2)"
  shows "\<exists>c. expr_value tv sv e1 = bop t c (expr_value tv sv f1) \<and>
    expr_value tv sv e2 = bop t c (expr_value tv sv f2)"
  using eq_value(1) [OF assms(1,2), of sv e1 e2] assms(3) by simp

theorem elim_eq_common_witness:
  "\<exists>c. Yes = bop T_OR c Yes \<and> Mod = bop T_OR c No"
proof -
  have "elim_eq T_OR (E_OR (E_SYMBOL FOO) (E_SYMBOL BAR)) (E_OR (E_SYMBOL Symbol_no) (E_SYMBOL FOO)) =
      (E_OR (E_SYMBOL Symbol_no) (E_SYMBOL BAR), E_OR (E_SYMBOL Symbol_no) (E_SYMBOL Symbol_no))"
    by code_simp
  from elim_eq_common [OF env_okD(1) [OF sample_env_ok [of Mod Yes]] _ this, of "sample_str Mod Yes"]
  show ?thesis by (simp add: sample_tri_def)
qed

text \<open>
  C37: when \<open>expr_join_or\<close> or \<open>expr_join_and\<close> joins two operands, the joined operand has the value
  of their disjunction or conjunction.
\<close>

theorem expr_join_correct:
  assumes "env_ok sy tv sv"
  shows "(expr_join_or sy e1 e2 = Some e \<longrightarrow>
      expr_value tv sv e = EXPR_OR (expr_value tv sv e1) (expr_value tv sv e2)) \<and>
    (expr_join_and sy e1 e2 = Some e \<longrightarrow>
      expr_value tv sv e = EXPR_AND (expr_value tv sv e1) (expr_value tv sv e2))"
  using join_or_value [OF assms] join_and_value [OF assms] by blast

theorem expr_join_correct_witness:
  "expr_value (sample_tri Mod No) (sample_str Mod No) (E_UNEQUAL FOO Symbol_no) =
   EXPR_OR (expr_value (sample_tri Mod No) (sample_str Mod No) (E_EQUAL FOO Symbol_yes))
     (expr_value (sample_tri Mod No) (sample_str Mod No) (E_EQUAL FOO Symbol_mod))"
proof -
  have "expr_join_or sample_syms (E_EQUAL FOO Symbol_yes) (E_EQUAL FOO Symbol_mod) = Some (E_UNEQUAL FOO Symbol_no)"
    by code_simp
  with expr_join_correct [OF sample_env_ok] show ?thesis by blast
qed

section \<open>Extraction of common operands\<close>

text \<open>
  C38: \<open>expr_extract_eq_and\<close> and \<open>expr_extract_eq_or\<close> split two expressions into the common part
  and two rests, and common part joined with rest has the value of the original.
\<close>

theorem expr_extract_eq_correct:
  assumes "consts_ok tv"
  shows "(case expr_extract_eq_and e1 e2 of (ep, f1, f2) \<Rightarrow>
      expr_value tv sv e1 = EXPR_AND (value_opt tv sv ep) (expr_value tv sv f1) \<and>
      expr_value tv sv e2 = EXPR_AND (value_opt tv sv ep) (expr_value tv sv f2)) \<and>
    (case expr_extract_eq_or e1 e2 of
      (None, f1, f2) \<Rightarrow> expr_value tv sv f1 = expr_value tv sv e1 \<and> expr_value tv sv f2 = expr_value tv sv e2
    | (Some c, f1, f2) \<Rightarrow>
        expr_value tv sv e1 = EXPR_OR (expr_value tv sv c) (expr_value tv sv f1) \<and>
        expr_value tv sv e2 = EXPR_OR (expr_value tv sv c) (expr_value tv sv f2))"
proof -
  have "case expr_extract_eq_and e1 e2 of (ep, f1, f2) \<Rightarrow>
      expr_value tv sv e1 = EXPR_AND (value_opt tv sv ep) (expr_value tv sv f1) \<and>
      expr_value tv sv e2 = EXPR_AND (value_opt tv sv ep) (expr_value tv sv f2)"
    using extract_yn_value [OF assms, of T_AND e1 e2, unfolded expr_extract_eq_and_def [symmetric]] assms
    by (auto simp: acc_value_def value_opt_def bop_def bunit_def split: option.splits)
  moreover have "case expr_extract_eq_or e1 e2 of
      (None, f1, f2) \<Rightarrow> expr_value tv sv f1 = expr_value tv sv e1 \<and> expr_value tv sv f2 = expr_value tv sv e2
    | (Some c, f1, f2) \<Rightarrow>
        expr_value tv sv e1 = EXPR_OR (expr_value tv sv c) (expr_value tv sv f1) \<and>
        expr_value tv sv e2 = EXPR_OR (expr_value tv sv c) (expr_value tv sv f2)"
    using extract_yn_value [OF assms, of T_OR e1 e2, unfolded expr_extract_eq_or_def [symmetric]] assms
    by (auto simp: acc_value_def bop_def bunit_def split: option.splits prod.splits)
  ultimately show ?thesis by blast
qed

theorem expr_extract_eq_correct_witness:
  "expr_value (sample_tri Mod Yes) (sample_str Mod Yes) (E_AND (E_SYMBOL FOO) (E_SYMBOL BAR)) =
   EXPR_AND (sample_tri Mod Yes FOO) (sample_tri Mod Yes BAR)"
proof -
  have "expr_extract_eq_and (E_AND (E_SYMBOL FOO) (E_SYMBOL BAR)) (E_AND (E_SYMBOL BAZ) (E_SYMBOL FOO)) =
      (Some (E_SYMBOL FOO), E_SYMBOL BAR, E_SYMBOL BAZ)" by code_simp
  with expr_extract_eq_correct [OF env_okD(1) [OF sample_env_ok [of Mod Yes]],
      of "sample_str Mod Yes" "E_AND (E_SYMBOL FOO) (E_SYMBOL BAR)" "E_AND (E_SYMBOL BAZ) (E_SYMBOL FOO)"]
  show ?thesis by (simp add: value_opt_def)
qed

section \<open>Comparison with a constant and dependencies\<close>



text \<open>
  C40: \<open>expr_trans_bool\<close>, applied to a transformed dependency of a boolean symbol, may turn \<open>y\<close>
  into \<open>m\<close> but never changes whether the dependency is met.
\<close>

theorem expr_trans_bool_correct:
  assumes "env_ok sy tv sv" "expr_wf e"
  shows "expr_value tv sv (expr_trans_bool sy (expr_transform sy e)) = No \<longleftrightarrow> expr_value tv sv e = No"
  using trans_bool_value [OF assms(1) transform_nnf [OF assms(2)]] transform_value [OF assms(1)] by simp

theorem expr_trans_bool_correct_witness:
  "expr_value (sample_tri Mod No) (sample_str Mod No)
     (expr_trans_bool sample_syms (expr_transform sample_syms (E_UNEQUAL FOO Symbol_no))) \<noteq> No"
  using expr_trans_bool_correct [OF sample_env_ok, of "E_UNEQUAL FOO Symbol_no" Mod No]
  by (simp add: sample_tri_def sample_str_def)

text \<open>
  An expression that \<open>expr_depends_symbol\<close> says depends on a logical symbol is \<open>n\<close> whenever
  that symbol is, and the value of an expression is a function of the symbols
  \<open>expr_contains_symbol\<close> finds in it.
\<close>

theorem expr_depends_contains:
  assumes "env_ok sy tv sv"
  shows "(logical sy s \<and> expr_depends_symbol (Some e) s \<and> tv s = No \<longrightarrow> expr_value tv sv e = No) \<and>
    ((\<forall>s. expr_contains_symbol (Some e) s \<longrightarrow> tv s = tv' s \<and> sv s = sv' s) \<longrightarrow>
      expr_value tv sv e = expr_value tv' sv' e)"
  using depends_value [OF assms] value_cong [of e tv tv' sv sv'] by blast

theorem expr_depends_contains_witness:
  "expr_value (sample_tri No Yes) (sample_str No Yes) (E_AND (E_SYMBOL BAR) (E_EQUAL FOO Symbol_mod)) = No"
  using expr_depends_contains [OF sample_env_ok [of No Yes], of FOO "E_AND (E_SYMBOL BAR) (E_EQUAL FOO Symbol_mod)"]
  by (simp add: sample_logical sample_tri_def)

end
