(* ===== verification/Kconfig_Expr_Print.thy ===== *)
theory Kconfig_Expr_Print
  imports Kconfig_Expr_Dups
begin

text \<open>
  Printing of expressions (\<open>expr_print\<close>, \<open>expr_fprint\<close>) and the part of an unmet dependency that
  is reported (\<open>expr_simplify_unmet_dep\<close>).  \<open>expr_print\<close> takes a callback; here it returns
  the arguments of the calls in order, the symbol and the string (\<open>None\<close> for a null pointer).
\<close>

section \<open>Printing\<close>

text \<open>The switch falls through from each kind to the next weaker one.\<close>

fun cmp_list :: "expr_type \<Rightarrow> int" where
  "cmp_list t2 = (if t2 = T_NONE then 1 else -1)"

fun cmp_or :: "expr_type \<Rightarrow> int" where
  "cmp_or t2 = (if t2 = T_LIST then 1 else cmp_list t2)"

fun cmp_and :: "expr_type \<Rightarrow> int" where
  "cmp_and t2 = (if t2 = T_OR then 1 else cmp_or t2)"

fun cmp_not :: "expr_type \<Rightarrow> int" where
  "cmp_not t2 = (if t2 = T_AND then 1 else cmp_and t2)"

definition expr_compare_type :: "expr_type \<Rightarrow> expr_type \<Rightarrow> int" where
  "expr_compare_type t1 t2 =
     (if t1 = t2 then 0
      else case t1 of
        T_EQUAL \<Rightarrow> if t2 = T_NOT then 1 else cmp_not t2
      | T_UNEQUAL \<Rightarrow> if t2 = T_NOT then 1 else cmp_not t2
      | T_NOT \<Rightarrow> cmp_not t2
      | T_AND \<Rightarrow> cmp_and t2
      | T_OR \<Rightarrow> cmp_or t2
      | T_LIST \<Rightarrow> cmp_list t2
      | _ \<Rightarrow> -1)"

type_synonym tok = "symref option \<times> string option"

definition lit :: "string \<Rightarrow> tok" where
  "lit str = (None, Some str)"

definition name_tok :: "symtab \<Rightarrow> symref \<Rightarrow> tok" where
  "name_tok sy r = (Some r, name (sy r))"

definition left_tok :: "symtab \<Rightarrow> symref \<Rightarrow> tok" where
  "left_tok sy r = (if name (sy r) \<noteq> None then name_tok sy r else lit ''<choice>'')"

definition paren :: "expr_type \<Rightarrow> expr_type \<Rightarrow> tok list \<Rightarrow> tok list" where
  "paren prev t body =
     (if expr_compare_type prev t > 0 then [lit ''(''] else []) @ body @
     (if expr_compare_type prev t > 0 then [lit '')''] else [])"

text \<open>
  The \<open>E_NONE\<close> node is never built; the code would print \<open><unknown type 0>\<close> for it.
\<close>

fun print_expr :: "symtab \<Rightarrow> expr_type \<Rightarrow> expr \<Rightarrow> tok list" where
  "print_expr sy prev (E_SYMBOL r) = paren prev T_SYMBOL [left_tok sy r]"
| "print_expr sy prev (E_NOT e) = paren prev T_NOT (lit ''!'' # print_expr sy T_NOT e)"
| "print_expr sy prev (E_EQUAL a b) = paren prev T_EQUAL [left_tok sy a, lit ''='', name_tok sy b]"
| "print_expr sy prev (E_UNEQUAL a b) = paren prev T_UNEQUAL [left_tok sy a, lit ''!='', name_tok sy b]"
| "print_expr sy prev (E_OR l r) =
     paren prev T_OR (print_expr sy T_OR l @ [lit '' || ''] @ print_expr sy T_OR r)"
| "print_expr sy prev (E_AND l r) =
     paren prev T_AND (print_expr sy T_AND l @ [lit '' && ''] @ print_expr sy T_AND r)"
| "print_expr sy prev (E_LIST None r) = paren prev T_LIST [name_tok sy r]"
| "print_expr sy prev (E_LIST (Some l) r) =
     paren prev T_LIST (name_tok sy r # lit '' ^ '' # print_expr sy T_LIST l)"
| "print_expr sy prev (E_RANGE a b) =
     paren prev T_RANGE [lit ''['', name_tok sy a, lit '' '', name_tok sy b, lit '']'']"
| "print_expr sy prev E_NONE = paren prev T_NONE [lit ''<unknown type 0>'']"

definition expr_print :: "symtab \<Rightarrow> expr option \<Rightarrow> expr_type \<Rightarrow> tok list" where
  "expr_print sy e prev = (case e of None \<Rightarrow> [lit ''y''] | Some e' \<Rightarrow> print_expr sy prev e')"

text \<open>
  \<open>expr_fprint\<close> writes each string with \<open>xfwrite\<close>, whose assertion \<open>len != 0\<close> fails on an
  empty one; a null name is undefined.
\<close>

fun write_toks :: "tok list \<Rightarrow> string option" where
  "write_toks [] = Some ''''"
| "write_toks ((_, None) # ts) = None"
| "write_toks ((_, Some str) # ts) = (if str = '''' then None else map_option ((@) str) (write_toks ts))"

definition expr_fprint :: "symtab \<Rightarrow> expr option \<Rightarrow> string option" where
  "expr_fprint sy e = write_toks (expr_print sy e T_NONE)"

section \<open>Unmet dependencies\<close>

text \<open>
  \<open>expr_get_leftmost_symbol\<close> follows \<open>left.expr\<close> to a symbol node; in a comparison or a range
  \<open>left\<close> holds a symbol and in the last node of a list a null pointer, the \<open>None\<close> cases.
\<close>

fun leftmost :: "expr \<Rightarrow> expr option" where
  "leftmost (E_SYMBOL r) = Some (E_SYMBOL r)"
| "leftmost (E_OR l r) = leftmost l"
| "leftmost (E_AND l r) = leftmost l"
| "leftmost (E_NOT e) = leftmost e"
| "leftmost (E_LIST (Some l) r) = leftmost l"
| "leftmost _ = None"

definition expr_get_leftmost_symbol :: "expr option \<Rightarrow> expr option option" where
  "expr_get_leftmost_symbol e = (case e of
     None \<Rightarrow> Some None
   | Some e' \<Rightarrow> map_option Some (leftmost e'))"

fun expr_simplify_unmet_dep :: "symtab \<Rightarrow> expr \<Rightarrow> expr option \<Rightarrow> expr option option" where
  "expr_simplify_unmet_dep sy (E_OR l r) e2 =
     (case (expr_simplify_unmet_dep sy l e2, expr_simplify_unmet_dep sy r e2) of
        (Some a, Some b) \<Rightarrow> Some (expr_alloc_and a b)
      | _ \<Rightarrow> None)"
| "expr_simplify_unmet_dep sy (E_AND l r) e2 =
     (let e1 = E_AND l r
      in case expr_eliminate_dups sy (expr_alloc_and (Some e1) e2) of
           None \<Rightarrow> None
         | Some e \<Rightarrow> expr_get_leftmost_symbol (if expr_eq e e1 then None else Some e1))"
| "expr_simplify_unmet_dep sy e1 e2 = expr_get_leftmost_symbol (Some e1)"

end
