(* ===== verification/Kconfig_Strings.thy ===== *)
theory Kconfig_Strings
  imports Kconfig_Prelude
begin

text \<open>
  The parts of the C library that the configuration code uses on strings: the character
  classes of \<open>ctype.h\<close> (in the C locale), \<open>strcmp\<close>, \<open>strtoll\<close> with its saturation at the bounds
  of \<open>long long\<close>, and the conversions \<open>%lld\<close> and \<open>%llx\<close> of \<open>sprintf\<close>.  A C string is the list of
  its characters without the terminating zero.
\<close>

section \<open>Character classes\<close>

abbreviation ccode :: "char \<Rightarrow> nat" where
  "ccode c \<equiv> of_char c"

definition isdigit :: "char \<Rightarrow> bool" where
  "isdigit c \<longleftrightarrow> 48 \<le> ccode c \<and> ccode c \<le> 57"

definition isupper :: "char \<Rightarrow> bool" where
  "isupper c \<longleftrightarrow> 65 \<le> ccode c \<and> ccode c \<le> 90"

definition islower :: "char \<Rightarrow> bool" where
  "islower c \<longleftrightarrow> 97 \<le> ccode c \<and> ccode c \<le> 122"

definition isalnum :: "char \<Rightarrow> bool" where
  "isalnum c \<longleftrightarrow> isdigit c \<or> isupper c \<or> islower c"

definition isxdigit :: "char \<Rightarrow> bool" where
  "isxdigit c \<longleftrightarrow> isdigit c \<or> 65 \<le> ccode c \<and> ccode c \<le> 70 \<or> 97 \<le> ccode c \<and> ccode c \<le> 102"

definition isspace :: "char \<Rightarrow> bool" where
  "isspace c \<longleftrightarrow> ccode c = 32 \<or> 9 \<le> ccode c \<and> ccode c \<le> 13"

lemmas ctype_defs = isdigit_def isupper_def islower_def isalnum_def isxdigit_def isspace_def

text \<open>The order of \<open>strcmp\<close>: characters compare as \<open>unsigned char\<close>, a proper prefix is smaller.\<close>

fun str_less :: "string \<Rightarrow> string \<Rightarrow> bool" where
  "str_less _ [] \<longleftrightarrow> False"
| "str_less [] (_ # _) \<longleftrightarrow> True"
| "str_less (a # s) (b # t) \<longleftrightarrow> ccode a < ccode b \<or> a = b \<and> str_less s t"

definition strcmp :: "string \<Rightarrow> string \<Rightarrow> int" where
  "strcmp s t = (if s = t then 0 else if str_less s t then -1 else 1)"

lemma str_less_irrefl [simp]: "\<not> str_less s s"
  by (induction s) auto

lemma str_less_trans: "str_less s t \<Longrightarrow> str_less t u \<Longrightarrow> str_less s u"
  by (induction s t arbitrary: u rule: str_less.induct) (case_tac u; auto)+

lemma str_less_total: "s \<noteq> t \<Longrightarrow> str_less s t \<or> str_less t s"
proof (induction s t rule: str_less.induct)
  case (1 s)
  then show ?case by (cases s) auto
next
  case (3 a s b t)
  then show ?case by (auto simp: linorder_neq_iff [of "ccode a"])
qed auto

section \<open>Numbers\<close>

definition digit_char :: "nat \<Rightarrow> char" where
  "digit_char d = char_of (if d < 10 then 48 + d else 87 + d)"

definition digit_val :: "char \<Rightarrow> nat" where
  "digit_val c = (if isdigit c then ccode c - 48
     else if islower c then ccode c - 87
     else if isupper c then ccode c - 55 else 255)"

lemma ccode_digit_char: "d < 16 \<Longrightarrow> ccode (digit_char d) = (if d < 10 then 48 + d else 87 + d)"
  by (simp add: digit_char_def)

lemma digit_val_char [simp]: "d < 16 \<Longrightarrow> digit_val (digit_char d) = d"
  by (simp add: digit_val_def ctype_defs ccode_digit_char)

fun digits :: "nat \<Rightarrow> nat \<Rightarrow> string" where
  "digits b n = (if b < 2 \<or> n < b then [digit_char n] else digits b (n div b) @ [digit_char (n mod b)])"

declare digits.simps [simp del]

fun read_digits :: "nat \<Rightarrow> nat \<Rightarrow> string \<Rightarrow> nat" where
  "read_digits b acc [] = acc"
| "read_digits b acc (c # s) = (if digit_val c < b then read_digits b (acc * b + digit_val c) s else acc)"

definition LLONG_MAX :: int where "LLONG_MAX = 9223372036854775807"
definition LLONG_MIN :: int where "LLONG_MIN = - 9223372036854775808"

fun skip_0x :: "string \<Rightarrow> string" where
  "skip_0x (a # x # d # s) =
     (if a = CHR ''0'' \<and> (x = CHR ''x'' \<or> x = CHR ''X'') \<and> isxdigit d then d # s else a # x # d # s)"
| "skip_0x s = s"

fun sign_split :: "string \<Rightarrow> bool \<times> string" where
  "sign_split [] = (False, [])"
| "sign_split (c # s) =
     (if c = CHR ''-'' then (True, s) else if c = CHR ''+'' then (False, s) else (False, c # s))"

definition strtoll :: "nat \<Rightarrow> string \<Rightarrow> int" where
  "strtoll b s =
     (let (neg, t) = sign_split (dropWhile isspace s);
          v = int (read_digits b 0 (if b = 16 then skip_0x t else t))
      in if neg then max LLONG_MIN (- v) else min LLONG_MAX v)"

definition fmt_lld :: "int \<Rightarrow> string" where
  "fmt_lld v = (if v < 0 then CHR ''-'' # digits 10 (nat (- v)) else digits 10 (nat v))"

definition fmt_llx :: "int \<Rightarrow> string" where
  "fmt_llx v = digits 16 (nat (v mod 2 ^ 64))"

lemma digits_nonempty [simp]: "digits b n \<noteq> []"
  by (subst digits.simps) auto

lemma digits_chars: "2 \<le> b \<Longrightarrow> c \<in> set (digits b n) \<Longrightarrow> \<exists>d < b. c = digit_char d"
proof (induction b n rule: digits.induct)
  case (1 b n)
  have "\<exists>d < b. digit_char (n mod b) = digit_char d"
    using 1 by (intro exI [of _ "n mod b"]) simp
  with 1 show ?case
    by (subst (asm) (2) digits.simps) (auto split: if_splits)
qed

lemma read_digits_append:
  "\<forall>c \<in> set s. digit_val c < b \<Longrightarrow> read_digits b acc (s @ t) = read_digits b (read_digits b acc s) t"
  by (induction s arbitrary: acc) auto

lemma read_digits_digits:
  assumes "2 \<le> b" "b \<le> 16"
  shows "read_digits b 0 (digits b n) = n"
  using assms
proof (induction b n rule: digits.induct)
  case (1 b n)
  show ?case
  proof (cases "n < b")
    case True
    with 1 show ?thesis by (subst digits.simps) simp
  next
    case False
    have "\<forall>c \<in> set (digits b (n div b)). digit_val c < b"
      using 1 digits_chars [of b] by fastforce
    moreover have "n mod b < 16" using 1 mod_less_divisor [of b n] by linarith
    ultimately show ?thesis using 1 False
      by (subst digits.simps) (simp add: read_digits_append)
  qed
qed

lemma digits_head:
  assumes "2 \<le> b" "b \<le> 16"
  obtains d s where "digits b n = digit_char d # s" "d < 16"
proof -
  obtain c s where cs: "digits b n = c # s" by (cases "digits b n") auto
  with digits_chars [OF assms(1), of c n] assms(2) that show ?thesis by force
qed

lemma digit_char_plain:
  assumes "d < 16"
  shows "\<not> isspace (digit_char d)" "digit_char d \<noteq> CHR ''-''" "digit_char d \<noteq> CHR ''+''"
    "isxdigit (digit_char d)" "digit_char d \<noteq> CHR ''x''" "digit_char d \<noteq> CHR ''X''"
proof -
  have "\<not> isspace (digit_char d)" "isxdigit (digit_char d)" "ccode (digit_char d) \<notin> {45, 43, 120, 88}"
    using assms by (auto simp: ctype_defs ccode_digit_char)
  then show "\<not> isspace (digit_char d)" "digit_char d \<noteq> CHR ''-''" "digit_char d \<noteq> CHR ''+''"
    "isxdigit (digit_char d)" "digit_char d \<noteq> CHR ''x''" "digit_char d \<noteq> CHR ''X''"
    by (auto dest: arg_cong [where f = ccode])
qed

text \<open>What \<open>sprintf\<close> writes, \<open>strtoll\<close> reads back.\<close>

lemma strtoll_fmt_lld:
  assumes "LLONG_MIN \<le> v" "v \<le> LLONG_MAX"
  shows "strtoll 10 (fmt_lld v) = v"
proof -
  obtain d s where s: "digits 10 (nat (if v < 0 then - v else v)) = digit_char d # s" "d < 16"
    using digits_head [of 10] by auto
  have r: "read_digits 10 0 (digit_char d # s) = nat (if v < 0 then - v else v)"
    using read_digits_digits [of 10 "nat (if v < 0 then - v else v)"] s by simp
  show ?thesis
  proof (cases "v < 0")
    case True
    have "\<not> isspace (CHR ''-'')" by (simp add: isspace_def)
    then show ?thesis using True r s assms
      by (simp add: strtoll_def fmt_lld_def LLONG_MIN_def del: read_digits.simps)
  next
    case False
    then show ?thesis using r s assms digit_char_plain [of d]
      by (simp add: strtoll_def fmt_lld_def LLONG_MAX_def del: read_digits.simps)
  qed
qed

lemma strtoll_fmt_llx:
  assumes "0 \<le> v" "v \<le> LLONG_MAX"
  shows "strtoll 16 (''0x'' @ fmt_llx v) = v"
proof -
  have v: "v mod 2 ^ 64 = v" using assms by (simp add: LLONG_MAX_def)
  obtain d s where s: "digits 16 (nat v) = digit_char d # s" "d < 16"
    using digits_head [of 16] by auto
  have "read_digits 16 0 (digit_char d # s) = nat v"
    using read_digits_digits [of 16 "nat v"] s by simp
  moreover have "\<not> isspace (CHR ''0'')" by (simp add: isspace_def)
  ultimately show ?thesis using s assms digit_char_plain [of d] v
    by (simp add: strtoll_def fmt_llx_def del: read_digits.simps)
qed

lemma strtoll_bounds: "LLONG_MIN \<le> strtoll b s" "strtoll b s \<le> LLONG_MAX"
  by (auto simp: strtoll_def Let_def LLONG_MIN_def LLONG_MAX_def split: prod.splits)

end
