(* ===== verification/Kconfig_State.thy ===== *)
theory Kconfig_State
  imports Kconfig_Expr_Print Kconfig_Strings "HOL-Library.Monad_Syntax"
begin

text \<open>
  The global state of the configuration programs and the accessors on it: the heaps of
  \<open>struct symbol\<close>, \<open>struct property\<close> and \<open>struct menu\<close>, the symbol hash table, the variables of
  \<^verbatim>\<open>symbol.c\<close>, \<^verbatim>\<open>confdata.c\<close> and \<^verbatim>\<open>menu.c\<close>, and a log of the messages
  the code prints.  A symbol's properties are the list of the indices that the
  \<open>next\<close> pointers link.  Code that may dereference a null pointer or read the wrong member
  of a union returns an option, \<open>None\<close> standing for the undefined behaviour.
\<close>

section \<open>The state\<close>

datatype kmsg =
    M_calc_value expr_type
  | M_stderr string
  | M_check_expr expr_type
  | M_menu_warn nat string
  | M_prop_warn nat string
  | M_conf_warning string
  | M_zconf_error string
  | M_message string

record dep_frame =
  d_sym :: symref
  d_prop :: "nat option"
  d_expr :: "expr option"

datatype menu_slot = Slot_next nat | Slot_list nat

record kstate =
  k_sym :: symtab
  k_nsym :: nat
  k_hash :: "nat \<Rightarrow> symref list"
  k_prop :: "nat \<Rightarrow> property"
  k_nprop :: nat
  k_menu :: "nat \<Rightarrow> menu"
  k_nmenu :: nat
  k_nstr :: nat
  k_modules_sym :: "symref option"
  k_modules_val :: tristate
  k_defconfig_list :: "symref option"
  k_env_list :: "expr option"
  k_change_count :: int
  k_callback :: bool
  k_callback_calls :: nat
  k_check_stack :: "dep_frame list"
  k_conf_warnings :: nat
  k_conf_unsaved :: nat
  k_current_entry :: nat
  k_current_menu :: nat
  k_last_entry :: menu_slot
  k_log :: "kmsg list"

abbreviation SYMBOL_HASHSIZE :: nat where "SYMBOL_HASHSIZE \<equiv> 9973"

definition all_syms :: "kstate \<Rightarrow> symref list" where
  "all_syms s = filter (\<lambda>r. stype (k_sym s r) \<noteq> S_OTHER) (concat (map (k_hash s) [0..<SYMBOL_HASHSIZE]))"

definition upd_sym :: "symref \<Rightarrow> (symbol \<Rightarrow> symbol) \<Rightarrow> kstate \<Rightarrow> kstate" where
  "upd_sym r f s = s\<lparr>k_sym := (k_sym s)(r := f (k_sym s r))\<rparr>"

definition set_flags :: "symref \<Rightarrow> sym_flag set \<Rightarrow> kstate \<Rightarrow> kstate" where
  "set_flags r fs = upd_sym r (\<lambda>x. x\<lparr>flags := flags x \<union> fs\<rparr>)"

definition clear_flags :: "symref \<Rightarrow> sym_flag set \<Rightarrow> kstate \<Rightarrow> kstate" where
  "clear_flags r fs = upd_sym r (\<lambda>x. x\<lparr>flags := flags x - fs\<rparr>)"

definition has_flag :: "kstate \<Rightarrow> symref \<Rightarrow> sym_flag \<Rightarrow> bool" where
  "has_flag s r f \<longleftrightarrow> f \<in> flags (k_sym s r)"

definition upd_prop :: "nat \<Rightarrow> (property \<Rightarrow> property) \<Rightarrow> kstate \<Rightarrow> kstate" where
  "upd_prop p f s = s\<lparr>k_prop := (k_prop s)(p := f (k_prop s p))\<rparr>"

definition upd_menu :: "nat \<Rightarrow> (menu \<Rightarrow> menu) \<Rightarrow> kstate \<Rightarrow> kstate" where
  "upd_menu m f s = s\<lparr>k_menu := (k_menu s)(m := f (k_menu s m))\<rparr>"

definition add_log :: "kmsg \<Rightarrow> kstate \<Rightarrow> kstate" where
  "add_log m s = s\<lparr>k_log := k_log s @ [m]\<rparr>"

text \<open>A pointer read as a C string: undefined unless it is one.\<close>

definition cstr :: "cval \<Rightarrow> string option" where
  "cstr v = (case v of VStr _ str \<Rightarrow> Some str | _ \<Rightarrow> None)"

definition name_val :: "symref \<Rightarrow> symbol \<Rightarrow> cval" where
  "name_val r x = (case name x of None \<Rightarrow> VNull | Some n \<Rightarrow> VStr (A_name r) n)"

text \<open>\<open>strdup\<close> and \<open>xmalloc\<close> for a string.\<close>

definition alloc_str :: "string \<Rightarrow> kstate \<Rightarrow> cval \<times> kstate" where
  "alloc_str str s = (VStr (A_heap (k_nstr s)) str, s\<lparr>k_nstr := Suc (k_nstr s)\<rparr>)"

section \<open>Change marks\<close>

text \<open>\<open>sym_set_changed\<close> marks the symbol and the menu of each of its properties.\<close>

definition mark_menu :: "nat \<Rightarrow> kstate \<Rightarrow> kstate" where
  "mark_menu p s = (case p_menu (k_prop s p) of
     None \<Rightarrow> s
   | Some m \<Rightarrow> upd_menu m (\<lambda>x. x\<lparr>m_flags := insert MENU_CHANGED (m_flags x)\<rparr>) s)"

definition sym_set_changed :: "symref \<Rightarrow> kstate \<Rightarrow> kstate" where
  "sym_set_changed r s = fold mark_menu (props (k_sym s r)) (set_flags r {SYMBOL_CHANGED} s)"

definition sym_set_all_changed :: "kstate \<Rightarrow> kstate" where
  "sym_set_all_changed s = fold sym_set_changed (all_syms s) s"

definition sym_set_change_count :: "int \<Rightarrow> kstate \<Rightarrow> kstate" where
  "sym_set_change_count c s =
     (let s' = s\<lparr>k_change_count := c\<rparr>
      in if k_callback s \<and> (k_change_count s \<noteq> 0) \<noteq> (c \<noteq> 0)
         then s'\<lparr>k_callback_calls := Suc (k_callback_calls s)\<rparr> else s')"

definition sym_add_change_count :: "int \<Rightarrow> kstate \<Rightarrow> kstate" where
  "sym_add_change_count c s = sym_set_change_count (c + k_change_count s) s"

definition conf_get_changed :: "kstate \<Rightarrow> bool" where
  "conf_get_changed s \<longleftrightarrow> k_change_count s \<noteq> 0"

section \<open>Properties\<close>

definition sym_get_type :: "kstate \<Rightarrow> symref \<Rightarrow> symbol_type" where
  "sym_get_type s r =
     (if stype (k_sym s r) = S_TRISTATE then
        if sym_is_choice_value (k_sym s r) \<and> visible (k_sym s r) = Yes then S_BOOLEAN
        else if k_modules_val s = No then S_BOOLEAN else S_TRISTATE
      else stype (k_sym s r))"

fun sym_type_name :: "symbol_type \<Rightarrow> string" where
  "sym_type_name S_BOOLEAN = ''boolean''"
| "sym_type_name S_TRISTATE = ''tristate''"
| "sym_type_name S_INT = ''integer''"
| "sym_type_name S_HEX = ''hex''"
| "sym_type_name S_STRING = ''string''"
| "sym_type_name S_UNKNOWN = ''unknown''"
| "sym_type_name S_OTHER = ''???''"

fun prop_get_type_name :: "prop_type \<Rightarrow> string" where
  "prop_get_type_name P_PROMPT = ''prompt''"
| "prop_get_type_name P_ENV = ''env''"
| "prop_get_type_name P_COMMENT = ''comment''"
| "prop_get_type_name P_MENU = ''menu''"
| "prop_get_type_name P_DEFAULT = ''default''"
| "prop_get_type_name P_CHOICE = ''choice''"
| "prop_get_type_name P_SELECT = ''select''"
| "prop_get_type_name P_RANGE = ''range''"
| "prop_get_type_name P_SYMBOL = ''symbol''"
| "prop_get_type_name P_UNKNOWN = ''unknown''"

definition props_of :: "kstate \<Rightarrow> symref \<Rightarrow> prop_type \<Rightarrow> nat list" where
  "props_of s r t = filter (\<lambda>p. p_type (k_prop s p) = t) (props (k_sym s r))"

definition prompts_of :: "kstate \<Rightarrow> symref \<Rightarrow> nat list" where
  "prompts_of s r = filter (\<lambda>p. p_text (k_prop s p) \<noteq> None) (props (k_sym s r))"

definition first_of :: "nat list \<Rightarrow> nat option" where
  "first_of ps = (case ps of [] \<Rightarrow> None | p # _ \<Rightarrow> Some p)"

definition sym_get_choice_prop :: "kstate \<Rightarrow> symref \<Rightarrow> nat option" where
  "sym_get_choice_prop s r = first_of (props_of s r P_CHOICE)"

definition sym_get_env_prop :: "kstate \<Rightarrow> symref \<Rightarrow> nat option" where
  "sym_get_env_prop s r = first_of (props_of s r P_ENV)"

text \<open>
  \<open>prop_get_symbol\<close> reads \<open>left.sym\<close>, which in an \<open>E_LIST\<close> node with a successor holds an
  expression: the outer \<open>None\<close>.
\<close>

definition prop_get_symbol :: "property \<Rightarrow> symref option option" where
  "prop_get_symbol p = (case p_expr p of
     Some (E_SYMBOL r) \<Rightarrow> Some (Some r)
   | Some (E_LIST None _) \<Rightarrow> Some None
   | Some (E_LIST (Some _) _) \<Rightarrow> None
   | _ \<Rightarrow> Some None)"

text \<open>The symbols that \<open>expr_list_for_each_sym\<close> visits.\<close>

fun list_syms :: "expr option \<Rightarrow> symref list option" where
  "list_syms None = Some []"
| "list_syms (Some (E_LIST l r)) = map_option ((#) r) (list_syms l)"
| "list_syms (Some _) = None"

definition choice_members :: "kstate \<Rightarrow> symref \<Rightarrow> symref list option" where
  "choice_members s r = (case sym_get_choice_prop s r of
     None \<Rightarrow> None
   | Some p \<Rightarrow> list_syms (p_expr (k_prop s p)))"

text \<open>The choice a choice value belongs to: \<open>prop_get_symbol(sym_get_choice_prop(sym))\<close>.\<close>

definition choice_of :: "kstate \<Rightarrow> symref \<Rightarrow> symref option" where
  "choice_of s r = (case sym_get_choice_prop s r of
     None \<Rightarrow> None
   | Some p \<Rightarrow> (case prop_get_symbol (k_prop s p) of Some x \<Rightarrow> x | None \<Rightarrow> None))"

section \<open>Allocation\<close>

definition prop_alloc :: "prop_type \<Rightarrow> symref option \<Rightarrow> kstate \<Rightarrow> nat \<times> kstate" where
  "prop_alloc t r s =
     (let p = k_nprop s;
          s1 = s\<lparr>k_nprop := Suc p, k_prop := (k_prop s)(p :=
            \<lparr>p_sym = r, p_type = t, p_text = None, p_visible = \<lparr>ev_expr = None, ev_tri = No\<rparr>,
             p_expr = None, p_menu = None\<rparr>)\<rparr>
      in (p, case r of None \<Rightarrow> s1 | Some q \<Rightarrow> upd_sym q (\<lambda>x. x\<lparr>props := props x @ [p]\<rparr>) s1))"

end
