(* ===== verification/Kconfig_Calc.thy ===== *)
theory Kconfig_Calc
  imports Kconfig_State
begin

text \<open>
  The evaluation of symbols: \<open>expr_calc_value\<close> of \<^verbatim>\<open>expr.c\<close>, \<open>sym_calc_value\<close> and the
  functions it is mutually recursive with in \<^verbatim>\<open>symbol.c\<close>, and \<open>set_all_choice_values\<close> of
  \<^verbatim>\<open>confdata.c\<close>.  Each function takes the evaluator \<open>calc\<close> it calls for
  \<open>sym_calc_value\<close>; the knot is tied at the end with fuel, one unit per nested call of
  \<open>sym_calc_value\<close>.
\<close>

type_synonym calc = "symref \<Rightarrow> kstate \<Rightarrow> kstate option"

section \<open>Values\<close>

text \<open>The null check at the head of \<open>sym_calc_value\<close>.\<close>

definition calc_opt :: "calc \<Rightarrow> symref option \<Rightarrow> kstate \<Rightarrow> kstate option" where
  "calc_opt calc r s = (case r of None \<Rightarrow> Some s | Some x \<Rightarrow> calc x s)"

definition sym_get_string_value :: "calc \<Rightarrow> symref \<Rightarrow> kstate \<Rightarrow> (string \<times> kstate) option" where
  "sym_get_string_value calc r s =
     (if stype (k_sym s r) = S_BOOLEAN \<or> stype (k_sym s r) = S_TRISTATE then
        (case sym_get_tristate_value (k_sym s r) of
           No \<Rightarrow> Some (''n'', s)
         | Mod \<Rightarrow> do {
             s \<leftarrow> calc_opt calc (k_modules_sym s) s;
             m \<leftarrow> k_modules_sym s;
             Some (if tri (curr (k_sym s m)) = No then ''n'' else ''m'', s)
           }
         | Yes \<Rightarrow> Some (''y'', s))
      else do {
        str \<leftarrow> cstr (val (curr (k_sym s r)));
        Some (str, s)
      })"

text \<open>The common part of the cases \<open>E_EQUAL\<close> and \<open>E_UNEQUAL\<close>: \<open>!strcmp(str1, str2)\<close>.\<close>

definition calc_same :: "calc \<Rightarrow> symref \<Rightarrow> symref \<Rightarrow> kstate \<Rightarrow> (bool \<times> kstate) option" where
  "calc_same calc a b s = do {
     s \<leftarrow> calc a s;
     s \<leftarrow> calc b s;
     (str1, s) \<leftarrow> sym_get_string_value calc a s;
     (str2, s) \<leftarrow> sym_get_string_value calc b s;
     Some (str1 = str2, s)
   }"

fun calc_expr :: "calc \<Rightarrow> expr \<Rightarrow> kstate \<Rightarrow> (tristate \<times> kstate) option" where
  "calc_expr calc (E_SYMBOL r) s = do {
     s \<leftarrow> calc r s;
     Some (tri (curr (k_sym s r)), s)
   }"
| "calc_expr calc (E_AND l r) s = do {
     (val1, s) \<leftarrow> calc_expr calc l s;
     (val2, s) \<leftarrow> calc_expr calc r s;
     Some (EXPR_AND val1 val2, s)
   }"
| "calc_expr calc (E_OR l r) s = do {
     (val1, s) \<leftarrow> calc_expr calc l s;
     (val2, s) \<leftarrow> calc_expr calc r s;
     Some (EXPR_OR val1 val2, s)
   }"
| "calc_expr calc (E_NOT e) s = do {
     (val1, s) \<leftarrow> calc_expr calc e s;
     Some (EXPR_NOT val1, s)
   }"
| "calc_expr calc (E_EQUAL a b) s = do {
     (same, s) \<leftarrow> calc_same calc a b s;
     Some (if same then Yes else No, s)
   }"
| "calc_expr calc (E_UNEQUAL a b) s = do {
     (same, s) \<leftarrow> calc_same calc a b s;
     Some (if same then No else Yes, s)
   }"
| "calc_expr calc e s = Some (No, add_log (M_calc_value (etype e)) s)"

definition expr_calc_value :: "calc \<Rightarrow> expr option \<Rightarrow> kstate \<Rightarrow> (tristate \<times> kstate) option" where
  "expr_calc_value calc e s = (case e of None \<Rightarrow> Some (Yes, s) | Some e' \<Rightarrow> calc_expr calc e' s)"

section \<open>Conditional properties\<close>

text \<open>\<open>prop->visible.tri = expr_calc_value(prop->visible.expr)\<close>\<close>

definition prop_calc_visible :: "calc \<Rightarrow> nat \<Rightarrow> kstate \<Rightarrow> (tristate \<times> kstate) option" where
  "prop_calc_visible calc p s = do {
     (v, s) \<leftarrow> expr_calc_value calc (ev_expr (p_visible (k_prop s p))) s;
     Some (v, upd_prop p (\<lambda>x. x\<lparr>p_visible := (p_visible x)\<lparr>ev_tri := v\<rparr>\<rparr>) s)
   }"

fun first_visible :: "calc \<Rightarrow> nat list \<Rightarrow> kstate \<Rightarrow> (nat option \<times> kstate) option" where
  "first_visible calc [] s = Some (None, s)"
| "first_visible calc (p # ps) s = do {
     (v, s) \<leftarrow> prop_calc_visible calc p s;
     if v \<noteq> No then Some (Some p, s) else first_visible calc ps s
   }"

definition sym_get_default_prop :: "calc \<Rightarrow> symref \<Rightarrow> kstate \<Rightarrow> (nat option \<times> kstate) option" where
  "sym_get_default_prop calc r s = first_visible calc (props_of s r P_DEFAULT) s"

definition sym_get_range_prop :: "calc \<Rightarrow> symref \<Rightarrow> kstate \<Rightarrow> (nat option \<times> kstate) option" where
  "sym_get_range_prop calc r s = first_visible calc (props_of s r P_RANGE) s"

section \<open>Ranges\<close>

definition sym_get_range_val :: "calc \<Rightarrow> symref \<Rightarrow> nat \<Rightarrow> kstate \<Rightarrow> (int \<times> kstate) option" where
  "sym_get_range_val calc r base s = do {
     s \<leftarrow> calc r s;
     let base = (case stype (k_sym s r) of S_INT \<Rightarrow> 10 | S_HEX \<Rightarrow> 16 | _ \<Rightarrow> base);
     str \<leftarrow> cstr (val (curr (k_sym s r)));
     Some (strtoll base str, s)
   }"

text \<open>The operands of a range property; \<open>prop->expr\<close> is an \<open>E_RANGE\<close> node.\<close>

definition range_syms :: "property \<Rightarrow> (symref \<times> symref) option" where
  "range_syms p = (case p_expr p of Some (E_RANGE a b) \<Rightarrow> Some (a, b) | _ \<Rightarrow> None)"

definition num_base :: "symbol_type \<Rightarrow> nat option" where
  "num_base t = (case t of S_INT \<Rightarrow> Some 10 | S_HEX \<Rightarrow> Some 16 | _ \<Rightarrow> None)"

definition fmt_range :: "symbol_type \<Rightarrow> int \<Rightarrow> string" where
  "fmt_range t v = (if t = S_INT then fmt_lld v else ''0x'' @ fmt_llx v)"

definition sym_validate_range :: "calc \<Rightarrow> symref \<Rightarrow> kstate \<Rightarrow> kstate option" where
  "sym_validate_range calc r s = (case num_base (stype (k_sym s r)) of
     None \<Rightarrow> Some s
   | Some base \<Rightarrow> do {
       (prop, s) \<leftarrow> sym_get_range_prop calc r s;
       case prop of
         None \<Rightarrow> Some s
       | Some p \<Rightarrow> do {
           str \<leftarrow> cstr (val (curr (k_sym s r)));
           let v = strtoll base str;
           (lo, hi) \<leftarrow> range_syms (k_prop s p);
           (val2, s) \<leftarrow> sym_get_range_val calc lo base s;
           (val2, within, s) \<leftarrow>
             (if v \<ge> val2 then do {
                (val2, s) \<leftarrow> sym_get_range_val calc hi base s;
                Some (val2, v \<le> val2, s)
              } else Some (val2, False, s));
           if within then Some s
           else
             let (nv, s) = alloc_str (fmt_range (stype (k_sym s r)) val2) s
             in Some (upd_sym r (\<lambda>x. x\<lparr>curr := (curr x)\<lparr>val := nv\<rparr>\<rparr>) s)
         }
     })"

section \<open>Visibility\<close>

fun calc_prompts :: "calc \<Rightarrow> nat list \<Rightarrow> tristate \<Rightarrow> kstate \<Rightarrow> (tristate \<times> kstate) option" where
  "calc_prompts calc [] t s = Some (t, s)"
| "calc_prompts calc (p # ps) t s = do {
     (v, s) \<leftarrow> prop_calc_visible calc p s;
     calc_prompts calc ps (EXPR_OR t v) s
   }"

definition set_visible :: "symref \<Rightarrow> tristate \<Rightarrow> kstate \<Rightarrow> kstate" where
  "set_visible r t s = (if visible (k_sym s r) \<noteq> t
     then sym_set_changed r (upd_sym r (\<lambda>x. x\<lparr>visible := t\<rparr>) s) else s)"

definition set_dir_dep :: "symref \<Rightarrow> tristate \<Rightarrow> kstate \<Rightarrow> kstate" where
  "set_dir_dep r t s = (if ev_tri (dir_dep (k_sym s r)) \<noteq> t
     then sym_set_changed r (upd_sym r (\<lambda>x. x\<lparr>dir_dep := (dir_dep x)\<lparr>ev_tri := t\<rparr>\<rparr>) s) else s)"

definition set_rev_dep :: "symref \<Rightarrow> tristate \<Rightarrow> kstate \<Rightarrow> kstate" where
  "set_rev_dep r t s = (if ev_tri (rev_dep (k_sym s r)) \<noteq> t
     then sym_set_changed r (upd_sym r (\<lambda>x. x\<lparr>rev_dep := (rev_dep x)\<lparr>ev_tri := t\<rparr>\<rparr>) s) else s)"

text \<open>\<open>if (e) tri = expr_calc_value(e)\<close> with a default for a null expression.\<close>

definition calc_dep :: "calc \<Rightarrow> tristate \<Rightarrow> expr option \<Rightarrow> kstate \<Rightarrow> (tristate \<times> kstate) option" where
  "calc_dep calc d e s = (case e of None \<Rightarrow> Some (d, s) | Some e' \<Rightarrow> calc_expr calc e' s)"

definition sym_calc_visibility :: "calc \<Rightarrow> symref \<Rightarrow> kstate \<Rightarrow> kstate option" where
  "sym_calc_visibility calc r s = do {
     (t, s) \<leftarrow> calc_prompts calc (prompts_of s r) No s;
     let t = (if t = Mod \<and> (stype (k_sym s r) \<noteq> S_TRISTATE \<or> k_modules_val s = No) then Yes else t);
     let s = set_visible r t s;
     if sym_is_choice_value (k_sym s r) then Some s
     else do {
       (t, s) \<leftarrow> calc_dep calc Yes (ev_expr (dir_dep (k_sym s r))) s;
       let t = (if t = Mod then Yes else t);
       let s = set_dir_dep r t s;
       (t, s) \<leftarrow> calc_dep calc No (ev_expr (rev_dep (k_sym s r))) s;
       let t = (if t = Mod \<and> sym_get_type s r = S_BOOLEAN then Yes else t);
       Some (set_rev_dep r t s)
     }
   }"

section \<open>Choices\<close>

definition is_visible :: "kstate \<Rightarrow> symref \<Rightarrow> bool" where
  "is_visible s r \<longleftrightarrow> visible (k_sym s r) \<noteq> No"

fun choice_default :: "calc \<Rightarrow> nat list \<Rightarrow> kstate \<Rightarrow> (symref option \<times> kstate) option" where
  "choice_default calc [] s = Some (None, s)"
| "choice_default calc (p # ps) s = do {
     (v, s) \<leftarrow> prop_calc_visible calc p s;
     if v = No then choice_default calc ps s
     else do {
       d \<leftarrow> prop_get_symbol (k_prop s p);
       def_sym \<leftarrow> d;
       if is_visible s def_sym then Some (Some def_sym, s) else choice_default calc ps s
     }
   }"

definition sym_choice_default :: "calc \<Rightarrow> symref \<Rightarrow> kstate \<Rightarrow> (symref option \<times> kstate) option" where
  "sym_choice_default calc r s = do {
     (d, s) \<leftarrow> choice_default calc (props_of s r P_DEFAULT) s;
     case d of
       Some def_sym \<Rightarrow> Some (Some def_sym, s)
     | None \<Rightarrow> do {
         members \<leftarrow> choice_members s r;
         Some (find (is_visible s) members, s)
       }
   }"

text \<open>
  The first loop of \<open>sym_calc_choice\<close>: the visibilities of all choice values and the flags
  that the visible ones have in common with the choice.
\<close>

fun choice_visibility :: "calc \<Rightarrow> symref list \<Rightarrow> sym_flag set \<Rightarrow> kstate \<Rightarrow> (sym_flag set \<times> kstate) option" where
  "choice_visibility calc [] fl s = Some (fl, s)"
| "choice_visibility calc (d # ds) fl s = do {
     s \<leftarrow> sym_calc_visibility calc d s;
     choice_visibility calc ds (if is_visible s d then fl \<inter> flags (k_sym s d) else fl) s
   }"

definition as_sym :: "cval \<Rightarrow> symref option option" where
  "as_sym v = (case v of VNull \<Rightarrow> Some None | VSym r \<Rightarrow> Some (Some r) | VStr _ _ \<Rightarrow> None)"

definition sym_calc_choice :: "calc \<Rightarrow> symref \<Rightarrow> kstate \<Rightarrow> (symref option \<times> kstate) option" where
  "sym_calc_choice calc r s = do {
     members \<leftarrow> choice_members s r;
     (fl, s) \<leftarrow> choice_visibility calc members (flags (k_sym s r)) s;
     let s = (if SYMBOL_DEF S_DEF_USER \<in> fl then s else clear_flags r {SYMBOL_DEF S_DEF_USER} s);
     d \<leftarrow> as_sym (val (sdef (k_sym s r) S_DEF_USER));
     if (case d of Some def_sym \<Rightarrow> is_visible s def_sym | None \<Rightarrow> False) then Some (d, s)
     else do {
       (d, s) \<leftarrow> sym_choice_default calc r s;
       Some (d, if d = None then upd_sym r (\<lambda>x. x\<lparr>curr := (curr x)\<lparr>tri := No\<rparr>\<rparr>) s else s)
     }
   }"

definition set_def_tri :: "symref \<Rightarrow> tristate \<Rightarrow> kstate \<Rightarrow> kstate" where
  "set_def_tri r t = upd_sym r (\<lambda>x. x\<lparr>sdef := (sdef x)(S_DEF_USER := (sdef x S_DEF_USER)\<lparr>tri := t\<rparr>)\<rparr>)"

definition unset_to_no :: "symref \<Rightarrow> kstate \<Rightarrow> kstate" where
  "unset_to_no r s = (if sym_has_value (k_sym s r) then s else set_def_tri r No s)"

definition set_all_choice_values :: "symref \<Rightarrow> kstate \<Rightarrow> kstate option" where
  "set_all_choice_values r s = do {
     members \<leftarrow> choice_members s r;
     let s = fold unset_to_no members s;
     let s = set_flags r {SYMBOL_DEF S_DEF_USER} s;
     Some (clear_flags r {SYMBOL_VALID, SYMBOL_NEED_SET_CHOICE_VALUES} s)
   }"

section \<open>Symbol values\<close>

text \<open>The text of the warning about a selected symbol whose own dependencies are not met.\<close>

definition unmet_warning :: "symref \<Rightarrow> kstate \<Rightarrow> kstate option" where
  "unmet_warning r s = do {
     rev \<leftarrow> ev_expr (rev_dep (k_sym s r));
     e \<leftarrow> expr_simplify_unmet_dep (k_sym s) rev (ev_expr (dir_dep (k_sym s r)));
     str1 \<leftarrow> expr_fprint (k_sym s) e;
     str2 \<leftarrow> expr_fprint (k_sym s) (ev_expr (dir_dep (k_sym s r)));
     Some (add_log (M_stderr (''warning: ('' @ str1 @ '') selects '' @
       (case name (k_sym s r) of Some n \<Rightarrow> n | None \<Rightarrow> ''(null)'') @
       '' which has unmet direct dependencies ('' @ str2 @ '')'' @ [CHR 0x0A])) s)
   }"

text \<open>
  \<open>EXPR_AND(expr_calc_value(prop->expr), prop->visible.tri)\<close>: the macro evaluates its first
  argument a second time when it is the smaller one.
\<close>

definition calc_default :: "calc \<Rightarrow> nat \<Rightarrow> kstate \<Rightarrow> (tristate \<times> kstate) option" where
  "calc_default calc p s = do {
     (v, s) \<leftarrow> expr_calc_value calc (p_expr (k_prop s p)) s;
     if v < ev_tri (p_visible (k_prop s p)) then expr_calc_value calc (p_expr (k_prop s p)) s
     else Some (ev_tri (p_visible (k_prop s p)), s)
   }"

definition def_user :: "kstate \<Rightarrow> symref \<Rightarrow> symbol_value" where
  "def_user s r = sdef (k_sym s r) S_DEF_USER"

text \<open>The value of a boolean or tristate symbol up to the label \<open>calc_newval\<close>.\<close>

definition calc_tri_base :: "calc \<Rightarrow> symref \<Rightarrow> tristate \<Rightarrow> kstate \<Rightarrow> (tristate \<times> kstate) option" where
  "calc_tri_base calc r t s =
     (let s = (if visible (k_sym s r) \<noteq> No then set_flags r {SYMBOL_WRITE} s else s)
      in if visible (k_sym s r) \<noteq> No \<and> sym_has_value (k_sym s r)
         then Some (EXPR_AND (tri (def_user s r)) (visible (k_sym s r)), s)
         else
           let s = (if ev_tri (rev_dep (k_sym s r)) \<noteq> No then set_flags r {SYMBOL_WRITE} s else s)
           in if sym_is_choice (k_sym s r) then Some (t, s)
              else do {
                (prop, s) \<leftarrow> sym_get_default_prop calc r s;
                case prop of
                  None \<Rightarrow> Some (t, s)
                | Some p \<Rightarrow> calc_default calc p (set_flags r {SYMBOL_WRITE} s)
              })"

definition calc_tri :: "calc \<Rightarrow> symref \<Rightarrow> tristate \<Rightarrow> kstate \<Rightarrow> (tristate \<times> kstate) option" where
  "calc_tri calc r t s = do {
     (t, s) \<leftarrow>
       (if sym_is_choice_value (k_sym s r) \<and> visible (k_sym s r) = Yes then do {
          c \<leftarrow> choice_of s r;
          Some (if val (curr (k_sym s c)) = VSym r then Yes else No, s)
        } else do {
          (t, s) \<leftarrow> calc_tri_base calc r t s;
          s \<leftarrow> (if ev_tri (dir_dep (k_sym s r)) = No \<and> ev_tri (rev_dep (k_sym s r)) \<noteq> No
               then unmet_warning r s else Some s);
          Some (EXPR_OR t (ev_tri (rev_dep (k_sym s r))), s)
        });
     Some (if t = Mod \<and> sym_get_type s r = S_BOOLEAN then Yes else t, s)
   }"

definition calc_str :: "calc \<Rightarrow> symref \<Rightarrow> cval \<Rightarrow> kstate \<Rightarrow> (cval \<times> kstate) option" where
  "calc_str calc r v s =
     (let s = (if visible (k_sym s r) \<noteq> No then set_flags r {SYMBOL_WRITE} s else s)
      in if visible (k_sym s r) \<noteq> No \<and> sym_has_value (k_sym s r) then Some (val (def_user s r), s)
         else do {
           (prop, s) \<leftarrow> sym_get_default_prop calc r s;
           case prop of
             None \<Rightarrow> Some (v, s)
           | Some p \<Rightarrow> do {
               d \<leftarrow> prop_get_symbol (k_prop s p);
               case d of
                 None \<Rightarrow> Some (v, s)
               | Some ds \<Rightarrow> do {
                   s \<leftarrow> calc ds (set_flags r {SYMBOL_WRITE} s);
                   Some (val (curr (k_sym s ds)), s)
                 }
             }
         })"

definition calc_newval :: "calc \<Rightarrow> symref \<Rightarrow> symbol_value \<Rightarrow> kstate \<Rightarrow> (symbol_value \<times> kstate) option" where
  "calc_newval calc r nv s =
     (if sym_get_type s r = S_BOOLEAN \<or> sym_get_type s r = S_TRISTATE then do {
        (t, s) \<leftarrow> calc_tri calc r (tri nv) s;
        Some (nv\<lparr>tri := t\<rparr>, s)
      } else if sym_get_type s r = S_STRING \<or> sym_get_type s r = S_HEX \<or> sym_get_type s r = S_INT then do {
        (v, s) \<leftarrow> calc_str calc r (val nv) s;
        Some (nv\<lparr>val := v\<rparr>, s)
      } else Some (nv, s))"

text \<open>The loop that passes \<open>SYMBOL_WRITE\<close> and \<open>SYMBOL_CHANGED\<close> from a choice to its values.\<close>

definition choice_mark :: "symref \<Rightarrow> symref \<Rightarrow> kstate \<Rightarrow> kstate" where
  "choice_mark r c s =
     (let s = (if has_flag s r SYMBOL_WRITE \<and> is_visible s c then set_flags c {SYMBOL_WRITE} s else s)
      in if has_flag s r SYMBOL_CHANGED then sym_set_changed c s else s)"

definition choice_marks :: "symref \<Rightarrow> kstate \<Rightarrow> kstate option" where
  "choice_marks r s =
     (if sym_is_choice (k_sym s r) then do {
        members \<leftarrow> choice_members s r;
        Some (fold (choice_mark r) members s)
      } else Some s)"

definition set_curr :: "symref \<Rightarrow> symbol_value \<Rightarrow> kstate \<Rightarrow> kstate" where
  "set_curr r v = upd_sym r (\<lambda>x. x\<lparr>curr := v\<rparr>)"

definition sym_val :: "symref option \<Rightarrow> cval" where
  "sym_val d = (case d of None \<Rightarrow> VNull | Some r \<Rightarrow> VSym r)"

text \<open>The initial \<open>newval\<close>, by the declared type; \<open>None\<close> for the early return.\<close>

definition init_value :: "kstate \<Rightarrow> symref \<Rightarrow> symbol_value option" where
  "init_value s r = (case stype (k_sym s r) of
     S_INT \<Rightarrow> Some (curr (k_sym s Symbol_empty))
   | S_HEX \<Rightarrow> Some (curr (k_sym s Symbol_empty))
   | S_STRING \<Rightarrow> Some (curr (k_sym s Symbol_empty))
   | S_BOOLEAN \<Rightarrow> Some (curr (k_sym s Symbol_no))
   | S_TRISTATE \<Rightarrow> Some (curr (k_sym s Symbol_no))
   | _ \<Rightarrow> None)"

definition calc_prologue :: "calc \<Rightarrow> symref \<Rightarrow> kstate \<Rightarrow> kstate option" where
  "calc_prologue calc r s =
     (if sym_is_choice_value (k_sym s r) \<and> has_flag s r SYMBOL_NEED_SET_CHOICE_VALUES then
        let s = clear_flags r {SYMBOL_NEED_SET_CHOICE_VALUES} s
        in do {
          p \<leftarrow> sym_get_choice_prop s r;
          c \<leftarrow> prop_get_symbol (k_prop s p);
          calc_opt calc c s
        }
      else Some s)"

definition note_change :: "symref \<Rightarrow> symbol_value \<Rightarrow> kstate \<Rightarrow> kstate" where
  "note_change r oldval s =
     (if oldval \<noteq> curr (k_sym s r) then
        let s = sym_set_changed r s
        in if k_modules_sym s = Some r
           then (sym_set_all_changed s)\<lparr>k_modules_val := tri (curr (k_sym s r))\<rparr> else s
      else s)"

definition calc_epilogue :: "symref \<Rightarrow> symbol_value \<Rightarrow> kstate \<Rightarrow> kstate option" where
  "calc_epilogue r oldval s = do {
     s \<leftarrow> choice_marks r (note_change r oldval s);
     let s = (if has_flag s r SYMBOL_AUTO then clear_flags r {SYMBOL_WRITE} s else s);
     if has_flag s r SYMBOL_NEED_SET_CHOICE_VALUES then set_all_choice_values r s else Some s
   }"

definition calc_main :: "calc \<Rightarrow> symref \<Rightarrow> symbol_value \<Rightarrow> kstate \<Rightarrow> kstate option" where
  "calc_main calc r nv s = do {
     s \<leftarrow> sym_calc_visibility calc r
       (if sym_is_choice_value (k_sym s r) then s else clear_flags r {SYMBOL_WRITE} s);
     (nv, s) \<leftarrow> calc_newval calc r nv (set_curr r nv s);
     let s = set_curr r nv s;
     s \<leftarrow> (if sym_is_choice (k_sym s r) \<and> tri nv = Yes then do {
            (d, s) \<leftarrow> sym_calc_choice calc r s;
            Some (upd_sym r (\<lambda>x. x\<lparr>curr := (curr x)\<lparr>val := sym_val d\<rparr>\<rparr>) s)
          } else Some s);
     sym_validate_range calc r s
   }"

definition sym_calc_step :: "calc \<Rightarrow> symref \<Rightarrow> kstate \<Rightarrow> kstate option" where
  "sym_calc_step calc r s =
     (if has_flag s r SYMBOL_VALID then Some s
      else do {
        s \<leftarrow> calc_prologue calc r s;
        let s = set_flags r {SYMBOL_VALID} s;
        case init_value s r of
          None \<Rightarrow> Some (upd_sym r (\<lambda>x. x\<lparr>curr := \<lparr>val = name_val r x, tri = No\<rparr>\<rparr>) s)
        | Some nv \<Rightarrow> do {
            let oldval = curr (k_sym s r);
            s \<leftarrow> calc_main calc r nv s;
            calc_epilogue r oldval s
          }
      })"

primrec sym_calc_value :: "nat \<Rightarrow> calc" where
  "sym_calc_value 0 r s = None"
| "sym_calc_value (Suc n) r s = sym_calc_step (sym_calc_value n) r s"

end
