(* ===== verification/Kconfig_Calc_Frame.thy ===== *)
theory Kconfig_Calc_Frame
  imports Kconfig_Calc
begin

text \<open>
  What evaluation leaves alone.  \<open>erase\<close> forgets the parts of the state that evaluation
  computes; the rest never changes.  The relation \<open>frame X\<close> says more: symbols that were
  valid stay valid and, outside \<open>X\<close>, keep their value, and no symbol starts to need its
  choice values set.  The locale \<open>evaluator\<close> derives for each function around
  \<open>sym_calc_value\<close> that it respects the frame if the recursive calls do, and the
  interpretation closes the recursion.
\<close>

section \<open>The static part of the state\<close>

definition dyn_flags :: "sym_flag set" where
  "dyn_flags = {SYMBOL_VALID, SYMBOL_WRITE, SYMBOL_CHANGED, SYMBOL_DEF S_DEF_USER,
     SYMBOL_NEED_SET_CHOICE_VALUES}"

definition erase_sym :: "symbol \<Rightarrow> symbol" where
  "erase_sym x = x\<lparr>curr := null_value, sdef := (sdef x)(S_DEF_USER := null_value), visible := No,
     flags := flags x - dyn_flags, dir_dep := (dir_dep x)\<lparr>ev_tri := No\<rparr>,
     rev_dep := (rev_dep x)\<lparr>ev_tri := No\<rparr>\<rparr>"

definition erase_prop :: "property \<Rightarrow> property" where
  "erase_prop p = p\<lparr>p_visible := (p_visible p)\<lparr>ev_tri := No\<rparr>\<rparr>"

definition erase_menu :: "menu \<Rightarrow> menu" where
  "erase_menu m = m\<lparr>m_flags := m_flags m - {MENU_CHANGED}\<rparr>"

definition erase :: "kstate \<Rightarrow> kstate" where
  "erase s = s\<lparr>k_sym := (\<lambda>r. erase_sym (k_sym s r)), k_prop := (\<lambda>p. erase_prop (k_prop s p)),
     k_menu := (\<lambda>m. erase_menu (k_menu s m)), k_nstr := 0, k_modules_val := No, k_log := []\<rparr>"

lemma erase_symD:
  assumes "erase_sym x = erase_sym y"
  shows "name x = name y" "stype x = stype y" "props x = props y" "ev_expr (dir_dep x) = ev_expr (dir_dep y)"
    "ev_expr (rev_dep x) = ev_expr (rev_dep y)" "flags x - dyn_flags = flags y - dyn_flags"
proof -
  have "name (erase_sym x) = name (erase_sym y)" "stype (erase_sym x) = stype (erase_sym y)"
    "props (erase_sym x) = props (erase_sym y)" "flags (erase_sym x) = flags (erase_sym y)"
    "ev_expr (dir_dep (erase_sym x)) = ev_expr (dir_dep (erase_sym y))"
    "ev_expr (rev_dep (erase_sym x)) = ev_expr (rev_dep (erase_sym y))"
    using assms by simp_all
  then show "name x = name y" "stype x = stype y" "props x = props y" "ev_expr (dir_dep x) = ev_expr (dir_dep y)"
    "ev_expr (rev_dep x) = ev_expr (rev_dep y)" "flags x - dyn_flags = flags y - dyn_flags"
    by (simp_all add: erase_sym_def)
qed

lemma eraseD:
  assumes "erase s = erase s'"
  shows "erase_sym (k_sym s r) = erase_sym (k_sym s' r)" "erase_prop (k_prop s p) = erase_prop (k_prop s' p)"
    "k_hash s = k_hash s'" "k_modules_sym s = k_modules_sym s'" "k_nsym s = k_nsym s'"
proof -
  have "k_sym (erase s) r = k_sym (erase s') r" "k_prop (erase s) p = k_prop (erase s') p"
    "k_hash (erase s) = k_hash (erase s')" "k_modules_sym (erase s) = k_modules_sym (erase s')"
    "k_nsym (erase s) = k_nsym (erase s')"
    using assms by simp_all
  then show "erase_sym (k_sym s r) = erase_sym (k_sym s' r)" "erase_prop (k_prop s p) = erase_prop (k_prop s' p)"
    "k_hash s = k_hash s'" "k_modules_sym s = k_modules_sym s'" "k_nsym s = k_nsym s'"
    by (simp_all add: erase_def)
qed

lemma erase_propD:
  assumes "erase_prop p = erase_prop q"
  shows "p_type p = p_type q" "p_text p = p_text q" "p_expr p = p_expr q"
    "ev_expr (p_visible p) = ev_expr (p_visible q)" "p_sym p = p_sym q"
proof -
  have "p_type (erase_prop p) = p_type (erase_prop q)" "p_text (erase_prop p) = p_text (erase_prop q)"
    "p_expr (erase_prop p) = p_expr (erase_prop q)" "p_sym (erase_prop p) = p_sym (erase_prop q)"
    "ev_expr (p_visible (erase_prop p)) = ev_expr (p_visible (erase_prop q))"
    using assms by simp_all
  then show "p_type p = p_type q" "p_text p = p_text q" "p_expr p = p_expr q"
    "ev_expr (p_visible p) = ev_expr (p_visible q)" "p_sym p = p_sym q"
    by (simp_all add: erase_prop_def)
qed

lemma erase_flag:
  "erase s = erase s' \<Longrightarrow> f \<notin> dyn_flags \<Longrightarrow> f \<in> flags (k_sym s r) \<longleftrightarrow> f \<in> flags (k_sym s' r)"
  using erase_symD(6) [OF eraseD(1) [of s s' r]] by blast

lemma erase_choice:
  assumes "erase s = erase s'"
  shows "sym_is_choice (k_sym s r) = sym_is_choice (k_sym s' r)"
    "sym_is_choice_value (k_sym s r) = sym_is_choice_value (k_sym s' r)"
    "stype (k_sym s r) = stype (k_sym s' r)"
    "choice_members s r = choice_members s' r" "choice_of s r = choice_of s' r"
    "props_of s r t = props_of s' r t" "prompts_of s r = prompts_of s' r"
proof -
  note p = erase_propD [OF eraseD(2) [OF assms]] and q = erase_symD [OF eraseD(1) [OF assms]]
  show "sym_is_choice (k_sym s r) = sym_is_choice (k_sym s' r)"
    "sym_is_choice_value (k_sym s r) = sym_is_choice_value (k_sym s' r)"
    using erase_flag [OF assms] by (auto simp: sym_is_choice_def sym_is_choice_value_def dyn_flags_def)
  show "stype (k_sym s r) = stype (k_sym s' r)" by (rule q)
  show "props_of s r t = props_of s' r t" for t
    using p(1) q(3) by (simp add: props_of_def)
  then have "sym_get_choice_prop s r = sym_get_choice_prop s' r" by (simp add: sym_get_choice_prop_def)
  then show "choice_members s r = choice_members s' r" "choice_of s r = choice_of s' r"
    using p(3) by (simp_all add: choice_members_def choice_of_def prop_get_symbol_def split: option.split)
  show "prompts_of s r = prompts_of s' r"
    using p(2) q(3) by (simp add: prompts_of_def)
qed

section \<open>Primitive updates\<close>

lemma upd_sym_simps [simp]:
  "k_sym (upd_sym r f s) r' = (if r' = r then f (k_sym s r) else k_sym s r')"
  "k_prop (upd_sym r f s) = k_prop s" "k_modules_sym (upd_sym r f s) = k_modules_sym s"
  "k_modules_val (upd_sym r f s) = k_modules_val s"
  by (simp_all add: upd_sym_def)

lemma erase_upd_sym:
  "erase_sym (f (k_sym s r)) = erase_sym (k_sym s r) \<Longrightarrow> erase (upd_sym r f s) = erase s"
  by (auto simp: erase_def upd_sym_def fun_eq_iff)

lemma dyn_flags_diff: "fs \<subseteq> dyn_flags \<Longrightarrow> A \<union> fs - dyn_flags = A - dyn_flags"
  "fs \<subseteq> dyn_flags \<Longrightarrow> A - fs - dyn_flags = A - dyn_flags"
  by blast+

lemma erase_set_flags: "fs \<subseteq> dyn_flags \<Longrightarrow> erase (set_flags r fs s) = erase s"
  unfolding set_flags_def by (rule erase_upd_sym) (simp add: erase_sym_def dyn_flags_diff)

lemma erase_clear_flags: "fs \<subseteq> dyn_flags \<Longrightarrow> erase (clear_flags r fs s) = erase s"
  unfolding clear_flags_def by (rule erase_upd_sym) (simp add: erase_sym_def dyn_flags_diff)

lemma erase_log [simp]: "erase (add_log m s) = erase s"
  by (simp add: erase_def add_log_def)

lemma add_log_simps [simp]:
  "k_sym (add_log m s) = k_sym s" "k_prop (add_log m s) = k_prop s"
  "k_modules_val (add_log m s) = k_modules_val s"
  by (simp_all add: add_log_def)

lemma mark_menu_simps [simp]:
  "k_sym (mark_menu p s) = k_sym s" "k_prop (mark_menu p s) = k_prop s"
  "k_modules_sym (mark_menu p s) = k_modules_sym s" "k_modules_val (mark_menu p s) = k_modules_val s"
  "erase (mark_menu p s) = erase s"
  by (auto simp: mark_menu_def upd_menu_def erase_def erase_menu_def fun_eq_iff split: option.splits)

lemma fold_mark_menu [simp]:
  "k_sym (fold mark_menu ps s) = k_sym s" "k_prop (fold mark_menu ps s) = k_prop s"
  "k_modules_sym (fold mark_menu ps s) = k_modules_sym s" "k_modules_val (fold mark_menu ps s) = k_modules_val s"
  "erase (fold mark_menu ps s) = erase s"
  by (induction ps arbitrary: s) simp_all

lemma set_changed_simps [simp]:
  "k_sym (sym_set_changed r s) r' =
     (if r' = r then (k_sym s r)\<lparr>flags := insert SYMBOL_CHANGED (flags (k_sym s r))\<rparr> else k_sym s r')"
  "k_prop (sym_set_changed r s) = k_prop s" "k_modules_sym (sym_set_changed r s) = k_modules_sym s"
  "k_modules_val (sym_set_changed r s) = k_modules_val s"
  "erase (sym_set_changed r s) = erase s"
  by (simp_all add: sym_set_changed_def set_flags_def erase_upd_sym erase_sym_def dyn_flags_def)

section \<open>The frame relation\<close>

abbreviation "is_valid s r \<equiv> has_flag s r SYMBOL_VALID"
abbreviation "needs_set s r \<equiv> has_flag s r SYMBOL_NEED_SET_CHOICE_VALUES"

definition plain :: "kstate \<Rightarrow> symref \<Rightarrow> bool" where
  "plain s r \<longleftrightarrow> \<not> sym_is_choice (k_sym s r) \<and> \<not> sym_is_choice_value (k_sym s r)"

definition same_deps :: "symbol \<Rightarrow> symbol \<Rightarrow> bool" where
  "same_deps x y \<longleftrightarrow> visible x = visible y \<and> dir_dep x = dir_dep y \<and> rev_dep x = rev_dep y"

text \<open>The copy \<open>modules_val\<close> of the value of the symbol \<open>modules_sym\<close> changes with that symbol only.\<close>

definition same_modules :: "symref set \<Rightarrow> kstate \<Rightarrow> kstate \<Rightarrow> bool" where
  "same_modules X s s' \<longleftrightarrow> k_modules_val s' = k_modules_val s \<or>
     (\<exists>m. k_modules_sym s = Some m \<and> (m \<in> X \<or> \<not> is_valid s m))"

text \<open>The properties of a valid symbol keep the visibility that was calculated for them.\<close>

definition same_props :: "symref set \<Rightarrow> kstate \<Rightarrow> kstate \<Rightarrow> bool" where
  "same_props X s s' \<longleftrightarrow> (\<forall>p q. p_sym (k_prop s p) = Some q \<longrightarrow> q \<notin> X \<longrightarrow> is_valid s q \<longrightarrow>
     \<not> sym_is_choice_value (k_sym s q) \<longrightarrow> k_prop s' p = k_prop s p)"

definition frame :: "symref set \<Rightarrow> kstate \<Rightarrow> kstate \<Rightarrow> bool" where
  "frame X s s' \<longleftrightarrow> erase s' = erase s \<and>
     (\<forall>r. is_valid s r \<longrightarrow> is_valid s' r) \<and>
     (\<forall>r. needs_set s' r \<longrightarrow> needs_set s r) \<and>
     (\<forall>r. r \<notin> X \<longrightarrow> is_valid s r \<longrightarrow> curr (k_sym s' r) = curr (k_sym s r) \<and>
        (sym_is_choice_value (k_sym s r) \<or> same_deps (k_sym s' r) (k_sym s r))) \<and>
     (\<forall>r. plain s r \<longrightarrow> sdef (k_sym s' r) = sdef (k_sym s r) \<and>
        sym_has_value (k_sym s' r) = sym_has_value (k_sym s r)) \<and>
     same_modules X s s' \<and> same_props X s s'"

lemma frame_refl [simp]: "frame X s s"
  by (simp add: frame_def same_deps_def same_modules_def same_props_def)

lemma frame_erase: "frame X s s' \<Longrightarrow> erase s' = erase s"
  by (simp add: frame_def)

lemma frame_valid: "frame X s s' \<Longrightarrow> is_valid s r \<Longrightarrow> is_valid s' r"
  by (simp add: frame_def)

lemma same_props_mono: "same_props X s s' \<Longrightarrow> X \<subseteq> Y \<Longrightarrow> same_props Y s s'"
  unfolding same_props_def by blast

lemma frame_mono: "frame X s s' \<Longrightarrow> X \<subseteq> Y \<Longrightarrow> frame Y s s'"
  by (auto simp: frame_def same_modules_def intro: same_props_mono)

lemma frame_trans:
  assumes "frame X s s'" "frame X s' s''"
  shows "frame X s s''"
proof -
  have e: "erase s' = erase s" using assms by (simp add: frame_def)
  have "plain s' r = plain s r" for r by (simp add: plain_def erase_choice(1,2) [OF e])
  moreover have "same_modules X s s''"
    using assms eraseD(4) [OF e] unfolding frame_def same_modules_def by metis
  moreover have "same_props X s s''"
    using assms erase_choice(2) [OF e] erase_propD(5) [OF eraseD(2) [OF e]]
    unfolding frame_def same_props_def by (metis (no_types))
  ultimately show ?thesis
    using assms erase_choice(2) [OF e] unfolding frame_def same_deps_def by (metis (no_types))
qed

lemma frame_same_syms:
  "erase s' = erase s \<Longrightarrow> k_sym s' = k_sym s \<Longrightarrow> k_prop s' = k_prop s \<Longrightarrow>
   k_modules_val s' = k_modules_val s \<Longrightarrow> frame X s s'"
  by (simp add: frame_def has_flag_def same_deps_def same_modules_def same_props_def)

lemma frame_upd_sym:
  assumes "erase_sym (f (k_sym s r)) = erase_sym (k_sym s r)"
    and "SYMBOL_VALID \<in> flags (k_sym s r) \<longrightarrow> SYMBOL_VALID \<in> flags (f (k_sym s r))"
    and "SYMBOL_NEED_SET_CHOICE_VALUES \<in> flags (f (k_sym s r)) \<longrightarrow>
      SYMBOL_NEED_SET_CHOICE_VALUES \<in> flags (k_sym s r)"
    and "r \<in> X \<or> SYMBOL_VALID \<notin> flags (k_sym s r) \<or> curr (f (k_sym s r)) = curr (k_sym s r) \<and>
      (sym_is_choice_value (k_sym s r) \<or> same_deps (f (k_sym s r)) (k_sym s r))"
    and "plain s r \<longrightarrow> sdef (f (k_sym s r)) = sdef (k_sym s r) \<and>
      sym_has_value (f (k_sym s r)) = sym_has_value (k_sym s r)"
  shows "frame X s (upd_sym r f s)"
  using assms by (auto simp: frame_def erase_upd_sym has_flag_def same_deps_def same_modules_def same_props_def)

lemma erase_sym_flags: "F - dyn_flags = flags x - dyn_flags \<Longrightarrow> erase_sym (x\<lparr>flags := F\<rparr>) = erase_sym x"
  by (simp add: erase_sym_def)

lemma frame_set_flags:
  "fs \<subseteq> {SYMBOL_VALID, SYMBOL_WRITE, SYMBOL_CHANGED} \<Longrightarrow> frame X s (set_flags r fs s)"
  unfolding set_flags_def
  by (rule frame_upd_sym, rule erase_sym_flags)
    (auto simp: dyn_flags_def same_deps_def sym_has_value_def)

lemma frame_clear_flags:
  "fs \<subseteq> {SYMBOL_NEED_SET_CHOICE_VALUES, SYMBOL_WRITE, SYMBOL_CHANGED} \<Longrightarrow> frame X s (clear_flags r fs s)"
  unfolding clear_flags_def
  by (rule frame_upd_sym, rule erase_sym_flags)
    (auto simp: dyn_flags_def same_deps_def sym_has_value_def)

lemma frame_set_changed: "frame X s (sym_set_changed r s)"
  by (auto simp: frame_def has_flag_def same_deps_def sym_has_value_def same_modules_def same_props_def)

lemma frame_set_curr: "r \<in> X \<Longrightarrow> frame X s (set_curr r v s)"
  unfolding set_curr_def by (rule frame_upd_sym) (auto simp: erase_sym_def sym_has_value_def)

lemma frame_upd_curr: "r \<in> X \<Longrightarrow> frame X s (upd_sym r (\<lambda>x. x\<lparr>curr := f x\<rparr>) s)"
  by (rule frame_upd_sym) (auto simp: erase_sym_def sym_has_value_def)

text \<open>
  Only a choice has a list of choice values, the members of the list are choice values, and a
  property is linked from the symbol it was allocated for.
\<close>

definition choices_wf :: "kstate \<Rightarrow> bool" where
  "choices_wf s \<longleftrightarrow> (\<forall>r ms. choice_members s r = Some ms \<longrightarrow>
     sym_is_choice (k_sym s r) \<and> (\<forall>c \<in> set ms. sym_is_choice_value (k_sym s c))) \<and>
   (\<forall>r. \<forall>p \<in> set (props (k_sym s r)). p_sym (k_prop s p) = Some r)"

lemma choices_wf_erase:
  assumes "erase s' = erase s"
  shows "choices_wf s' = choices_wf s"
  unfolding choices_wf_def erase_choice(1,2,4) [OF assms] erase_symD(3) [OF eraseD(1) [OF assms]]
    erase_propD(5) [OF eraseD(2) [OF assms]] ..

lemma choices_wf_cong:
  assumes "k_sym s' = k_sym s" "k_prop s' = k_prop s"
  shows "choices_wf s' = choices_wf s"
proof -
  have "choice_members s' = choice_members s"
    unfolding choice_members_def sym_get_choice_prop_def props_of_def assms ..
  then show ?thesis by (simp add: choices_wf_def assms)
qed

lemma frame_wf: "frame X s s' \<Longrightarrow> choices_wf s \<Longrightarrow> choices_wf s'"
  using choices_wf_erase frame_erase by blast

text \<open>The frame, for states whose choices are well formed; this relation composes freely.\<close>

definition keeps :: "symref set \<Rightarrow> kstate \<Rightarrow> kstate \<Rightarrow> bool" where
  "keeps X s s' \<longleftrightarrow> (choices_wf s \<longrightarrow> frame X s s')"

lemma keeps_frame: "frame X s s' \<Longrightarrow> keeps X s s'"
  by (simp add: keeps_def)

lemma keeps_refl [simp]: "keeps X s s"
  by (simp add: keeps_def)

lemma keeps_trans [trans]: "keeps X s s' \<Longrightarrow> keeps X s' s'' \<Longrightarrow> keeps X s s''"
  using frame_trans frame_wf unfolding keeps_def by blast

lemma keeps_back: "keeps X s' s'' \<Longrightarrow> keeps X s s' \<Longrightarrow> keeps X s s''"
  by (rule keeps_trans)

lemma keeps_mono: "keeps X s s' \<Longrightarrow> X \<subseteq> Y \<Longrightarrow> keeps Y s s'"
  using frame_mono unfolding keeps_def by blast

lemma keeps_any: "keeps {} s s' \<Longrightarrow> keeps X s s'"
  using keeps_mono by blast

lemma bind_SomeE:
  assumes "Option.bind m f = Some y"
  obtains x where "m = Some x" "f x = Some y"
  using assms by (cases m) auto

lemma if_SomeE:
  assumes "(if b then x else y) = Some z"
  obtains "b" "x = Some z" | "\<not> b" "y = Some z"
  using assms by (cases b) auto

section \<open>Evaluators\<close>

definition set_prop_tri :: "nat \<Rightarrow> tristate \<Rightarrow> kstate \<Rightarrow> kstate" where
  "set_prop_tri p v s = upd_prop p (\<lambda>x. x\<lparr>p_visible := (p_visible x)\<lparr>ev_tri := v\<rparr>\<rparr>) s"

lemma set_prop_tri_simps [simp]:
  "k_sym (set_prop_tri p v s) = k_sym s" "k_modules_val (set_prop_tri p v s) = k_modules_val s"
  "k_modules_sym (set_prop_tri p v s) = k_modules_sym s"
  "k_prop (set_prop_tri p v s) q =
     (if q = p then (k_prop s p)\<lparr>p_visible := (p_visible (k_prop s p))\<lparr>ev_tri := v\<rparr>\<rparr> else k_prop s q)"
  "erase (set_prop_tri p v s) = erase s"
  by (auto simp: set_prop_tri_def upd_prop_def erase_def erase_prop_def fun_eq_iff)

text \<open>Properties that belong to \<open>r\<close>, or to any choice value.\<close>

definition owned :: "symref \<Rightarrow> kstate \<Rightarrow> nat \<Rightarrow> bool" where
  "owned r s p \<longleftrightarrow> p_sym (k_prop s p) = Some r"

lemma keeps_set_prop_tri: "owned r s p \<Longrightarrow> keeps {r} s (set_prop_tri p v s)"
  by (auto intro!: keeps_frame simp: frame_def has_flag_def same_deps_def same_modules_def same_props_def owned_def)

lemma keeps_set_prop_tri_cv:
  "owned r s p \<Longrightarrow> sym_is_choice_value (k_sym s r) \<Longrightarrow> keeps {} s (set_prop_tri p v s)"
  by (auto intro!: keeps_frame simp: frame_def has_flag_def same_deps_def same_modules_def same_props_def owned_def)

lemma keeps_log: "keeps X s (add_log m s)"
  by (rule keeps_frame, rule frame_same_syms) simp_all

lemma keeps_alloc: "keeps X s (s\<lparr>k_nstr := n\<rparr>)"
  by (rule keeps_frame, rule frame_same_syms) (simp_all add: erase_def)

lemmas keeps_prims = keeps_log keeps_alloc
  keeps_frame [OF frame_set_flags] keeps_frame [OF frame_clear_flags] keeps_frame [OF frame_set_changed]
  keeps_frame [OF frame_set_curr] keeps_frame [OF frame_upd_curr]

locale evaluator =
  fixes calc :: calc
  assumes calc_keeps: "calc r s = Some s' \<Longrightarrow> keeps {} s s'"
begin

lemma calc_opt_keeps: "calc_opt calc r s = Some s' \<Longrightarrow> keeps {} s s'"
  unfolding calc_opt_def by (cases r) (auto dest: calc_keeps)

lemma string_value_keeps: "sym_get_string_value calc r s = Some (v, s') \<Longrightarrow> keeps {} s s'"
  unfolding sym_get_string_value_def
  by (auto split: if_splits tristate.splits elim!: bind_SomeE dest: calc_opt_keeps)

lemma calc_same_keeps: "calc_same calc a b s = Some (v, s') \<Longrightarrow> keeps {} s s'"
  unfolding calc_same_def
  by (auto elim!: bind_SomeE dest!: calc_keeps string_value_keeps intro: keeps_trans)

lemma calc_expr_keeps: "calc_expr calc e s = Some (v, s') \<Longrightarrow> keeps {} s s'"
proof (induction e arbitrary: s s' v)
  case (E_AND l r)
  then show ?case by (auto elim!: bind_SomeE) (blast intro: keeps_trans)
next
  case (E_OR l r)
  then show ?case by (auto elim!: bind_SomeE) (blast intro: keeps_trans)
qed (auto elim!: bind_SomeE dest: calc_keeps calc_same_keeps intro: keeps_log)

lemma expr_calc_value_keeps: "expr_calc_value calc e s = Some (v, s') \<Longrightarrow> keeps {} s s'"
  unfolding expr_calc_value_def by (cases e) (auto dest: calc_expr_keeps)

lemma owned_keeps: "keeps X s s' \<Longrightarrow> choices_wf s \<Longrightarrow> owned r s' p = owned r s p"
  using erase_propD(5) [OF eraseD(2)] frame_erase unfolding keeps_def owned_def by metis

lemma prop_calc_visible_keeps:
  assumes "prop_calc_visible calc p s = Some (v, s')" "owned r s p"
  shows "keeps {r} s s'" "sym_is_choice_value (k_sym s r) \<Longrightarrow> keeps {} s s'"
proof -
  from assms(1) obtain s1 where s1: "expr_calc_value calc (ev_expr (p_visible (k_prop s p))) s = Some (v, s1)"
    and s': "s' = set_prop_tri p v s1"
    unfolding prop_calc_visible_def by (auto simp: set_prop_tri_def elim!: bind_SomeE)
  have k: "keeps {} s s1" using s1 by (rule expr_calc_value_keeps)
  have "keeps {r} s1 s'" if "choices_wf s"
    using assms(2) owned_keeps [OF k that] unfolding s' by (auto intro: keeps_set_prop_tri)
  then show "keeps {r} s s'" using keeps_trans [OF keeps_any [OF k]] unfolding keeps_def [of _ s] by (simp add: keeps_def)
  have "keeps {} s1 s'" if "choices_wf s" "sym_is_choice_value (k_sym s r)"
  proof -
    have "sym_is_choice_value (k_sym s1 r)"
      using k that erase_choice(2) [of s1 s] by (simp add: keeps_def frame_def)
    then show ?thesis using assms(2) owned_keeps [OF k that(1)] unfolding s' by (auto intro: keeps_set_prop_tri_cv)
  qed
  then show "sym_is_choice_value (k_sym s r) \<Longrightarrow> keeps {} s s'"
    using keeps_trans [OF k] unfolding keeps_def [of _ s] by (simp add: keeps_def)
qed

lemma wf_owned: "choices_wf s \<Longrightarrow> p \<in> set (props (k_sym s r)) \<Longrightarrow> owned r s p"
  by (simp add: choices_wf_def owned_def)

lemma wf_owned_lists:
  assumes "choices_wf s"
  shows "\<forall>p \<in> set (props_of s r t). owned r s p" "\<forall>p \<in> set (prompts_of s r). owned r s p"
  using wf_owned [OF assms] by (simp_all add: props_of_def prompts_of_def)

lemma first_visible_keeps:
  "first_visible calc ps s = Some (v, s') \<Longrightarrow> (choices_wf s \<Longrightarrow> \<forall>p \<in> set ps. owned r s p) \<Longrightarrow> keeps {r} s s'"
proof (induction ps arbitrary: s)
  case (Cons p ps)
  show ?case
  proof (cases "choices_wf s")
    case True
    from Cons.prems(1) obtain w s1 where p: "prop_calc_visible calc p s = Some (w, s1)"
      and q: "(if w \<noteq> No then Some (Some p, s1) else first_visible calc ps s1) = Some (v, s')"
      by (auto elim!: bind_SomeE)
    have k: "keeps {r} s s1" using prop_calc_visible_keeps(1) [OF p] Cons.prems(2) True by simp
    have "keeps {r} s1 s'"
      using q Cons.IH [of s1] Cons.prems(2) True owned_keeps [OF k True] by (auto elim!: if_SomeE)
    with k show ?thesis by (rule keeps_trans)
  qed (simp add: keeps_def)
qed simp

lemma default_prop_keeps: "sym_get_default_prop calc r s = Some (v, s') \<Longrightarrow> keeps {r} s s'"
  unfolding sym_get_default_prop_def by (erule first_visible_keeps) (rule wf_owned_lists)

lemma range_prop_keeps: "sym_get_range_prop calc r s = Some (v, s') \<Longrightarrow> keeps {r} s s'"
  unfolding sym_get_range_prop_def by (erule first_visible_keeps) (rule wf_owned_lists)

lemma range_val_keeps: "sym_get_range_val calc r b s = Some (v, s') \<Longrightarrow> keeps {} s s'"
  unfolding sym_get_range_val_def by (auto elim!: bind_SomeE dest: calc_keeps)

lemma validate_range_keeps: "sym_validate_range calc r s = Some s' \<Longrightarrow> keeps {r} s s'"
  unfolding sym_validate_range_def
  by (auto simp: Let_def alloc_str_def split: option.splits elim!: bind_SomeE if_SomeE
      dest!: range_prop_keeps range_val_keeps [THEN keeps_any [where X = "{r}"]];
      (assumption | rule keeps_refl singletonI keeps_prims [THEN keeps_back] | erule keeps_back)+)

lemma calc_prompts_keeps:
  "calc_prompts calc ps t s = Some (v, s') \<Longrightarrow> (choices_wf s \<Longrightarrow> \<forall>p \<in> set ps. owned r s p) \<Longrightarrow>
   keeps {r} s s' \<and> (sym_is_choice_value (k_sym s r) \<longrightarrow> keeps {} s s')"
proof (induction ps arbitrary: s t)
  case (Cons p ps)
  show ?case
  proof (cases "choices_wf s")
    case True
    from Cons.prems(1) obtain w s1 where p: "prop_calc_visible calc p s = Some (w, s1)"
      and q: "calc_prompts calc ps (EXPR_OR t w) s1 = Some (v, s')"
      by (auto elim!: bind_SomeE)
    note k = prop_calc_visible_keeps [OF p, of r]
    have o: "owned r s p" using Cons.prems(2) True by simp
    have "sym_is_choice_value (k_sym s1 r) = sym_is_choice_value (k_sym s r)"
      using k(1) [OF o] True erase_choice(2) [of s1 s] by (simp add: keeps_def frame_def)
    then have "keeps {r} s1 s' \<and> (sym_is_choice_value (k_sym s r) \<longrightarrow> keeps {} s1 s')"
      using Cons.IH [OF q] Cons.prems(2) True owned_keeps [OF k(1) [OF o] True] by simp
    with k o show ?thesis using keeps_trans by blast
  qed (simp add: keeps_def)
qed simp

lemma prompts_keeps:
  assumes "calc_prompts calc (prompts_of s r) t s = Some (v, s')"
  shows "keeps {r} s s'" "sym_is_choice_value (k_sym s r) \<Longrightarrow> keeps {} s s'"
  using calc_prompts_keeps [OF assms wf_owned_lists(2)] by blast+

lemma calc_dep_keeps: "calc_dep calc d e s = Some (v, s') \<Longrightarrow> keeps {} s s'"
  unfolding calc_dep_def by (cases e) (auto dest: calc_expr_keeps)

lemma set_visible_keeps: "keeps {r} s (set_visible r t s)"
proof -
  have "keeps {r} s (upd_sym r (\<lambda>x. x\<lparr>visible := t\<rparr>) s)"
    by (rule keeps_frame, rule frame_upd_sym) (auto simp: erase_sym_def sym_has_value_def)
  then show ?thesis by (auto simp: set_visible_def intro: keeps_trans keeps_prims)
qed

lemma set_dir_dep_keeps: "keeps {r} s (set_dir_dep r t s)"
proof -
  have "keeps {r} s (upd_sym r (\<lambda>x. x\<lparr>dir_dep := (dir_dep x)\<lparr>ev_tri := t\<rparr>\<rparr>) s)"
    by (rule keeps_frame, rule frame_upd_sym) (auto simp: erase_sym_def sym_has_value_def)
  then show ?thesis by (auto simp: set_dir_dep_def intro: keeps_trans keeps_prims)
qed

lemma set_rev_dep_keeps: "keeps {r} s (set_rev_dep r t s)"
proof -
  have "keeps {r} s (upd_sym r (\<lambda>x. x\<lparr>rev_dep := (rev_dep x)\<lparr>ev_tri := t\<rparr>\<rparr>) s)"
    by (rule keeps_frame, rule frame_upd_sym) (auto simp: erase_sym_def sym_has_value_def)
  then show ?thesis by (auto simp: set_rev_dep_def intro: keeps_trans keeps_prims)
qed

lemma visibility_keeps: "sym_calc_visibility calc r s = Some s' \<Longrightarrow> keeps {r} s s'"
  unfolding sym_calc_visibility_def Let_def
  by (auto elim!: bind_SomeE if_SomeE
      dest!: prompts_keeps(1) calc_dep_keeps [THEN keeps_any [where X = "{r}"]];
      (assumption | rule keeps_refl set_visible_keeps [THEN keeps_back]
        set_dir_dep_keeps [THEN keeps_back] set_rev_dep_keeps [THEN keeps_back] | erule keeps_back)+)

lemma visibility_choice_value:
  assumes "sym_calc_visibility calc r s = Some s'" "sym_is_choice_value (k_sym s r)"
  shows "keeps {} s s'"
proof -
  from assms(1) obtain t s1 t' where s1: "calc_prompts calc (prompts_of s r) No s = Some (t, s1)"
    and s': "sym_is_choice_value (k_sym (set_visible r t' s1) r) \<Longrightarrow> s' = set_visible r t' s1"
    unfolding sym_calc_visibility_def Let_def by (auto elim!: bind_SomeE if_SomeE)
  have k1: "keeps {} s s1" using s1 assms(2) by (rule prompts_keeps(2))
  show ?thesis unfolding keeps_def
  proof
    assume wf: "choices_wf s"
    with k1 have f1: "frame {} s s1" by (simp add: keeps_def)
    have cv: "sym_is_choice_value (k_sym s1 r)"
      using assms(2) erase_choice(2) [OF frame_erase [OF f1]] by simp
    then have "sym_is_choice_value (k_sym (set_visible r t' s1) r)"
      by (simp add: set_visible_def sym_is_choice_value_def)
    with s' have e: "s' = set_visible r t' s1" by simp
    have "frame {} s1 (upd_sym r (\<lambda>x. x\<lparr>visible := t'\<rparr>) s1)"
      by (rule frame_upd_sym) (use cv in \<open>auto simp: erase_sym_def sym_has_value_def\<close>)
    then have "frame {} s1 s'" unfolding e set_visible_def by (auto intro: frame_trans frame_set_changed)
    with f1 show "frame {} s s'" by (rule frame_trans)
  qed
qed

lemma choice_default_keeps:
  "choice_default calc ps s = Some (d, s') \<Longrightarrow> (choices_wf s \<Longrightarrow> \<forall>p \<in> set ps. owned r s p) \<Longrightarrow> keeps {r} s s'"
proof (induction ps arbitrary: s)
  case (Cons p ps)
  show ?case
  proof (cases "choices_wf s")
    case True
    from Cons.prems(1) obtain w s1 where p: "prop_calc_visible calc p s = Some (w, s1)"
      and q: "s' = s1 \<or> choice_default calc ps s1 = Some (d, s')"
      by (auto elim!: bind_SomeE if_SomeE)
    have k: "keeps {r} s s1" using prop_calc_visible_keeps(1) [OF p] Cons.prems(2) True by simp
    have "keeps {r} s1 s'"
      using q Cons.IH [of s1] Cons.prems(2) True owned_keeps [OF k True] by auto
    with k show ?thesis by (rule keeps_trans)
  qed (simp add: keeps_def)
qed simp

lemma sym_choice_default_keeps: "sym_choice_default calc r s = Some (d, s') \<Longrightarrow> keeps {r} s s'"
  unfolding sym_choice_default_def
  by (auto elim!: bind_SomeE dest!: choice_default_keeps [OF _ wf_owned_lists(1)] split: option.splits)

lemma choice_visibility_keeps:
  "choice_visibility calc ds fl s = Some (fl', s') \<Longrightarrow> \<forall>d \<in> set ds. sym_is_choice_value (k_sym s d) \<Longrightarrow>
   keeps {} s s'"
proof (induction ds arbitrary: fl s)
  case (Cons d ds)
  then obtain s1 fl1 where s1: "sym_calc_visibility calc d s = Some s1"
    and s': "choice_visibility calc ds fl1 s1 = Some (fl', s')"
    by (auto elim!: bind_SomeE)
  have k: "keeps {} s s1" using s1 Cons.prems(2) by (intro visibility_choice_value [OF s1]) simp
  show ?case unfolding keeps_def
  proof
    assume "choices_wf s"
    with k have f: "frame {} s s1" by (simp add: keeps_def)
    with Cons.IH [OF s'] Cons.prems(2) erase_choice(2) [OF frame_erase [OF f]] have "keeps {} s1 s'" by simp
    with f \<open>choices_wf s\<close> show "frame {} s s'" using frame_trans frame_wf unfolding keeps_def by blast
  qed
qed simp

lemma clear_def_user_keeps:
  "\<not> plain s r \<Longrightarrow> keeps X s (clear_flags r {SYMBOL_DEF S_DEF_USER} s)"
  unfolding clear_flags_def
  by (rule keeps_frame, rule frame_upd_sym, rule erase_sym_flags)
    (auto simp: dyn_flags_def same_deps_def)

lemma choice_reset_keeps:
  "keeps {r} s s' \<Longrightarrow>
   keeps {r} s (if b then upd_sym r (\<lambda>x. x\<lparr>curr := (curr x)\<lparr>tri := No\<rparr>\<rparr>) s' else s')"
  by (cases b) (simp_all, erule keeps_trans, rule keeps_frame, rule frame_upd_curr, simp)

lemma calc_choice_keeps:
  assumes call: "sym_calc_choice calc r s = Some (d, s')"
  shows "keeps {r} s s'"
proof -
  from call obtain ms fl s1 s2 where ms: "choice_members s r = Some ms"
    and s1: "choice_visibility calc ms (flags (k_sym s r)) s = Some (fl, s1)"
    and s2: "s2 = (if SYMBOL_DEF S_DEF_USER \<in> fl then s1 else clear_flags r {SYMBOL_DEF S_DEF_USER} s1)"
    and s': "keeps {r} s2 s'"
    unfolding sym_calc_choice_def Let_def
    by (auto elim!: bind_SomeE if_SomeE dest!: sym_choice_default_keeps
        intro: keeps_refl) (blast intro: choice_reset_keeps)
  show ?thesis unfolding keeps_def
  proof
    assume wf: "choices_wf s"
    with ms have m: "\<forall>d \<in> set ms. sym_is_choice_value (k_sym s d)" "sym_is_choice (k_sym s r)"
      by (auto simp: choices_wf_def)
    from choice_visibility_keeps [OF s1 m(1)] wf have f1: "frame {r} s s1" by (auto simp: keeps_def intro: frame_mono)
    then have "\<not> plain s1 r"
      using m(2) erase_choice(1) [OF frame_erase [OF f1]] by (simp add: plain_def)
    then have "keeps {r} s1 s2" unfolding s2 by (auto intro: clear_def_user_keeps)
    then have "keeps {r} s s'" using f1 s' by (blast intro: keeps_trans keeps_frame)
    with wf show "frame {r} s s'" by (simp add: keeps_def)
  qed
qed

lemma unmet_warning_keeps: "unmet_warning r s = Some s' \<Longrightarrow> keeps X s s'"
  unfolding unmet_warning_def by (auto elim!: bind_SomeE intro: keeps_log)

lemma calc_default_keeps: "calc_default calc p s = Some (v, s') \<Longrightarrow> keeps {} s s'"
  unfolding calc_default_def
  by (auto elim!: bind_SomeE if_SomeE dest!: expr_calc_value_keeps intro: keeps_trans)

lemma set_write_keeps: "keeps X s (set_flags r {SYMBOL_WRITE} s)"
  by (rule keeps_prims) simp

lemma keeps_from_write: "keeps X (set_flags r {SYMBOL_WRITE} s) s' \<Longrightarrow> keeps X s s'"
  using set_write_keeps by (rule keeps_trans)

lemma keeps_to_curr: "keeps {r} s s' \<Longrightarrow> keeps {r} s (upd_sym r (\<lambda>x. x\<lparr>curr := f x\<rparr>) s')"
  by (erule keeps_trans) (simp add: keeps_frame frame_upd_curr)

lemma set_write_if_keeps: "keeps X s (if b then set_flags r {SYMBOL_WRITE} s else s)"
  by (simp add: set_write_keeps)

lemma calc_tri_base_keeps:
  assumes "calc_tri_base calc r t s = Some (v, s')"
  shows "keeps {r} s s'"
proof -
  define s1 where "s1 = (if visible (k_sym s r) \<noteq> No then set_flags r {SYMBOL_WRITE} s else s)"
  define s2 where "s2 = (if ev_tri (rev_dep (k_sym s1 r)) \<noteq> No then set_flags r {SYMBOL_WRITE} s1 else s1)"
  have k: "keeps {r} s s1" "keeps {r} s1 s2" unfolding s1_def s2_def by (rule set_write_if_keeps)+
  from assms have "s' = s1 \<or> keeps {r} s2 s'"
    unfolding calc_tri_base_def Let_def s1_def [symmetric] s2_def [symmetric]
    by (auto elim!: bind_SomeE if_SomeE split: option.split_asm
        dest!: default_prop_keeps calc_default_keeps [THEN keeps_any [where X = "{r}"]] keeps_from_write intro: keeps_trans)
  with k show ?thesis by (blast intro: keeps_trans)
qed

lemma calc_tri_keeps: "calc_tri calc r t s = Some (v, s') \<Longrightarrow> keeps {r} s s'"
  unfolding calc_tri_def
  by (auto elim!: bind_SomeE if_SomeE
      dest!: calc_tri_base_keeps unmet_warning_keeps [where X = "{r}"] intro: keeps_trans)

lemma calc_str_keeps:
  assumes "calc_str calc r v s = Some (w, s')"
  shows "keeps {r} s s'"
proof -
  define s1 where "s1 = (if visible (k_sym s r) \<noteq> No then set_flags r {SYMBOL_WRITE} s else s)"
  have k: "keeps {r} s s1" unfolding s1_def by (rule set_write_if_keeps)
  from assms have "keeps {r} s1 s'"
    unfolding calc_str_def Let_def s1_def [symmetric]
    by (auto elim!: bind_SomeE if_SomeE split: option.split_asm
        dest!: default_prop_keeps calc_keeps [THEN keeps_any [where X = "{r}"]] keeps_from_write) (blast intro: keeps_trans)+
  with k show ?thesis by (rule keeps_trans)
qed

lemma calc_newval_keeps: "calc_newval calc r nv s = Some (nv', s') \<Longrightarrow> keeps {r} s s'"
  unfolding calc_newval_def
  by (auto elim!: bind_SomeE if_SomeE dest!: calc_tri_keeps calc_str_keeps)

lemma prologue_keeps: "calc_prologue calc r s = Some s' \<Longrightarrow> keeps {} s s'"
  unfolding calc_prologue_def Let_def
  by (auto elim!: bind_SomeE if_SomeE dest!: calc_opt_keeps)
    (erule keeps_back, rule keeps_frame, rule frame_clear_flags, simp)

lemma main_keeps:
  assumes "calc_main calc r nv s = Some s'"
  shows "keeps {r} s s'"
proof -
  define s0 where "s0 = (if sym_is_choice_value (k_sym s r) then s else clear_flags r {SYMBOL_WRITE} s)"
  have k0: "keeps {r} s s0" unfolding s0_def by (auto intro: keeps_frame frame_clear_flags)
  from assms obtain s1 nv' s2 s3 where s1: "sym_calc_visibility calc r s0 = Some s1"
    and s2: "calc_newval calc r nv (set_curr r nv s1) = Some (nv', s2)"
    and s3: "(if sym_is_choice (k_sym (set_curr r nv' s2) r) \<and> tri nv' = Yes then do {
            (d, s) \<leftarrow> sym_calc_choice calc r (set_curr r nv' s2);
            Some (upd_sym r (\<lambda>x. x\<lparr>curr := (curr x)\<lparr>val := sym_val d\<rparr>\<rparr>) s)
          } else Some (set_curr r nv' s2)) = Some s3"
    and s': "sym_validate_range calc r s3 = Some s'"
    unfolding calc_main_def s0_def Let_def by (auto elim!: bind_SomeE)
  have c: "keeps {r} x (set_curr r v x)" for x v by (rule keeps_frame, rule frame_set_curr) simp
  have "keeps {r} (set_curr r nv' s2) s3"
    using s3 by (auto elim!: bind_SomeE if_SomeE dest!: calc_choice_keeps intro: keeps_to_curr)
  with k0 visibility_keeps [OF s1] c [of s1 nv] calc_newval_keeps [OF s2] c [of s2 nv']
    validate_range_keeps [OF s']
  show ?thesis by (blast intro: keeps_trans)
qed

end

section \<open>The epilogue\<close>

lemma fold_keeps:
  "(\<And>x s. x \<in> set xs \<Longrightarrow> keeps X s (f x s)) \<Longrightarrow> keeps X s (fold f xs s)"
  by (induction xs arbitrary: s) (auto intro: keeps_trans)

lemma set_changed_keeps: "keeps X s (sym_set_changed r s)"
  by (rule keeps_frame, rule frame_set_changed)

lemma set_all_changed_simps [simp]:
  "k_modules_sym (sym_set_all_changed s) = k_modules_sym s"
proof -
  have "k_modules_sym (fold sym_set_changed rs s) = k_modules_sym s" for rs
    by (induction rs arbitrary: s) simp_all
  then show ?thesis by (simp add: sym_set_all_changed_def)
qed

lemma note_change_keeps: "keeps {r} s (note_change r v s)"
proof -
  have a: "keeps {r} s (sym_set_all_changed s)" for s
    unfolding sym_set_all_changed_def by (rule fold_keeps) (rule set_changed_keeps)
  have m: "keeps {r} s (s\<lparr>k_modules_val := t\<rparr>)" if "k_modules_sym s = Some r" for s t
    using that
    by (auto intro!: keeps_frame simp: frame_def same_modules_def same_props_def has_flag_def same_deps_def erase_def)
  have "keeps {r} s ((sym_set_all_changed (sym_set_changed r s))\<lparr>k_modules_val := t\<rparr>)"
    if "k_modules_sym s = Some r" for t
    using that by (intro m [THEN keeps_back] a [THEN keeps_back] set_changed_keeps) simp
  then show ?thesis
    unfolding note_change_def Let_def by (auto intro: set_changed_keeps)
qed

lemma choice_mark_keeps: "keeps X s (choice_mark r c s)"
proof -
  have w: "keeps X s (set_flags c {SYMBOL_WRITE} s)" by (rule keeps_frame, rule frame_set_flags) simp
  then show ?thesis
    unfolding choice_mark_def Let_def by (auto intro: set_changed_keeps set_changed_keeps [THEN keeps_back])
qed

lemma choice_marks_keeps: "choice_marks r s = Some s' \<Longrightarrow> keeps X s s'"
  unfolding choice_marks_def by (auto elim!: bind_SomeE if_SomeE intro: fold_keeps choice_mark_keeps)

text \<open>
  At the end a choice may give up its validity, so that its values are calculated again.
  \<open>loosens r\<close> is the frame without the promise that \<open>r\<close> stays valid.
\<close>

definition loosens :: "symref \<Rightarrow> kstate \<Rightarrow> kstate \<Rightarrow> bool" where
  "loosens r s s' \<longleftrightarrow> (choices_wf s \<longrightarrow> erase s' = erase s \<and>
     (\<forall>q. needs_set s' q \<longrightarrow> needs_set s q) \<and>
     (\<forall>q. q \<noteq> r \<longrightarrow> is_valid s q \<longrightarrow> is_valid s' q \<and> curr (k_sym s' q) = curr (k_sym s q) \<and>
        (sym_is_choice_value (k_sym s q) \<or> same_deps (k_sym s' q) (k_sym s q))) \<and>
     (\<forall>q. plain s q \<longrightarrow> sdef (k_sym s' q) = sdef (k_sym s q) \<and>
        sym_has_value (k_sym s' q) = sym_has_value (k_sym s q)) \<and>
     same_modules {r} s s' \<and> same_props {r} s s')"

lemma keeps_loosens: "keeps {r} s s' \<Longrightarrow> loosens r s s'"
  by (auto simp: keeps_def frame_def loosens_def)

lemma loosens_trans:
  assumes "loosens r s s'" "loosens r s' s''"
  shows "loosens r s s''"
proof (cases "choices_wf s")
  case wf: True
  with assms(1) have e: "erase s' = erase s" by (simp add: loosens_def)
  with wf have wf': "choices_wf s'" using choices_wf_erase by blast
  have pl: "plain s' q = plain s q" for q by (simp add: plain_def erase_choice(1,2) [OF e])
  note 1 = assms(1) [unfolded loosens_def, rule_format, OF wf]
  note 2 = assms(2) [unfolded loosens_def pl erase_choice(2) [OF e], rule_format, OF wf']
  show ?thesis
    unfolding loosens_def
  proof (intro impI conjI allI)
    show "erase s'' = erase s" using 2 e by simp
    show "needs_set s q" if "needs_set s'' q" for q using 1 2 that by blast
    fix q assume q: "q \<noteq> r" "is_valid s q"
    then have v: "is_valid s' q" using 1 by blast
    show "is_valid s'' q" "curr (k_sym s'' q) = curr (k_sym s q)" using 1 2 q v by auto
    show "sym_is_choice_value (k_sym s q) \<or> same_deps (k_sym s'' q) (k_sym s q)"
      using 1 2 q v unfolding same_deps_def by metis
  next
    fix q assume "plain s q"
    then show "sdef (k_sym s'' q) = sdef (k_sym s q)"
      "sym_has_value (k_sym s'' q) = sym_has_value (k_sym s q)" using 1 2 by auto
  next
    show "same_modules {r} s s''"
      using 1 2 eraseD(4) [OF e] unfolding same_modules_def by (cases "k_modules_sym s") auto
    show "same_props {r} s s''"
      using 1 2 erase_choice(2) [OF e] erase_propD(5) [OF eraseD(2) [OF e]] unfolding same_props_def by auto
  qed
qed (simp add: loosens_def)

lemma loosens_keeps:
  assumes "loosens r s s'" "\<not> is_valid s r"
  shows "keeps {} s s'"
proof -
  have "q \<noteq> r" if "is_valid s q" for q using that assms(2) by auto
  then show ?thesis using assms by (auto simp: loosens_def keeps_def frame_def same_modules_def same_props_def)
qed

lemma fold_unset_modules [simp]:
  "k_modules_val (fold unset_to_no ms s) = k_modules_val s" "k_prop (fold unset_to_no ms s) = k_prop s"
  by (induction ms arbitrary: s) (simp_all add: unset_to_no_def set_def_tri_def)

lemma fold_unset_simps:
  "flags (k_sym (fold unset_to_no ms s) q) = flags (k_sym s q)"
  "curr (k_sym (fold unset_to_no ms s) q) = curr (k_sym s q)"
  "same_deps (k_sym (fold unset_to_no ms s) q) (k_sym s q)"
  "q \<notin> set ms \<Longrightarrow> k_sym (fold unset_to_no ms s) q = k_sym s q"
  "erase (fold unset_to_no ms s) = erase s"
proof (induction ms arbitrary: s)
  case (Cons m ms)
  have e: "erase (unset_to_no m s) = erase s" for s
    unfolding unset_to_no_def set_def_tri_def by (auto intro!: erase_upd_sym simp: erase_sym_def)
  {
    case 1
    show ?case using Cons.IH(1) [of "unset_to_no m s"] by (simp add: unset_to_no_def set_def_tri_def)
  next
    case 2
    show ?case using Cons.IH(2) [of "unset_to_no m s"] by (simp add: unset_to_no_def set_def_tri_def)
  next
    case 3
    show ?case using Cons.IH(3) [of "unset_to_no m s"]
      by (simp add: unset_to_no_def set_def_tri_def same_deps_def)
  next
    case 4
    then show ?case using Cons.IH(4) [of "unset_to_no m s"] by (simp add: unset_to_no_def set_def_tri_def)
  next
    case 5
    show ?case using Cons.IH(5) [of "unset_to_no m s"] e [of s] by simp
  }
qed (simp_all add: same_deps_def)

lemma set_all_choice_values_loosens:
  assumes "set_all_choice_values r s = Some s'"
  shows "loosens r s s'"
proof -
  from assms obtain ms where ms: "choice_members s r = Some ms"
    and s': "s' = clear_flags r {SYMBOL_VALID, SYMBOL_NEED_SET_CHOICE_VALUES}
      (set_flags r {SYMBOL_DEF S_DEF_USER} (fold unset_to_no ms s))"
    unfolding set_all_choice_values_def by (auto simp: Let_def elim!: bind_SomeE)
  have e: "erase s' = erase s"
    unfolding s' by (simp add: erase_clear_flags erase_set_flags dyn_flags_def fold_unset_simps)
  have u: "sdef (k_sym (fold unset_to_no ms s) q) = sdef (k_sym s q)" "q \<noteq> r"
    if "choices_wf s" "plain s q" for q
  proof -
    have "q \<notin> set ms" "q \<noteq> r" using that ms by (auto simp: choices_wf_def plain_def)
    then show "sdef (k_sym (fold unset_to_no ms s) q) = sdef (k_sym s q)" "q \<noteq> r"
      by (simp_all add: fold_unset_simps)
  qed
  then show ?thesis
    using fold_unset_simps(1-3) [of ms s]
    by (auto simp: loosens_def e) (auto simp: s' clear_flags_def set_flags_def has_flag_def same_deps_def
        sym_has_value_def same_modules_def same_props_def split: if_splits)
qed

lemma epilogue_loosens:
  assumes "calc_epilogue r v s = Some s'"
  shows "loosens r s s'"
proof -
  from assms obtain s1 s2 where s1: "choice_marks r (note_change r v s) = Some s1"
    and s2: "s2 = (if has_flag s1 r SYMBOL_AUTO then clear_flags r {SYMBOL_WRITE} s1 else s1)"
    and s': "s' = s2 \<or> set_all_choice_values r s2 = Some s'"
    unfolding calc_epilogue_def Let_def by (auto elim!: bind_SomeE if_SomeE)
  have k: "keeps {r} s1 s2" unfolding s2 by (auto intro: keeps_frame frame_clear_flags)
  have "keeps {r} s s2"
    by (rule keeps_trans [OF note_change_keeps keeps_trans [OF choice_marks_keeps [OF s1] k]])
  then have "loosens r s s2" by (rule keeps_loosens)
  then show ?thesis using s' set_all_choice_values_loosens loosens_trans by blast
qed

section \<open>The evaluator\<close>

context evaluator
begin

lemma step_keeps:
  assumes "sym_calc_step calc r s = Some s'"
  shows "keeps {} s s'"
proof (cases "is_valid s r")
  case True
  with assms show ?thesis by (simp add: sym_calc_step_def)
next
  case False
  with assms obtain s1 where s1: "calc_prologue calc r s = Some s1"
    and s': "(case init_value (set_flags r {SYMBOL_VALID} s1) r of
          None \<Rightarrow> Some (upd_sym r (\<lambda>x. x\<lparr>curr := \<lparr>val = name_val r x, tri = No\<rparr>\<rparr>) (set_flags r {SYMBOL_VALID} s1))
        | Some nv \<Rightarrow> do {
            s2 \<leftarrow> calc_main calc r nv (set_flags r {SYMBOL_VALID} s1);
            calc_epilogue r (curr (k_sym (set_flags r {SYMBOL_VALID} s1) r)) s2
          }) = Some s'"
    unfolding sym_calc_step_def Let_def by (auto elim!: bind_SomeE)
  have p: "loosens r s s1" by (rule keeps_loosens [OF keeps_any [OF prologue_keeps [OF s1]]])
  have v: "loosens r s1 (set_flags r {SYMBOL_VALID} s1)"
    by (rule keeps_loosens, rule keeps_frame, rule frame_set_flags) simp
  have "loosens r (set_flags r {SYMBOL_VALID} s1) s'"
  proof (cases "init_value (set_flags r {SYMBOL_VALID} s1) r")
    case None
    with s' have "s' = upd_sym r (\<lambda>x. x\<lparr>curr := \<lparr>val = name_val r x, tri = No\<rparr>\<rparr>) (set_flags r {SYMBOL_VALID} s1)"
      by simp
    then show ?thesis by (simp only: keeps_loosens [OF keeps_to_curr [OF keeps_refl]])
  next
    case (Some nv)
    with s' obtain s2 where s2: "calc_main calc r nv (set_flags r {SYMBOL_VALID} s1) = Some s2"
      and e: "calc_epilogue r (curr (k_sym (set_flags r {SYMBOL_VALID} s1) r)) s2 = Some s'"
      by (auto elim!: bind_SomeE)
    from keeps_loosens [OF main_keeps [OF s2]] epilogue_loosens [OF e]
    show ?thesis by (rule loosens_trans)
  qed
  with p v have "loosens r s s'" by (blast intro: loosens_trans)
  then show ?thesis using False by (rule loosens_keeps)
qed

end

interpretation ev: evaluator "sym_calc_value n" for n
proof (induction n)
  case 0
  show ?case by unfold_locales simp
next
  case (Suc n)
  show ?case by unfold_locales (simp add: evaluator.step_keeps [OF Suc])
qed

end
