(* ===== verification/Kconfig_Calc_Sem.thy ===== *)
theory Kconfig_Calc_Sem
  imports Kconfig_Calc_Frame
begin

text \<open>
  What evaluation computes.  A state gives every symbol a tristate and a string value
  (\<open>tri_env\<close>, \<open>str_env\<close>); \<open>expr_calc_value\<close> returns the value that \<open>expr_value\<close> assigns to the
  expression in the state it leaves, and \<open>sym_calc_value\<close> makes visibility, dependencies
  and value of a symbol satisfy the equations \<open>spec_visible\<close>, \<open>spec_dir\<close>, \<open>spec_rev\<close> and
  \<open>spec_tri\<close> over these environments.
\<close>

section \<open>The environment of a state\<close>

definition tri_env :: "kstate \<Rightarrow> symref \<Rightarrow> tristate" where
  "tri_env s r = tri (curr (k_sym s r))"

definition modules_on :: "kstate \<Rightarrow> bool" where
  "modules_on s \<longleftrightarrow> (case k_modules_sym s of None \<Rightarrow> False | Some m \<Rightarrow> tri_env s m \<noteq> No)"

definition str_env :: "kstate \<Rightarrow> symref \<Rightarrow> string" where
  "str_env s r =
     (if stype (k_sym s r) = S_BOOLEAN \<or> stype (k_sym s r) = S_TRISTATE then
        (case tri_env s r of No \<Rightarrow> ''n'' | Yes \<Rightarrow> ''y'' | Mod \<Rightarrow> if modules_on s then ''m'' else ''n'')
      else case val (curr (k_sym s r)) of VStr _ str \<Rightarrow> str | _ \<Rightarrow> '''')"

abbreviation state_value :: "kstate \<Rightarrow> expr option \<Rightarrow> tristate" where
  "state_value s e \<equiv> value_opt (tri_env s) (str_env s) e"

definition ready :: "kstate \<Rightarrow> bool" where
  "ready s \<longleftrightarrow> choices_wf s \<and> (\<forall>r. \<not> needs_set s r) \<and>
     (\<forall>m. k_modules_sym s = Some m \<longrightarrow> is_valid s m) \<and> is_valid s Symbol_no \<and> tri_env s Symbol_no = No"

text \<open>The symbols of an expression have all been evaluated.\<close>

definition evaluated :: "kstate \<Rightarrow> expr option \<Rightarrow> bool" where
  "evaluated s e \<longleftrightarrow> (\<forall>r. expr_contains_symbol e r \<longrightarrow> is_valid s r)"

definition free_of :: "symref set \<Rightarrow> kstate \<Rightarrow> expr option \<Rightarrow> bool" where
  "free_of X s e \<longleftrightarrow> (\<forall>r \<in> X. \<not> expr_contains_symbol e r \<and> k_modules_sym s \<noteq> Some r)"

lemma free_of_empty [simp]: "free_of {} s e"
  by (simp add: free_of_def)

lemma readyD:
  assumes "ready s"
  shows "choices_wf s" "\<not> needs_set s r" "k_modules_sym s = Some m \<Longrightarrow> is_valid s m"
  using assms by (auto simp: ready_def)

lemma ready_keeps: "ready s \<Longrightarrow> keeps X s s' \<Longrightarrow> Symbol_no \<notin> X \<Longrightarrow> ready s'"
  unfolding ready_def keeps_def
proof (elim conjE, intro conjI allI impI)
  assume a: "choices_wf s" "\<forall>r. \<not> needs_set s r" "\<forall>m. k_modules_sym s = Some m \<longrightarrow> is_valid s m"
    "is_valid s Symbol_no" "tri_env s Symbol_no = No" "Symbol_no \<notin> X" "choices_wf s \<longrightarrow> frame X s s'"
  then have f: "frame X s s'" by simp
  show "choices_wf s'" using f a(1) by (rule frame_wf)
  show "\<not> needs_set s' r" for r using f a(2) by (auto simp: frame_def)
  show "is_valid s' m" if "k_modules_sym s' = Some m" for m
    using f a(3) that eraseD(4) [OF frame_erase [OF f]] by (auto simp: frame_def)
  show "is_valid s' Symbol_no" using f a(4) by (auto simp: frame_def)
  show "tri_env s' Symbol_no = No" using f a(4-6) by (auto simp: frame_def tri_env_def)
qed

lemma ready_frame: "ready s \<Longrightarrow> keeps X s s' \<Longrightarrow> frame X s s'"
  by (simp add: keeps_def ready_def)

lemma env_stable:
  assumes "ready s" "frame X s s'" "is_valid s r" "r \<notin> X" "\<forall>q \<in> X. k_modules_sym s \<noteq> Some q"
  shows "tri_env s' r = tri_env s r" "str_env s' r = str_env s r"
proof -
  note e = frame_erase [OF assms(2)]
  have c: "curr (k_sym s' r) = curr (k_sym s r)" if "is_valid s r" "r \<notin> X" for r
    using assms(2) that by (simp add: frame_def)
  then have m: "modules_on s' = modules_on s"
    using assms(1,5) eraseD(4) [OF e] by (auto simp: modules_on_def tri_env_def ready_def split: option.splits)
  show "tri_env s' r = tri_env s r" using c assms(3,4) by (simp add: tri_env_def)
  then show "str_env s' r = str_env s r"
    unfolding str_env_def m erase_choice(3) [OF e] using c [OF assms(3,4)] by simp
qed

lemma value_stable:
  assumes "ready s" "frame X s s'" "evaluated s e" "free_of X s e"
  shows "state_value s' e = state_value s e"
proof (cases e)
  case (Some e')
  have "expr_value (tri_env s') (str_env s') e' = expr_value (tri_env s) (str_env s) e'"
  proof (rule value_cong)
    fix r assume r: "expr_contains_symbol (Some e') r"
    have "is_valid s r" "r \<notin> X" "\<forall>q \<in> X. k_modules_sym s \<noteq> Some q"
      using assms(3,4) r Some by (auto simp: evaluated_def free_of_def)
    from env_stable [OF assms(1,2) this] show "tri_env s' r = tri_env s r \<and> str_env s' r = str_env s r" by simp
  qed
  then show ?thesis by (simp add: Some value_opt_def)
qed (simp add: value_opt_def)

lemma evaluated_keeps: "evaluated s e \<Longrightarrow> frame X s s' \<Longrightarrow> evaluated s' e"
  by (auto simp: evaluated_def frame_def)

section \<open>Evaluators that validate\<close>

locale full_evaluator = evaluator +
  assumes calc_valid: "calc r s = Some s' \<Longrightarrow> ready s \<Longrightarrow> is_valid s' r"
begin

lemma ready_calc:
  assumes "calc r s = Some s'" "ready s"
  shows "ready s' \<and> frame {} s s'"
  using ready_keeps [OF assms(2) calc_keeps [OF assms(1)]] ready_frame [OF assms(2) calc_keeps [OF assms(1)]]
  by simp

lemma string_value:
  assumes "sym_get_string_value calc r s = Some (v, s')" "ready s" "is_valid s r"
  shows "v = str_env s' r" "ready s'" "frame {} s s'"
proof -
  have k: "keeps {} s s'" using assms(1) by (rule string_value_keeps)
  then show r: "ready s'" and f: "frame {} s s'" 
    using ready_keeps [OF assms(2) k] ready_frame [OF assms(2) k] by simp_all
  have c: "curr (k_sym s' r) = curr (k_sym s r)" using f assms(3) unfolding frame_def by blast
  have ty: "stype (k_sym s' r) = stype (k_sym s r)" by (rule erase_choice(3) [OF frame_erase [OF f]])
  show "v = str_env s' r"
  proof (cases "stype (k_sym s r) = S_BOOLEAN \<or> stype (k_sym s r) = S_TRISTATE")
    case True
    show ?thesis
    proof (cases "tri (curr (k_sym s r))")
      case Mod
      with True assms(1) obtain m where "k_modules_sym s' = Some m"
        "v = (if tri (curr (k_sym s' m)) = No then ''n'' else ''m'')"
        unfolding sym_get_string_value_def sym_get_tristate_value_def by (auto elim!: bind_SomeE)
      with True Mod show ?thesis by (simp add: str_env_def ty tri_env_def c modules_on_def)
    next
      case No
      with True assms(1) have "v = ''n''"
        by (auto simp: sym_get_string_value_def sym_get_tristate_value_def)
      with True No show ?thesis by (simp add: str_env_def ty tri_env_def c)
    next
      case Yes
      with True assms(1) have "v = ''y''"
        by (auto simp: sym_get_string_value_def sym_get_tristate_value_def)
      with True Yes show ?thesis by (simp add: str_env_def ty tri_env_def c)
    qed
  next
    case False
    with assms(1) obtain str where "cstr (val (curr (k_sym s r))) = Some str" "v = str"
      unfolding sym_get_string_value_def by (auto elim!: bind_SomeE)
    with False show ?thesis by (simp add: str_env_def ty c cstr_def split: cval.splits)
  qed
qed

lemma calc_same_value:
  assumes "calc_same calc a b s = Some (v, s')" "ready s"
  shows "v = (str_env s' a = str_env s' b)" "is_valid s' a" "is_valid s' b" "ready s'" "frame {} s s'"
proof -
  from assms(1) obtain s1 s2 s3 str1 str2 where s1: "calc a s = Some s1" and s2: "calc b s1 = Some s2"
    and s3: "sym_get_string_value calc a s2 = Some (str1, s3)"
    and s4: "sym_get_string_value calc b s3 = Some (str2, s')" and v: "v = (str1 = str2)"
    unfolding calc_same_def by (auto elim!: bind_SomeE)
  note r1 = ready_calc [OF s1 assms(2)]
  then have r2: "ready s2 \<and> frame {} s1 s2" using ready_calc [OF s2] by blast
  have va: "is_valid s2 a" using calc_valid [OF s1 assms(2)] r2 frame_valid by blast
  note r3 = string_value [OF s3 conjunct1 [OF r2] va]
  have vb: "is_valid s3 b" using calc_valid [OF s2] r1 r3(3) frame_valid by blast
  note r4 = string_value [OF s4 r3(2) vb]
  have va3: "is_valid s3 a" using va r3(3) frame_valid by blast
  have "str_env s' a = str_env s3 a" using env_stable(2) [OF r3(2) r4(3) va3] by simp
  then show "v = (str_env s' a = str_env s' b)" using v r3(1) r4(1) by simp
  show "is_valid s' a" "is_valid s' b" using va3 vb r4(3) frame_valid by blast+
  show "ready s'" by (rule r4)
  show "frame {} s s'" using r1 r2 r3(3) r4(3) frame_trans by blast
qed

lemma calc_expr_value:
  "calc_expr calc e s = Some (v, s') \<Longrightarrow> ready s \<Longrightarrow> expr_wf e \<Longrightarrow>
   v = expr_value (tri_env s') (str_env s') e \<and> evaluated s' (Some e) \<and> ready s' \<and> frame {} s s'"
proof (induction e arbitrary: s s' v)
  case (E_SYMBOL r)
  then show ?case using ready_calc calc_valid by (auto simp: tri_env_def evaluated_def elim!: bind_SomeE)
next
  case (E_NOT e)
  then show ?case by (auto simp: evaluated_def elim!: bind_SomeE)
next
  case (E_AND l r)
  then obtain v1 v2 s1 where 1: "calc_expr calc l s = Some (v1, s1)" and 2: "calc_expr calc r s1 = Some (v2, s')"
    and v: "v = EXPR_AND v1 v2" by (auto elim!: bind_SomeE)
  note a = E_AND.IH(1) [OF 1 E_AND.prems(2)]
  note b = E_AND.IH(2) [OF 2]
  show ?case
    using a b v E_AND.prems value_stable [of s1 "{}" s' "Some l"] evaluated_keeps [of s1 "Some l" "{}" s'] frame_trans
    by (auto simp: value_opt_def evaluated_def)
next
  case (E_OR l r)
  then obtain v1 v2 s1 where 1: "calc_expr calc l s = Some (v1, s1)" and 2: "calc_expr calc r s1 = Some (v2, s')"
    and v: "v = EXPR_OR v1 v2" by (auto elim!: bind_SomeE)
  note a = E_OR.IH(1) [OF 1 E_OR.prems(2)]
  note b = E_OR.IH(2) [OF 2]
  show ?case
    using a b v E_OR.prems value_stable [of s1 "{}" s' "Some l"] evaluated_keeps [of s1 "Some l" "{}" s'] frame_trans
    by (auto simp: value_opt_def evaluated_def)
next
  case (E_EQUAL a b)
  then show ?case by (auto simp: evaluated_def dest: calc_same_value elim!: bind_SomeE)
next
  case (E_UNEQUAL a b)
  then show ?case by (auto simp: evaluated_def dest: calc_same_value elim!: bind_SomeE)
qed auto

end

section \<open>Properties of a symbol under evaluation\<close>

definition vis_of :: "kstate \<Rightarrow> nat \<Rightarrow> tristate" where
  "vis_of s p = state_value s (ev_expr (p_visible (k_prop s p)))"

definition opt_wf :: "expr option \<Rightarrow> bool" where
  "opt_wf e = (case e of None \<Rightarrow> True | Some e' \<Rightarrow> expr_wf e')"

text \<open>
  \<open>busy r s\<close>: evaluation of the plain symbol \<open>r\<close> is under way.  \<open>own_prop r s p\<close>: property \<open>p\<close> of \<open>r\<close> has
  a condition that does not mention \<open>r\<close>.  \<open>same_own r s s'\<close>: the value and the dependencies of \<open>r\<close>
  are the same.
\<close>

definition busy :: "symref \<Rightarrow> kstate \<Rightarrow> bool" where
  "busy r s \<longleftrightarrow> ready s \<and> is_valid s r \<and> plain s r \<and> r \<noteq> Symbol_no \<and> k_modules_sym s \<noteq> Some r"

definition own_expr :: "symref \<Rightarrow> kstate \<Rightarrow> expr option \<Rightarrow> bool" where
  "own_expr r s e \<longleftrightarrow> opt_wf e \<and> \<not> expr_contains_symbol e r"

definition own_prop :: "symref \<Rightarrow> kstate \<Rightarrow> nat \<Rightarrow> bool" where
  "own_prop r s p \<longleftrightarrow> owned r s p \<and> own_expr r s (ev_expr (p_visible (k_prop s p)))"

definition same_own :: "symref \<Rightarrow> kstate \<Rightarrow> kstate \<Rightarrow> bool" where
  "same_own r s s' \<longleftrightarrow> curr (k_sym s' r) = curr (k_sym s r) \<and> same_deps (k_sym s' r) (k_sym s r)"

lemma same_own_refl [simp]: "same_own r s s"
  by (simp add: same_own_def same_deps_def)

lemma same_own_trans: "same_own r s s' \<Longrightarrow> same_own r s' s'' \<Longrightarrow> same_own r s s''"
  by (simp add: same_own_def same_deps_def)

lemma busy_frame:
  assumes "busy r s" "frame {r} s s'"
  shows "busy r s'"
proof -
  note e = frame_erase [OF assms(2)]
  have "ready s'" using assms(1) ready_keeps [OF _ keeps_frame [OF assms(2)]] by (auto simp: busy_def)
  then show ?thesis
    using assms erase_choice(1,2) [OF e] eraseD(4) [OF e] frame_valid [OF assms(2)]
    by (simp add: busy_def plain_def)
qed

lemma busy_own: "busy r s \<Longrightarrow> frame {} s s' \<Longrightarrow> same_own r s s'"
  by (auto simp: busy_def frame_def same_own_def plain_def)

lemma own_prop_erase: "erase s' = erase s \<Longrightarrow> own_prop r s' p = own_prop r s p"
  using erase_propD(4,5) [OF eraseD(2) [of s' s p]] by (simp add: own_prop_def owned_def own_expr_def)

lemma vis_of_erase:
  "erase s' = erase s \<Longrightarrow> vis_of s' p = state_value s' (ev_expr (p_visible (k_prop s p)))"
  using erase_propD(4) [OF eraseD(2) [of s' s p]] by (simp add: vis_of_def)

context full_evaluator
begin

text \<open>The value of an expression that does not mention \<open>r\<close> is still the same at any later time.\<close>

lemma busy_value:
  assumes "expr_calc_value calc e s = Some (v, s')" "busy r s" "own_expr r s e"
  shows "frame {} s s'" "same_own r s s'" "busy r s'" "\<forall>s''. frame {r} s' s'' \<longrightarrow> state_value s'' e = v"
proof -
  have "v = state_value s' e \<and> evaluated s' e \<and> ready s' \<and> frame {} s s'"
  proof (cases e)
    case None
    then show ?thesis using assms(1,2) by (simp add: expr_calc_value_def value_opt_def evaluated_def busy_def)
  next
    case (Some e')
    then show ?thesis
      using assms calc_expr_value [of e' s v s']
      by (simp add: expr_calc_value_def value_opt_def own_expr_def opt_wf_def busy_def)
  qed
  then have a: "v = state_value s' e" "evaluated s' e" "ready s'" "frame {} s s'" by blast+
  show "frame {} s s'" by (rule a)
  show "same_own r s s'" using busy_own assms(2) a(4) by blast
  show b: "busy r s'" using busy_frame [OF assms(2) frame_mono [OF a(4)]] by simp
  then have "free_of {r} s' e" using assms(3) by (simp add: free_of_def own_expr_def busy_def)
  then show "\<forall>s''. frame {r} s' s'' \<longrightarrow> state_value s'' e = v"
    using value_stable [OF a(3) _ a(2)] a(1) by blast
qed

lemma busy_visible:
  assumes "prop_calc_visible calc p s = Some (v, s')" "busy r s" "own_prop r s p"
  shows "frame {r} s s'" "same_own r s s'" "busy r s'" "ev_tri (p_visible (k_prop s' p)) = v"
    "\<forall>s''. frame {r} s' s'' \<longrightarrow> vis_of s'' p = v"
proof -
  from assms(1) obtain s1 where s1: "expr_calc_value calc (ev_expr (p_visible (k_prop s p))) s = Some (v, s1)"
    and s': "s' = set_prop_tri p v s1"
    unfolding prop_calc_visible_def by (auto simp: set_prop_tri_def elim!: bind_SomeE)
  note b = busy_value [OF s1 assms(2)]
  have own: "own_expr r s (ev_expr (p_visible (k_prop s p)))" "owned r s p" using assms(3) by (auto simp: own_prop_def)
  have wf: "choices_wf s" using assms(2) by (simp add: busy_def ready_def)
  show f: "frame {r} s s'"
    using prop_calc_visible_keeps(1) [OF assms(1) own(2)] wf by (simp add: keeps_def)
  show "busy r s'" using busy_frame assms(2) f by blast
  show "same_own r s s'" using b(2) [OF own(1)] by (simp add: s' same_own_def same_deps_def)
  show "ev_tri (p_visible (k_prop s' p)) = v" by (simp add: s')
  have e1: "erase s1 = erase s" using b(1) [OF own(1)] by (rule frame_erase)
  have "frame {r} s1 s'"
    using keeps_set_prop_tri [of r s1 p v] own(2) erase_propD(5) [OF eraseD(2) [OF e1]] wf choices_wf_erase [OF e1]
    by (simp add: keeps_def s' owned_def)
  then have "frame {r} s1 s''" if "frame {r} s' s''" for s'' using that frame_trans by blast
  then show "\<forall>s''. frame {r} s' s'' \<longrightarrow> vis_of s'' p = v"
    using b(4) [OF own(1)] vis_of_erase [of _ s p] frame_erase f by (metis (no_types, lifting))
qed

lemma busy_prompts:
  "calc_prompts calc ps t s = Some (v, s') \<Longrightarrow> busy r s \<Longrightarrow> \<forall>p \<in> set ps. own_prop r s p \<Longrightarrow>
   frame {r} s s' \<and> same_own r s s' \<and> busy r s' \<and>
   (\<forall>s''. frame {r} s' s'' \<longrightarrow> fold (\<lambda>p t. EXPR_OR t (vis_of s'' p)) ps t = v)"
proof (induction ps arbitrary: s t)
  case (Cons p ps)
  from Cons.prems(1) obtain w s1 where p: "prop_calc_visible calc p s = Some (w, s1)"
    and q: "calc_prompts calc ps (EXPR_OR t w) s1 = Some (v, s')"
    by (auto elim!: bind_SomeE)
  note b = busy_visible [OF p Cons.prems(2)]
  have own: "own_prop r s p" using Cons.prems(3) by simp
  have "\<forall>p \<in> set ps. own_prop r s1 p"
    using Cons.prems(3) own_prop_erase [OF frame_erase [OF b(1) [OF own]]] by simp
  note c = Cons.IH [OF q b(3) [OF own] this]
  have "fold (\<lambda>p t. EXPR_OR t (vis_of s'' p)) (p # ps) t = v" if "frame {r} s' s''" for s''
    using b(5) [OF own] c that frame_trans [of "{r}" s1 s' s''] by simp
  with b [OF own] c show ?case using frame_trans same_own_trans by blast
qed simp

lemma busy_first:
  "first_visible calc ps s = Some (q, s') \<Longrightarrow> busy r s \<Longrightarrow> \<forall>p \<in> set ps. own_prop r s p \<Longrightarrow>
   frame {r} s s' \<and> same_own r s s' \<and> busy r s' \<and>
   (\<forall>s''. frame {r} s' s'' \<longrightarrow> find (\<lambda>p. vis_of s'' p \<noteq> No) ps = q) \<and>
   (\<forall>p s''. q = Some p \<longrightarrow> frame {r} s' s'' \<longrightarrow> vis_of s'' p = ev_tri (p_visible (k_prop s' p)))"
proof (induction ps arbitrary: s)
  case (Cons p ps)
  from Cons.prems(1) obtain w s1 where p: "prop_calc_visible calc p s = Some (w, s1)"
    and q: "(if w \<noteq> No then Some (Some p, s1) else first_visible calc ps s1) = Some (q, s')"
    by (auto elim!: bind_SomeE)
  have own: "own_prop r s p" using Cons.prems(3) by simp
  note b = busy_visible [OF p Cons.prems(2) own]
  show ?case
  proof (cases "w = No")
    case True
    have "\<forall>p \<in> set ps. own_prop r s1 p"
      using Cons.prems(3) own_prop_erase [OF frame_erase [OF b(1)]] by simp
    with q True have c: "frame {r} s1 s' \<and> same_own r s1 s' \<and> busy r s' \<and>
       (\<forall>s''. frame {r} s' s'' \<longrightarrow> find (\<lambda>p. vis_of s'' p \<noteq> No) ps = q) \<and>
       (\<forall>p s''. q = Some p \<longrightarrow> frame {r} s' s'' \<longrightarrow> vis_of s'' p = ev_tri (p_visible (k_prop s' p)))"
      using Cons.IH [of s1] b(3) by simp
    have "find (\<lambda>p. vis_of s'' p \<noteq> No) (p # ps) = q" if "frame {r} s' s''" for s''
      using b(5) c that True frame_trans [of "{r}" s1 s' s''] by simp
    with b c show ?thesis using frame_trans same_own_trans by blast
  next
    case False
    with q b show ?thesis by auto
  qed
qed simp

end

section \<open>The equations of a plain symbol\<close>

definition spec_visible :: "kstate \<Rightarrow> symref \<Rightarrow> tristate" where
  "spec_visible s r =
     (let t = fold (\<lambda>p t. EXPR_OR t (vis_of s p)) (prompts_of s r) No
      in if t = Mod \<and> (stype (k_sym s r) \<noteq> S_TRISTATE \<or> k_modules_val s = No) then Yes else t)"

definition spec_dir :: "kstate \<Rightarrow> symref \<Rightarrow> tristate" where
  "spec_dir s r = (case ev_expr (dir_dep (k_sym s r)) of
     None \<Rightarrow> Yes
   | Some e \<Rightarrow> let t = state_value s (Some e) in if t = Mod then Yes else t)"

definition spec_rev :: "kstate \<Rightarrow> symref \<Rightarrow> tristate" where
  "spec_rev s r = (case ev_expr (rev_dep (k_sym s r)) of
     None \<Rightarrow> No
   | Some e \<Rightarrow> let t = state_value s (Some e) in if t = Mod \<and> sym_get_type s r = S_BOOLEAN then Yes else t)"

definition spec_base :: "kstate \<Rightarrow> symref \<Rightarrow> tristate" where
  "spec_base s r =
     (let x = k_sym s r
      in if visible x \<noteq> No \<and> sym_has_value x then EXPR_AND (tri (sdef x S_DEF_USER)) (visible x)
         else case find (\<lambda>p. vis_of s p \<noteq> No) (props_of s r P_DEFAULT) of
           None \<Rightarrow> No
         | Some p \<Rightarrow> EXPR_AND (state_value s (p_expr (k_prop s p))) (vis_of s p))"

definition spec_tri :: "kstate \<Rightarrow> symref \<Rightarrow> tristate" where
  "spec_tri s r =
     (let t = EXPR_OR (spec_base s r) (ev_tri (rev_dep (k_sym s r)))
      in if t = Mod \<and> sym_get_type s r = S_BOOLEAN then Yes else t)"

definition self_free :: "symref \<Rightarrow> kstate \<Rightarrow> bool" where
  "self_free r s \<longleftrightarrow> (\<forall>p \<in> set (props (k_sym s r)). own_prop r s p \<and>
       (p_type (k_prop s p) = P_DEFAULT \<longrightarrow> own_expr r s (p_expr (k_prop s p)))) \<and>
     own_expr r s (ev_expr (dir_dep (k_sym s r))) \<and> own_expr r s (ev_expr (rev_dep (k_sym s r)))"

lemma self_free_erase:
  assumes "erase s' = erase s"
  shows "self_free r s' = self_free r s"
  unfolding self_free_def own_prop_def owned_def own_expr_def erase_symD(3-5) [OF eraseD(1) [OF assms]]
    erase_propD [OF eraseD(2) [OF assms]] ..

lemma self_free_lists:
  assumes "self_free r s"
  shows "\<forall>p \<in> set (prompts_of s r). own_prop r s p" "\<forall>p \<in> set (props_of s r t). own_prop r s p"
    "\<forall>p \<in> set (props_of s r P_DEFAULT). own_expr r s (p_expr (k_prop s p))"
  using assms by (auto simp: self_free_def prompts_of_def props_of_def)

lemma busy_modules: "busy r s \<Longrightarrow> frame {r} s s' \<Longrightarrow> k_modules_val s' = k_modules_val s"
  by (auto simp: busy_def ready_def frame_def same_modules_def)

lemma busy_type:
  assumes "busy r s" "frame {r} s s'"
  shows "sym_get_type s' r = sym_get_type s r"
  using assms erase_choice(2,3) [OF frame_erase [OF assms(2)]] busy_modules [OF assms]
  by (simp add: sym_get_type_def busy_def plain_def)

lemma set_dep_simps [simp]:
  "visible (k_sym (set_visible r t s) r) = t" "dir_dep (k_sym (set_visible r t s) r) = dir_dep (k_sym s r)"
  "rev_dep (k_sym (set_visible r t s) r) = rev_dep (k_sym s r)"
  "visible (k_sym (set_dir_dep r t s) r) = visible (k_sym s r)"
  "dir_dep (k_sym (set_dir_dep r t s) r) = (dir_dep (k_sym s r))\<lparr>ev_tri := t\<rparr>"
  "rev_dep (k_sym (set_dir_dep r t s) r) = rev_dep (k_sym s r)"
  "visible (k_sym (set_rev_dep r t s) r) = visible (k_sym s r)"
  "dir_dep (k_sym (set_rev_dep r t s) r) = dir_dep (k_sym s r)"
  "rev_dep (k_sym (set_rev_dep r t s) r) = (rev_dep (k_sym s r))\<lparr>ev_tri := t\<rparr>"
  by (auto simp: set_visible_def set_dir_dep_def set_rev_dep_def)

context full_evaluator
begin

lemma set_frames:
  assumes "busy r s"
  shows "frame {r} s (set_visible r t s)" "frame {r} s (set_dir_dep r t s)" "frame {r} s (set_rev_dep r t s)"
  using assms ready_frame set_visible_keeps set_dir_dep_keeps set_rev_dep_keeps by (simp_all add: busy_def)

lemma busy_dep:
  assumes "calc_dep calc d e s = Some (v, s')" "busy r s" "own_expr r s e"
  shows "frame {r} s s'" "same_own r s s'" "busy r s'"
    "\<forall>s''. frame {r} s' s'' \<longrightarrow> v = (case e of None \<Rightarrow> d | Some e' \<Rightarrow> state_value s'' (Some e'))"
proof -
  have "frame {r} s s' \<and> same_own r s s' \<and> busy r s' \<and>
    (\<forall>s''. frame {r} s' s'' \<longrightarrow> v = (case e of None \<Rightarrow> d | Some e' \<Rightarrow> state_value s'' (Some e')))"
  proof (cases e)
    case None
    with assms show ?thesis by (simp add: calc_dep_def)
  next
    case (Some e')
    with assms(1) have "expr_calc_value calc e s = Some (v, s')" by (simp add: calc_dep_def expr_calc_value_def)
    from busy_value [OF this assms(2,3)] Some show ?thesis by (auto intro: frame_mono)
  qed
  then show "frame {r} s s'" "same_own r s s'" "busy r s'"
    "\<forall>s''. frame {r} s' s'' \<longrightarrow> v = (case e of None \<Rightarrow> d | Some e' \<Rightarrow> state_value s'' (Some e'))"
    by blast+
qed

lemma busy_visibility:
  assumes "sym_calc_visibility calc r s = Some s'" "busy r s" "self_free r s"
  shows "frame {r} s s'" "busy r s'"
    "\<forall>s''. frame {r} s' s'' \<longrightarrow> visible (k_sym s' r) = spec_visible s'' r \<and>
       ev_tri (dir_dep (k_sym s' r)) = spec_dir s'' r \<and> ev_tri (rev_dep (k_sym s' r)) = spec_rev s'' r"
proof -
  from assms(1) obtain t s1 where 1: "calc_prompts calc (prompts_of s r) No s = Some (t, s1)"
    by (auto simp: sym_calc_visibility_def elim!: bind_SomeE)
  define t1 where "t1 = (if t = Mod \<and> (stype (k_sym s1 r) \<noteq> S_TRISTATE \<or> k_modules_val s1 = No) then Yes else t)"
  define s2 where "s2 = set_visible r t1 s1"
  note b1 = busy_prompts [OF 1 assms(2) self_free_lists(1) [OF assms(3)]]
  have f2: "frame {r} s1 s2" using b1 set_frames(1) by (simp add: s2_def)
  then have b2: "busy r s2" using b1 busy_frame by blast
  then have "\<not> sym_is_choice_value (k_sym s2 r)" by (simp add: busy_def plain_def)
  with assms(1) 1 obtain t3 s3 t4 s5 where 3: "calc_dep calc Yes (ev_expr (dir_dep (k_sym s2 r))) s2 = Some (t3, s3)"
    and 5: "calc_dep calc No (ev_expr (rev_dep (k_sym (set_dir_dep r (if t3 = Mod then Yes else t3) s3) r)))
      (set_dir_dep r (if t3 = Mod then Yes else t3) s3) = Some (t4, s5)"
    and s': "s' = set_rev_dep r (if t4 = Mod \<and> sym_get_type s5 r = S_BOOLEAN then Yes else t4) s5"
    unfolding sym_calc_visibility_def Let_def 1 t1_def s2_def by (auto elim!: bind_SomeE)
  define s4 where "s4 = set_dir_dep r (if t3 = Mod then Yes else t3) s3"
  note 5 = 5 [folded s4_def]
  have e2: "erase s2 = erase s" using frame_erase f2 b1 by metis
  have sf: "self_free r s2" using assms(3) self_free_erase [OF e2] by simp
  then have o3: "own_expr r s2 (ev_expr (dir_dep (k_sym s2 r)))" by (simp add: self_free_def)
  note b3 = busy_dep [OF 3 b2 o3]
  have f4: "frame {r} s3 s4" using b3(3) set_frames(2) by (simp add: s4_def)
  then have b4: "busy r s4" using b3(3) busy_frame by blast
  have f24: "frame {r} s2 s4" using b3(1) f4 frame_trans by blast
  have "self_free r s4" using sf self_free_erase [OF frame_erase [OF f24]] by simp
  then have o5: "own_expr r s4 (ev_expr (rev_dep (k_sym s4 r)))" by (simp add: self_free_def)
  note b5 = busy_dep [OF 5 b4 o5]
  have f': "frame {r} s5 s'" using b5(3) set_frames(3) by (simp add: s')
  have f2': "frame {r} s2 s'" "frame {r} s3 s'" "frame {r} s5 s'" using f24 b5(1) f' f4 frame_trans by blast+
  then show f: "frame {r} s s'" using b1 f2 frame_trans by blast
  then show "busy r s'" using assms(2) busy_frame by blast
  have d: "visible (k_sym s' r) = t1" "ev_tri (dir_dep (k_sym s' r)) = (if t3 = Mod then Yes else t3)"
    "ev_tri (rev_dep (k_sym s' r)) = (if t4 = Mod \<and> sym_get_type s5 r = S_BOOLEAN then Yes else t4)"
    using b3(2) b5(2) by (simp_all add: s' s4_def s2_def same_own_def same_deps_def)
  show "\<forall>s''. frame {r} s' s'' \<longrightarrow> visible (k_sym s' r) = spec_visible s'' r \<and>
       ev_tri (dir_dep (k_sym s' r)) = spec_dir s'' r \<and> ev_tri (rev_dep (k_sym s' r)) = spec_rev s'' r"
  proof (intro allI impI)
    fix s'' assume l: "frame {r} s' s''"
    have l1: "frame {r} s1 s''" "frame {r} s3 s''" "frame {r} s5 s''" "frame {r} s s''"
      using l f f2' f2 frame_trans by blast+
    have "visible (k_sym s' r) = spec_visible s'' r"
      using b1 l1(1) busy_modules [of r s1 s''] erase_choice(3,7) [OF frame_erase [OF l1(1)]]
        erase_choice(7) [OF frame_erase [OF l1(4)]]
      by (simp add: d(1) spec_visible_def t1_def)
    moreover have "ev_tri (dir_dep (k_sym s' r)) = spec_dir s'' r"
      using b3(4) l1(2) erase_symD(4) [OF eraseD(1) [OF frame_erase [OF frame_trans [OF f2'(1) l]]], of r]
      by (simp add: d(2) spec_dir_def Let_def split: option.split)
    moreover have "ev_tri (rev_dep (k_sym s' r)) = spec_rev s'' r"
      using b5(4) l1(3) busy_type [OF b5(3) l1(3)]
        erase_symD(5) [OF eraseD(1) [OF frame_erase [OF frame_trans [OF b5(1) l1(3)]]], of r]
      by (simp add: d(3) spec_rev_def Let_def split: option.split)
    ultimately show "visible (k_sym s' r) = spec_visible s'' r \<and>
       ev_tri (dir_dep (k_sym s' r)) = spec_dir s'' r \<and> ev_tri (rev_dep (k_sym s' r)) = spec_rev s'' r" by blast
  qed
qed

end

lemma set_flags_simps [simp]:
  "curr (k_sym (set_flags r fs s) q) = curr (k_sym s q)" "visible (k_sym (set_flags r fs s) q) = visible (k_sym s q)"
  "dir_dep (k_sym (set_flags r fs s) q) = dir_dep (k_sym s q)" "rev_dep (k_sym (set_flags r fs s) q) = rev_dep (k_sym s q)"
  "sdef (k_sym (set_flags r fs s) q) = sdef (k_sym s q)" "k_prop (set_flags r fs s) = k_prop s"
  "stype (k_sym (set_flags r fs s) q) = stype (k_sym s q)"
  by (simp_all add: set_flags_def)

lemma find_SomeD: "find P xs = Some x \<Longrightarrow> x \<in> set xs \<and> P x"
  by (induction xs) (auto split: if_splits)

context full_evaluator
begin

lemma busy_write:
  assumes "busy r s"
  shows "frame {r} s (set_flags r {SYMBOL_WRITE} s)" "same_own r s (set_flags r {SYMBOL_WRITE} s)"
    "busy r (set_flags r {SYMBOL_WRITE} s)"
proof -
  show f: "frame {r} s (set_flags r {SYMBOL_WRITE} s)" by (rule frame_set_flags) simp
  then show "busy r (set_flags r {SYMBOL_WRITE} s)" using assms busy_frame by blast
  show "same_own r s (set_flags r {SYMBOL_WRITE} s)" by (simp add: same_own_def same_deps_def)
qed

lemma busy_default:
  assumes "calc_default calc p s = Some (v, s')" "busy r s" "owned r s p" "own_expr r s (p_expr (k_prop s p))"
  shows "frame {r} s s'" "same_own r s s'" "busy r s'"
    "\<forall>s''. frame {r} s' s'' \<longrightarrow>
       v = EXPR_AND (state_value s'' (p_expr (k_prop s'' p))) (ev_tri (p_visible (k_prop s p)))"
proof -
  from assms(1) obtain v1 s1 where 1: "expr_calc_value calc (p_expr (k_prop s p)) s = Some (v1, s1)"
    and 2: "(if v1 < ev_tri (p_visible (k_prop s1 p)) then expr_calc_value calc (p_expr (k_prop s1 p)) s1
      else Some (ev_tri (p_visible (k_prop s1 p)), s1)) = Some (v, s')"
    unfolding calc_default_def by (auto elim!: bind_SomeE)
  note b1 = busy_value [OF 1 assms(2,4)]
  have p1: "k_prop s1 p = k_prop s p"
    using b1(1) assms(2,3) by (auto simp: frame_def same_props_def busy_def plain_def owned_def)
  have o1: "own_expr r s1 (p_expr (k_prop s1 p))" using assms(4) p1 by (simp add: own_expr_def)
  have b2: "frame {} s1 s' \<and> same_own r s1 s' \<and> busy r s' \<and>
      (v1 < ev_tri (p_visible (k_prop s p)) \<longrightarrow> (\<forall>s''. frame {r} s' s'' \<longrightarrow> state_value s'' (p_expr (k_prop s p)) = v)) \<and>
      (\<not> v1 < ev_tri (p_visible (k_prop s p)) \<longrightarrow> v = ev_tri (p_visible (k_prop s p)))"
    using 2 p1 busy_value [of "p_expr (k_prop s1 p)" s1 v s' r] b1(3) o1 by (auto elim!: if_SomeE)
  then show "frame {r} s s'" using b1(1) frame_trans frame_mono by blast
  show "same_own r s s'" "busy r s'" using b1(2) b2 same_own_trans by blast+
  show "\<forall>s''. frame {r} s' s'' \<longrightarrow>
       v = EXPR_AND (state_value s'' (p_expr (k_prop s'' p))) (ev_tri (p_visible (k_prop s p)))"
  proof (intro allI impI)
    fix s'' assume l: "frame {r} s' s''"
    have l1: "frame {r} s1 s''" using b2 l frame_trans frame_mono by blast
    have e: "p_expr (k_prop s'' p) = p_expr (k_prop s p)"
      using erase_propD(3) [OF eraseD(2) [OF frame_erase [OF l1]]] p1 by simp
    have "state_value s'' (p_expr (k_prop s p)) = v1" using b1(4) l1 by blast
    then show "v = EXPR_AND (state_value s'' (p_expr (k_prop s'' p))) (ev_tri (p_visible (k_prop s p)))"
      using b2 l unfolding e EXPR_AND_def by auto
  qed
qed

lemma busy_write_if:
  assumes "busy r s"
  shows "frame {r} s (if c then set_flags r {SYMBOL_WRITE} s else s) \<and>
    same_own r s (if c then set_flags r {SYMBOL_WRITE} s else s) \<and>
    busy r (if c then set_flags r {SYMBOL_WRITE} s else s)"
  using assms busy_write by simp

lemma busy_defaults:
  assumes "(case x of (pr, s2) \<Rightarrow> (case pr of None \<Rightarrow> Some (No, s2)
      | Some p \<Rightarrow> calc_default calc p (set_flags r {SYMBOL_WRITE} s2))) = Some (v, s')"
    and "sym_get_default_prop calc r s = Some x" "busy r s" "self_free r s"
  shows "frame {r} s s' \<and> same_own r s s' \<and> busy r s' \<and>
    (\<forall>s''. frame {r} s' s'' \<longrightarrow> v = (case find (\<lambda>p. vis_of s'' p \<noteq> No) (props_of s'' r P_DEFAULT) of
           None \<Rightarrow> No
         | Some p \<Rightarrow> EXPR_AND (state_value s'' (p_expr (k_prop s'' p))) (vis_of s'' p)))"
proof -
  obtain pr s2 where x: "x = (pr, s2)" by (cases x)
  from assms(2) have "first_visible calc (props_of s r P_DEFAULT) s = Some (pr, s2)"
    by (simp add: x sym_get_default_prop_def)
  note b = busy_first [OF this assms(3) self_free_lists(2) [OF assms(4)]]
  have po: "props_of s'' r P_DEFAULT = props_of s r P_DEFAULT" if "frame {r} s2 s''" for s''
    using b that erase_choice(6) [of s'' s] frame_erase by metis
  show ?thesis
  proof (cases pr)
    case None
    with assms(1) b po show ?thesis by (simp add: x)
  next
    case (Some p)
    define s3 where "s3 = set_flags r {SYMBOL_WRITE} s2"
    have d: "calc_default calc p s3 = Some (v, s')" using assms(1) by (simp add: x Some s3_def)
    have f3: "frame {r} s2 s3" "same_own r s2 s3" "busy r s3" using b busy_write by (simp_all add: s3_def)
    have p: "p \<in> set (props_of s r P_DEFAULT)" using b Some find_SomeD by (metis frame_refl)
    have f03: "frame {r} s s3" using b f3(1) frame_trans by blast
    note e = erase_propD [OF eraseD(2) [OF frame_erase [OF f03]], of p]
    have "owned r s3 p" "own_expr r s3 (p_expr (k_prop s3 p))"
      using self_free_lists(2,3) [OF assms(4)] p e(3,5) by (auto simp: own_prop_def owned_def own_expr_def)
    note c = busy_default [OF d f3(3) this]
    have l: "v = (case find (\<lambda>p. vis_of s'' p \<noteq> No) (props_of s'' r P_DEFAULT) of
           None \<Rightarrow> No
         | Some p \<Rightarrow> EXPR_AND (state_value s'' (p_expr (k_prop s'' p))) (vis_of s'' p))"
      if l: "frame {r} s' s''" for s''
    proof -
      have l2: "frame {r} s2 s''" using f3(1) c(1) l frame_trans by blast
      have "find (\<lambda>p. vis_of s'' p \<noteq> No) (props_of s'' r P_DEFAULT) = Some p"
        "vis_of s'' p = ev_tri (p_visible (k_prop s3 p))"
        using b l2 Some po [OF l2] by (auto simp: s3_def)
      then show ?thesis using c(4) l by simp
    qed
    have "frame {r} s s'" using f03 c(1) by (rule frame_trans)
    moreover have "same_own r s s'" using b f3(2) c(2) same_own_trans by blast
    ultimately show ?thesis using c(3) l by simp
  qed
qed

lemma busy_tri_base:
  assumes "calc_tri_base calc r No s = Some (v, s')" "busy r s" "self_free r s"
  shows "frame {r} s s' \<and> same_own r s s' \<and> busy r s' \<and>
    (\<forall>s''. frame {r} s' s'' \<longrightarrow> same_deps (k_sym s'' r) (k_sym s' r) \<longrightarrow> v = spec_base s'' r)"
proof -
  define s1 where "s1 = (if visible (k_sym s r) \<noteq> No then set_flags r {SYMBOL_WRITE} s else s)"
  define s2 where "s2 = (if ev_tri (rev_dep (k_sym s1 r)) \<noteq> No then set_flags r {SYMBOL_WRITE} s1 else s1)"
  have b1: "frame {r} s s1 \<and> same_own r s s1 \<and> busy r s1" using busy_write_if [OF assms(2)] by (simp add: s1_def)
  then have b2: "frame {r} s1 s2 \<and> same_own r s1 s2 \<and> busy r s2" using busy_write_if by (simp add: s2_def)
  note eq = assms(1) [unfolded calc_tri_base_def Let_def, folded s1_def, folded s2_def]
  have pl: "plain s1 r" "plain s2 r" using b1 b2 by (auto simp: busy_def)
  have hv: "sdef (k_sym s'' r) = sdef (k_sym s1 r) \<and> sym_has_value (k_sym s'' r) = sym_has_value (k_sym s1 r)"
    if "frame {r} s1 s''" for s'' using that pl by (simp add: frame_def)
  show ?thesis
  proof (cases "visible (k_sym s1 r) \<noteq> No \<and> sym_has_value (k_sym s1 r)")
    case True
    with eq have s': "s' = s1" and v: "v = EXPR_AND (tri (sdef (k_sym s1 r) S_DEF_USER)) (visible (k_sym s1 r))"
      by (auto simp add: def_user_def)
    have "v = spec_base s'' r" if "frame {r} s1 s''" "same_deps (k_sym s'' r) (k_sym s1 r)" for s''
      using hv [OF that(1)] that(2) True v by (simp add: spec_base_def same_deps_def)
    with b1 show ?thesis unfolding s' by blast
  next
    case False
    have nc: "\<not> sym_is_choice (k_sym s2 r)" using pl by (simp add: plain_def)
    from eq False nc obtain x where x: "sym_get_default_prop calc r s2 = Some x"
      and d: "(case x of (prop, s2) \<Rightarrow> (case prop of None \<Rightarrow> Some (No, s2)
      | Some p \<Rightarrow> calc_default calc p (set_flags r {SYMBOL_WRITE} s2))) = Some (v, s')"
      by (auto elim!: bind_SomeE)
    have "frame {r} s s2" using b1 b2 frame_trans by blast
    then have "self_free r s2" using assms(3) self_free_erase frame_erase by metis
    note c = busy_defaults [OF d x conjunct2 [OF conjunct2 [OF b2]] this]
    have "v = spec_base s'' r" if "frame {r} s' s''" "same_deps (k_sym s'' r) (k_sym s' r)" for s''
    proof -
      have "frame {r} s1 s''" using b2 c that(1) frame_trans by blast
      note h = hv [OF this]
      have "visible (k_sym s'' r) = visible (k_sym s1 r)"
        using b2 c that(2) by (simp add: same_own_def same_deps_def)
      then show ?thesis using False h c that(1) by (auto simp: spec_base_def Let_def)
    qed
    with b1 b2 c show ?thesis using frame_trans same_own_trans by blast
  qed
qed

lemma busy_tri:
  assumes "calc_tri calc r No s = Some (v, s')" "busy r s" "self_free r s"
  shows "frame {r} s s' \<and> same_own r s s' \<and> busy r s' \<and>
    (\<forall>s''. frame {r} s' s'' \<longrightarrow> same_deps (k_sym s'' r) (k_sym s' r) \<longrightarrow> v = spec_tri s'' r)"
proof -
  have "\<not> sym_is_choice_value (k_sym s r)" using assms(2) by (simp add: busy_def plain_def)
  with assms(1) obtain t s1 where 1: "calc_tri_base calc r No s = Some (t, s1)"
    and 2: "(if ev_tri (dir_dep (k_sym s1 r)) = No \<and> ev_tri (rev_dep (k_sym s1 r)) \<noteq> No
               then unmet_warning r s1 else Some s1) = Some s'"
    and v: "v = (if EXPR_OR t (ev_tri (rev_dep (k_sym s' r))) = Mod \<and> sym_get_type s' r = S_BOOLEAN then Yes
      else EXPR_OR t (ev_tri (rev_dep (k_sym s' r))))"
    unfolding calc_tri_def by (auto elim!: bind_SomeE)
  note b = busy_tri_base [OF 1 assms(2,3)]
  have w: "frame {r} s1 s' \<and> k_sym s' = k_sym s1"
    using 2 by (auto simp: unmet_warning_def intro!: frame_same_syms elim!: if_SomeE bind_SomeE)
  then have b': "busy r s'" using b busy_frame by blast
  have "v = spec_tri s'' r" if l: "frame {r} s' s''" "same_deps (k_sym s'' r) (k_sym s' r)" for s''
  proof -
    have "frame {r} s1 s''" using w l(1) frame_trans by blast
    then have "t = spec_base s'' r" using b l(2) w by simp
    then show ?thesis using v busy_type [OF b' l(1)] l(2) by (simp add: spec_tri_def same_deps_def Let_def)
  qed
  moreover have "same_own r s s'" using b w by (simp add: same_own_def)
  ultimately show ?thesis using b w b' frame_trans by blast
qed

end

section \<open>The whole step\<close>

lemma epilogue_settled:
  assumes "calc_epilogue r v s = Some s'" "\<forall>q. \<not> needs_set s q" "choices_wf s"
  shows "frame {r} s s'" "k_modules_sym s \<noteq> Some r \<Longrightarrow> frame {} s s'"
proof -
  from assms(1) obtain s1 s2 where s1: "choice_marks r (note_change r v s) = Some s1"
    and s2: "s2 = (if has_flag s1 r SYMBOL_AUTO then clear_flags r {SYMBOL_WRITE} s1 else s1)"
    and s': "(if needs_set s2 r then set_all_choice_values r s2 else Some s2) = Some s'"
    unfolding calc_epilogue_def Let_def by (auto elim!: bind_SomeE)
  have k2: "keeps X s1 s2" for X unfolding s2 by (auto intro: keeps_frame frame_clear_flags)
  have "keeps {r} s s2"
    by (rule keeps_trans [OF note_change_keeps keeps_trans [OF choice_marks_keeps [OF s1] k2]])
  then have f: "frame {r} s s2" using assms(3) by (simp add: keeps_def)
  then have "\<not> needs_set s2 r" using assms(2) by (auto simp: frame_def)
  with s' have e: "s' = s2" by simp
  then show "frame {r} s s'" using f by simp
  assume "k_modules_sym s \<noteq> Some r"
  then have "keeps {} s (note_change r v s)"
    by (auto simp: note_change_def Let_def intro: set_changed_keeps)
  then have "keeps {} s s2" using choice_marks_keeps [OF s1] k2 by (blast intro: keeps_trans)
  then show "frame {} s s'" using assms(3) e by (simp add: keeps_def)
qed

lemma prologue_settled: "\<not> needs_set s r \<Longrightarrow> calc_prologue calc r s = Some s' \<Longrightarrow> s' = s"
  by (simp add: calc_prologue_def)

lemma set_valid_frame: "frame X s (set_flags r {SYMBOL_VALID} s)"
  by (rule frame_set_flags) simp

lemma init_value_set_flags [simp]: "init_value (set_flags r fs s) q = init_value s q"
  by (simp add: init_value_def split: symbol_type.split)

lemma step_settled:
  assumes "sym_calc_step calc r s = Some s'" "\<not> needs_set s r" "\<not> is_valid s r"
    "init_value s r = Some nv"
  obtains s1 where "calc_main calc r nv (set_flags r {SYMBOL_VALID} s) = Some s1"
    "calc_epilogue r (curr (k_sym s r)) s1 = Some s'"
proof -
  from assms that show ?thesis
    unfolding sym_calc_step_def Let_def by (auto elim!: bind_SomeE dest!: prologue_settled)
qed

lemma init_value_None:
  "init_value s r = None \<Longrightarrow> \<not> needs_set s r \<Longrightarrow> \<not> is_valid s r \<Longrightarrow> sym_calc_step calc r s = Some s' \<Longrightarrow>
   s' = upd_sym r (\<lambda>x. x\<lparr>curr := \<lparr>val = name_val r x, tri = No\<rparr>\<rparr>) (set_flags r {SYMBOL_VALID} s)"
  by (auto simp: sym_calc_step_def Let_def elim!: bind_SomeE dest!: prologue_settled)

context evaluator
begin

lemma step_valid:
  assumes "sym_calc_step calc r s = Some s'" "ready s"
  shows "is_valid s' r"
proof (cases "is_valid s r")
  case True
  with assms show ?thesis by (simp add: sym_calc_step_def)
next
  case False
  have n: "\<not> needs_set s r" using assms(2) by (simp add: ready_def)
  have rv: "ready (set_flags r {SYMBOL_VALID} s)" "is_valid (set_flags r {SYMBOL_VALID} s) r"
    using ready_keeps [OF assms(2) keeps_frame [OF set_valid_frame [of "{}"]]] by (simp_all add: has_flag_def set_flags_def)
  show ?thesis
  proof (cases "init_value s r")
    case None
    from init_value_None [OF None n False assms(1)] show ?thesis by (simp add: has_flag_def set_flags_def)
  next
    case (Some nv)
    then obtain s1 where m: "calc_main calc r nv (set_flags r {SYMBOL_VALID} s) = Some s1"
      and e: "calc_epilogue r (curr (k_sym s r)) s1 = Some s'"
      by (rule step_settled [OF assms(1) n False])
    have f: "frame {r} (set_flags r {SYMBOL_VALID} s) s1" using ready_frame [OF rv(1) main_keeps [OF m]] .
    have "\<forall>q. \<not> needs_set s1 q" "choices_wf s1"
      using f rv(1) frame_wf [OF f] by (auto simp: frame_def ready_def)
    from epilogue_settled(1) [OF e this] f rv(2) show ?thesis using frame_valid by blast
  qed
qed

end

interpretation fev: full_evaluator "sym_calc_value n" for n
proof unfold_locales
  fix r s s' assume "sym_calc_value n r s = Some s'" "ready s"
  then show "is_valid s' r" by (cases n) (auto dest: ev.step_valid)
qed

text \<open>The equations a state satisfies for an evaluated plain boolean or tristate symbol.\<close>

definition solved :: "kstate \<Rightarrow> symref \<Rightarrow> bool" where
  "solved s r \<longleftrightarrow> visible (k_sym s r) = spec_visible s r \<and> ev_tri (dir_dep (k_sym s r)) = spec_dir s r \<and>
     ev_tri (rev_dep (k_sym s r)) = spec_rev s r \<and> tri (curr (k_sym s r)) = spec_tri s r"

lemma busy_start:
  assumes "ready s" "\<not> is_valid s r" "plain s r" "k_modules_sym s \<noteq> Some r"
  shows "busy r (set_flags r {SYMBOL_VALID} s)"
proof -
  have f: "frame {} s (set_flags r {SYMBOL_VALID} s)" by (rule set_valid_frame)
  have "r \<noteq> Symbol_no" using assms(1,2) by (auto simp: ready_def)
  moreover have "is_valid (set_flags r {SYMBOL_VALID} s) r" by (simp add: set_flags_def has_flag_def)
  ultimately show ?thesis
    using assms(3,4) ready_keeps [OF assms(1) keeps_frame [OF f]] erase_choice(1,2) [OF frame_erase [OF f]]
      eraseD(4) [OF frame_erase [OF f]]
    by (simp add: busy_def plain_def)
qed

context full_evaluator
begin

lemma main_solved:
  assumes "calc_main calc r nv s = Some s'" "busy r s" "self_free r s" "tri nv = No"
    and ty: "stype (k_sym s r) = S_BOOLEAN \<or> stype (k_sym s r) = S_TRISTATE"
  shows "frame {r} s s'" "busy r s'"
    "\<forall>s''. frame {r} s' s'' \<longrightarrow> same_own r s' s'' \<longrightarrow> solved s'' r"
proof -
  define s0 where "s0 = clear_flags r {SYMBOL_WRITE} s"
  have pl: "plain x r" if "busy r x" for x using that by (simp add: busy_def)
  have f0: "frame {r} s s0" unfolding s0_def by (rule frame_clear_flags) simp
  have b0: "busy r s0" using assms(2) f0 by (rule busy_frame)
  from assms(1) pl [OF assms(2)] obtain s1 nv' s2 s3 where s1: "sym_calc_visibility calc r s0 = Some s1"
    and s2: "calc_newval calc r nv (set_curr r nv s1) = Some (nv', s2)"
    and s3: "(if sym_is_choice (k_sym (set_curr r nv' s2) r) \<and> tri nv' = Yes then do {
            (d, s) \<leftarrow> sym_calc_choice calc r (set_curr r nv' s2);
            Some (upd_sym r (\<lambda>x. x\<lparr>curr := (curr x)\<lparr>val := sym_val d\<rparr>\<rparr>) s)
          } else Some (set_curr r nv' s2)) = Some s3"
    and s': "sym_validate_range calc r s3 = Some s'"
    unfolding calc_main_def s0_def Let_def by (auto simp: plain_def elim!: bind_SomeE)
  have sf0: "self_free r s0" using assms(3) self_free_erase [OF frame_erase [OF f0]] by simp
  note v = busy_visibility [OF s1 b0 sf0]
  have c1: "frame {r} s1 (set_curr r nv s1)" by (rule frame_set_curr) simp
  then have b1: "busy r (set_curr r nv s1)" using v(2) busy_frame by blast
  have e1: "erase (set_curr r nv s1) = erase s" using frame_erase c1 v(1) f0 by metis
  have sf1: "self_free r (set_curr r nv s1)" using assms(3) self_free_erase [OF e1] by simp
  have "sym_get_type (set_curr r nv s1) r = S_BOOLEAN \<or> sym_get_type (set_curr r nv s1) r = S_TRISTATE"
    using ty erase_choice(3) [OF e1] by (auto simp: sym_get_type_def)
  with s2 obtain t where t: "calc_tri calc r No (set_curr r nv s1) = Some (t, s2)" and nv': "nv' = nv\<lparr>tri := t\<rparr>"
    using assms(4) by (auto simp: calc_newval_def elim!: bind_SomeE)
  note w = busy_tri [OF t b1 sf1]
  define s4 where "s4 = set_curr r nv' s2"
  have f4: "frame {r} s2 s4" unfolding s4_def by (rule frame_set_curr) simp
  then have b4: "busy r s4" using w busy_frame by blast
  then have "s3 = s4" using s3 pl by (simp add: plain_def s4_def [symmetric])
  moreover have "stype (k_sym s4 r) = stype (k_sym s r)"
    using erase_choice(3) frame_erase f4 w e1 by metis
  ultimately have s4: "s' = s4" using s' ty by (auto simp: sym_validate_range_def num_base_def)
  have f14: "frame {r} s1 s4" using c1 w f4 frame_trans by blast
  then show f: "frame {r} s s'" using f0 v(1) frame_trans unfolding s4 by blast
  show "busy r s'" using b4 s4 by simp
  have own: "curr (k_sym s4 r) = nv'" "same_deps (k_sym s4 r) (k_sym s1 r)" "same_deps (k_sym s4 r) (k_sym s2 r)"
    using w by (simp_all add: s4_def set_curr_def same_own_def same_deps_def)
  show "\<forall>s''. frame {r} s' s'' \<longrightarrow> same_own r s' s'' \<longrightarrow> solved s'' r"
  proof (intro allI impI)
    fix s'' assume l: "frame {r} s' s''" "same_own r s' s''"
    have l1: "frame {r} s1 s''" "frame {r} s2 s''" using f14 f4 l(1) frame_trans unfolding s4 by blast+
    have "same_deps (k_sym s'' r) (k_sym s2 r)" using l(2) own(3) by (simp add: s4 same_own_def same_deps_def)
    then have "t = spec_tri s'' r" using w l1(2) by blast
    then have "tri (curr (k_sym s'' r)) = spec_tri s'' r" using l(2) own(1) nv' by (simp add: s4 same_own_def)
    moreover have "visible (k_sym s'' r) = spec_visible s'' r \<and>
       ev_tri (dir_dep (k_sym s'' r)) = spec_dir s'' r \<and> ev_tri (rev_dep (k_sym s'' r)) = spec_rev s'' r"
      using v(3) l1(1) l(2) own(2) by (simp add: s4 same_own_def same_deps_def)
    ultimately show "solved s'' r" by (simp add: solved_def)
  qed
qed

lemma step_solved:
  assumes "sym_calc_step calc r s = Some s'" "ready s" "\<not> is_valid s r" "plain s r" "self_free r s"
    "k_modules_sym s \<noteq> Some r" "stype (k_sym s r) = S_BOOLEAN \<or> stype (k_sym s r) = S_TRISTATE"
  shows "solved s' r"
proof -
  define sv where "sv = set_flags r {SYMBOL_VALID} s"
  have fv: "frame {} s sv" unfolding sv_def by (rule set_valid_frame)
  have bv: "busy r sv" unfolding sv_def using assms(2-4,6) by (rule busy_start)
  have n: "\<not> needs_set s r" using assms(2) by (simp add: ready_def)
  have i: "init_value s r = Some (curr (k_sym s Symbol_no))" using assms(7) by (auto simp: init_value_def)
  obtain s1 where m: "calc_main calc r (curr (k_sym s Symbol_no)) sv = Some s1"
    and e: "calc_epilogue r (curr (k_sym s r)) s1 = Some s'"
    using step_settled [OF assms(1) n assms(3) i] unfolding sv_def by blast
  have t: "tri (curr (k_sym s Symbol_no)) = No" using assms(2) by (simp add: ready_def tri_env_def)
  have sf: "self_free r sv" using assms(5) self_free_erase [OF frame_erase [OF fv]] by simp
  have ty: "stype (k_sym sv r) = S_BOOLEAN \<or> stype (k_sym sv r) = S_TRISTATE"
    using assms(7) erase_choice(3) [OF frame_erase [OF fv]] by simp
  note d = main_solved [OF m bv sf t ty]
  have "\<forall>q. \<not> needs_set s1 q" "choices_wf s1" "k_modules_sym s1 \<noteq> Some r"
    using d(2) by (auto simp: busy_def ready_def)
  then have f: "frame {} s1 s'" using epilogue_settled(2) [OF e] by blast
  have "frame {r} s1 s'" using f by (rule frame_mono) simp
  moreover have "same_own r s1 s'" using busy_own d(2) f by blast
  ultimately show ?thesis using d(3) by blast
qed

end

end
