(* ===== verification/Kconfig_Calc_Range.thy ===== *)
theory Kconfig_Calc_Range
  imports Kconfig_Calc_Sem
begin

text \<open>
  Ranges of integer and hexadecimal symbols: \<open>sym_validate_range\<close> leaves a symbol with a value between
  the bounds of its active range, as they are evaluated.
\<close>

section \<open>Ranges\<close>

definition num_of :: "kstate \<Rightarrow> nat \<Rightarrow> symref \<Rightarrow> int option" where
  "num_of s base q = map_option (strtoll (case stype (k_sym s q) of S_INT \<Rightarrow> 10 | S_HEX \<Rightarrow> 16 | _ \<Rightarrow> base))
     (cstr (val (curr (k_sym s q))))"

text \<open>The bounds of a range, as the symbols are valued in the state.\<close>

definition bounds_of :: "kstate \<Rightarrow> nat \<Rightarrow> nat \<Rightarrow> (int \<times> int) option" where
  "bounds_of s base p = (case range_syms (k_prop s p) of
     None \<Rightarrow> None
   | Some (lo, hi) \<Rightarrow> (case (num_of s base lo, num_of s base hi) of
       (Some l, Some h) \<Rightarrow> Some (l, h)
     | _ \<Rightarrow> None))"

lemma strtoll_fmt_range:
  assumes "num_base t = Some base" "LLONG_MIN \<le> v" "v \<le> LLONG_MAX" "t = S_HEX \<longrightarrow> 0 \<le> v"
  shows "strtoll base (fmt_range t v) = v"
  using assms strtoll_fmt_lld strtoll_fmt_llx
  by (auto simp: num_base_def fmt_range_def split: symbol_type.splits)

lemma num_bounds: "num_of s base q = Some v \<Longrightarrow> LLONG_MIN \<le> v \<and> v \<le> LLONG_MAX"
  by (auto simp: num_of_def strtoll_bounds)

lemma num_of_frame:
  assumes "frame X s s'" "is_valid s q" "q \<notin> X"
  shows "num_of s' base q = num_of s base q"
  using assms erase_choice(3) [OF frame_erase [OF assms(1)], of q] by (simp add: num_of_def frame_def)

context full_evaluator
begin

lemma range_val:
  assumes "sym_get_range_val calc q base s = Some (v, s')" "ready s"
  shows "num_of s' base q = Some v" "is_valid s' q" "ready s'" "frame {} s s'"
proof -
  obtain str where c: "calc q s = Some s'" "cstr (val (curr (k_sym s' q))) = Some str"
    "v = strtoll (case stype (k_sym s' q) of S_INT \<Rightarrow> 10 | S_HEX \<Rightarrow> 16 | _ \<Rightarrow> base) str"
    using assms(1) by (auto simp: sym_get_range_val_def Let_def elim!: bind_SomeE)
  show "num_of s' base q = Some v" using c by (simp add: num_of_def)
  show "is_valid s' q" using calc_valid [OF c(1) assms(2)] .
  show "ready s'" "frame {} s s'" using ready_calc [OF c(1) assms(2)] by auto
qed

lemma range_check:
  assumes "do {
      (val2, s) \<leftarrow> sym_get_range_val calc lo base s;
      (val2, within, s) \<leftarrow>
        (if v \<ge> val2 then do {
           (val2, s) \<leftarrow> sym_get_range_val calc hi base s;
           Some (val2, v \<le> val2, s)
         } else Some (val2, False, s));
      Some (val2, within, s)
    } = Some (w, within, s')" "ready s"
  shows "ready s'" "frame {} s s'" "is_valid s' lo" "num_of s' base lo \<noteq> None"
    "\<And>l h s''. frame {r} s' s'' \<Longrightarrow> lo \<noteq> r \<Longrightarrow> hi \<noteq> r \<Longrightarrow> num_of s'' base lo = Some l \<Longrightarrow> num_of s'' base hi = Some h \<Longrightarrow> l \<le> h \<Longrightarrow>
      within \<and> l \<le> v \<and> v \<le> h \<or> \<not> within \<and> l \<le> w \<and> w \<le> h"
    "LLONG_MIN \<le> w \<and> w \<le> LLONG_MAX"
proof -
  obtain l s1 where l: "sym_get_range_val calc lo base s = Some (l, s1)"
    using assms(1) by (auto elim!: bind_SomeE)
  note rl = range_val [OF l assms(2)]
  have "ready s' \<and> frame {} s s' \<and> is_valid s' lo \<and> num_of s' base lo \<noteq> None \<and> LLONG_MIN \<le> w \<and> w \<le> LLONG_MAX \<and>
    (\<forall>l h s''. frame {r} s' s'' \<longrightarrow> lo \<noteq> r \<longrightarrow> hi \<noteq> r \<longrightarrow> num_of s'' base lo = Some l \<longrightarrow> num_of s'' base hi = Some h \<longrightarrow> l \<le> h \<longrightarrow>
      within \<and> l \<le> v \<and> v \<le> h \<or> \<not> within \<and> l \<le> w \<and> w \<le> h)"
  proof (cases "l \<le> v")
    case True
    then obtain h where h: "sym_get_range_val calc hi base s1 = Some (h, s')" and w: "w = h" "within = (v \<le> h)"
      using assms(1) l by (auto elim!: bind_SomeE)
    note rh = range_val [OF h rl(3)]
    have v: "is_valid s' lo" using rl(2) rh(4) by (simp add: frame_def)
    have "num_of s' base lo = Some l" using num_of_frame [OF rh(4) rl(2)] rl(1) by simp
    then have n: "num_of s'' base lo = Some l \<and> num_of s'' base hi = Some h" if "frame {r} s' s''" "lo \<noteq> r" "hi \<noteq> r" for s''
      using that num_of_frame [OF that(1)] v rh(1,2) by simp
    show ?thesis
      using n v rh(3,4) frame_trans [OF rl(4) rh(4)] num_bounds [OF rh(1)] w True \<open>num_of s' base lo = Some l\<close> by auto
  next
    case False
    then have w: "w = l" "\<not> within" "s' = s1" using assms(1) l by auto
    have "num_of s'' base lo = Some l" if "frame {r} s' s''" "lo \<noteq> r" for s''
      using that num_of_frame [OF that(1)] rl(1,2) w by simp
    then show ?thesis using w rl num_bounds [OF rl(1)] by auto
  qed
  then show "ready s'" "frame {} s s'" "is_valid s' lo" "num_of s' base lo \<noteq> None" "LLONG_MIN \<le> w \<and> w \<le> LLONG_MAX"
    "\<And>l h s''. frame {r} s' s'' \<Longrightarrow> lo \<noteq> r \<Longrightarrow> hi \<noteq> r \<Longrightarrow> num_of s'' base lo = Some l \<Longrightarrow> num_of s'' base hi = Some h \<Longrightarrow> l \<le> h \<Longrightarrow>
      within \<and> l \<le> v \<and> v \<le> h \<or> \<not> within \<and> l \<le> w \<and> w \<le> h"
    by blast+
qed

end

definition range_free :: "symref \<Rightarrow> kstate \<Rightarrow> bool" where
  "range_free r s \<longleftrightarrow> (\<forall>p \<in> set (props_of s r P_RANGE). own_prop r s p \<and>
     (\<forall>lo hi. range_syms (k_prop s p) = Some (lo, hi) \<longrightarrow> lo \<noteq> r \<and> hi \<noteq> r))"

text \<open>The value of \<open>r\<close> lies in its range, if the range has a lower bound that is not above the upper one.\<close>

definition in_range :: "kstate \<Rightarrow> nat \<Rightarrow> symref \<Rightarrow> bool" where
  "in_range s base r \<longleftrightarrow> (case find (\<lambda>p. vis_of s p \<noteq> No) (props_of s r P_RANGE) of
     None \<Rightarrow> True
   | Some p \<Rightarrow> (\<forall>l h. bounds_of s base p = Some (l, h) \<longrightarrow> l \<le> h \<longrightarrow> (stype (k_sym s r) = S_HEX \<longrightarrow> 0 \<le> l) \<longrightarrow>
       (\<exists>v. num_of s base r = Some v \<and> l \<le> v \<and> v \<le> h)))"

lemma in_range_later:
  assumes "busy r s" "frame {} s s'" "range_free r s"
    and "\<And>p. find (\<lambda>p. vis_of s' p \<noteq> No) (props_of s' r P_RANGE) = Some p \<Longrightarrow>
      \<exists>lo hi v. range_syms (k_prop s p) = Some (lo, hi) \<and> num_of s base r = Some v \<and>
        (\<forall>l h. num_of s' base lo = Some l \<longrightarrow> num_of s' base hi = Some h \<longrightarrow> l \<le> h \<longrightarrow>
          (stype (k_sym s r) = S_HEX \<longrightarrow> 0 \<le> l) \<longrightarrow> l \<le> v \<and> v \<le> h)"
  shows "in_range s' base r"
proof (cases "find (\<lambda>p. vis_of s' p \<noteq> No) (props_of s' r P_RANGE)")
  case (Some p)
  note e = frame_erase [OF assms(2)]
  from assms(4) [OF Some] obtain lo hi v where a: "range_syms (k_prop s p) = Some (lo, hi)" "num_of s base r = Some v"
    "\<forall>l h. num_of s' base lo = Some l \<longrightarrow> num_of s' base hi = Some h \<longrightarrow> l \<le> h \<longrightarrow>
          (stype (k_sym s r) = S_HEX \<longrightarrow> 0 \<le> l) \<longrightarrow> l \<le> v \<and> v \<le> h" by blast
  have "range_syms (k_prop s' p) = Some (lo, hi)"
    using a(1) erase_propD(3) [OF eraseD(2) [OF e, of p]] by (simp add: range_syms_def)
  moreover have "num_of s' base r = Some v" using a(2) num_of_frame [OF assms(2), of r] assms(1) by (simp add: busy_def)
  moreover have "stype (k_sym s' r) = stype (k_sym s r)" using erase_choice(3) [OF e] .
  ultimately show ?thesis using a(3) Some by (auto simp: in_range_def bounds_of_def split: option.splits)
qed (simp add: in_range_def)

lemma num_of_own: "num_base (stype (k_sym s r)) = Some base \<Longrightarrow> num_of s base r = map_option (strtoll base) (cstr (val (curr (k_sym s r))))"
  by (auto simp: num_of_def num_base_def split: symbol_type.splits)

lemma range_free_erase:
  assumes "erase s' = erase s"
  shows "range_free r s' = range_free r s"
  unfolding range_free_def range_syms_def erase_choice(6) [OF assms] own_prop_erase [OF assms] erase_propD(3) [OF eraseD(2) [OF assms]] ..

context full_evaluator
begin

lemma validate_range_clamps:
  assumes "sym_validate_range calc r s = Some s'" "busy r s" "range_free r s" and base: "num_base (stype (k_sym s r)) = Some base"
  shows "frame {r} s s'" "busy r s'" "\<forall>s''. frame {} s' s'' \<longrightarrow> in_range s'' base r"
proof -
  obtain q s1 where q: "first_visible calc (props_of s r P_RANGE) s = Some (q, s1)"
    using assms(1) base by (auto simp: sym_validate_range_def sym_get_range_prop_def elim!: bind_SomeE)
  have own: "\<forall>p \<in> set (props_of s r P_RANGE). own_prop r s p" using assms(3) by (simp add: range_free_def)
  from busy_first [OF q assms(2) own] have f1: "frame {r} s s1" and b1: "busy r s1"
    and find: "\<And>s''. frame {r} s1 s'' \<Longrightarrow> find (\<lambda>p. vis_of s'' p \<noteq> No) (props_of s r P_RANGE) = q" by auto
  have e1: "erase s1 = erase s" using f1 frame_erase by blast
  have ty: "stype (k_sym s1 r) = stype (k_sym s r)" using erase_choice(3) [OF e1] .
  have rf1: "range_free r s1" using assms(3) range_free_erase [OF e1] by simp
  have found: "find (\<lambda>p. vis_of s'' p \<noteq> No) (props_of s'' r P_RANGE) = q" if "frame {r} s1 s''" for s''
    using find [OF that] erase_choice(6) [OF frame_erase [OF that]] erase_choice(6) [OF e1] by simp
  have "frame {r} s1 s' \<and> busy r s' \<and> (\<forall>s''. frame {} s' s'' \<longrightarrow> in_range s'' base r)"
  proof (cases q)
    case None
    then have "s' = s1" using assms(1) base q by (simp add: sym_validate_range_def sym_get_range_prop_def)
    then show ?thesis using b1 found None frame_mono [of "{}" _ _ "{r}"] by (auto simp: in_range_def)
  next
    case (Some p)
    obtain str lo hi w within s2 where c: "cstr (val (curr (k_sym s1 r))) = Some str" "range_syms (k_prop s1 p) = Some (lo, hi)"
      and rc: "do {
          (val2, s) \<leftarrow> sym_get_range_val calc lo base s1;
          (val2, within, s) \<leftarrow>
            (if strtoll base str \<ge> val2 then do {
               (val2, s) \<leftarrow> sym_get_range_val calc hi base s;
               Some (val2, strtoll base str \<le> val2, s)
             } else Some (val2, False, s));
          Some (val2, within, s)
        } = Some (w, within, s2)"
      and s': "s' = (if within then s2 else upd_sym r (\<lambda>x. x\<lparr>curr := (curr x)\<lparr>val :=
          VStr (A_heap (k_nstr s2)) (fmt_range (stype (k_sym s2 r)) w)\<rparr>\<rparr>) (s2\<lparr>k_nstr := Suc (k_nstr s2)\<rparr>))"
      using assms(1) base q Some
      by (auto simp: sym_validate_range_def sym_get_range_prop_def alloc_str_def Let_def elim!: bind_SomeE split: if_splits)
    have rd: "ready s1" using b1 by (simp add: busy_def)
    note k = range_check [OF rc rd]
    have f12: "frame {r} s1 s2" using k(2) by (rule frame_mono) simp
    have b2: "busy r s2" using b1 f12 by (rule busy_frame)
    have f2: "frame {r} s2 s'"
    proof (cases within)
      case False
      have "frame {r} s2 (s2\<lparr>k_nstr := Suc (k_nstr s2)\<rparr>)" by (rule frame_same_syms) (simp_all add: erase_def)
      then show ?thesis using False s' frame_trans frame_upd_curr [of r "{r}"] by simp
    qed (simp add: s')
    have b': "busy r s'" using b2 f2 by (rule busy_frame)
    have f1': "frame {r} s1 s'" using f12 f2 by (rule frame_trans)
    have e1': "erase s' = erase s1" using f1' frame_erase by blast
    have ty2: "stype (k_sym s2 r) = stype (k_sym s r)" "stype (k_sym s' r) = stype (k_sym s r)"
      using erase_choice(3) [OF frame_erase [OF f12]] erase_choice(3) [OF e1'] ty by simp_all
    have cu: "curr (k_sym s2 r) = curr (k_sym s1 r)" using k(2) b1 by (simp add: frame_def busy_def)
    define v where "v = (if within then strtoll base str else strtoll base (fmt_range (stype (k_sym s r)) w))"
    have num: "num_of s' base r = Some v"
      using base ty2 c(1) cu s' by (auto simp: num_of_own v_def cstr_def)
    have p: "p \<in> set (props_of s r P_RANGE)" using find [OF frame_refl] Some find_SomeD by fastforce
    have lh: "lo \<noteq> r" "hi \<noteq> r" using rf1 c(2) p erase_choice(6) [OF e1] by (auto simp: range_free_def)
    have "in_range s'' base r" if f: "frame {} s' s''" for s''
    proof (rule in_range_later [OF b' f])
      show "range_free r s'" using rf1 range_free_erase [OF e1'] by simp
      fix p' assume "find (\<lambda>p. vis_of s'' p \<noteq> No) (props_of s'' r P_RANGE) = Some p'"
      moreover have fr: "frame {r} s' s''" using f by (rule frame_mono) simp
      ultimately have "p' = p" using found [OF frame_trans [OF f1' fr]] Some by simp
      moreover have "range_syms (k_prop s' p) = Some (lo, hi)"
        using c(2) erase_propD(3) [OF eraseD(2) [OF e1', of p]] by (simp add: range_syms_def)
      moreover have "l \<le> v \<and> v \<le> h" if "num_of s'' base lo = Some l" "num_of s'' base hi = Some h" "l \<le> h"
        "stype (k_sym s' r) = S_HEX \<longrightarrow> 0 \<le> l" for l h
        using k(5) [OF frame_trans [OF f2 fr] lh that(1-3)] strtoll_fmt_range [OF base, of w] k(6) that(4) ty2(2)
        by (auto simp: v_def)
      ultimately show "\<exists>lo hi v. range_syms (k_prop s' p') = Some (lo, hi) \<and> num_of s' base r = Some v \<and>
        (\<forall>l h. num_of s'' base lo = Some l \<longrightarrow> num_of s'' base hi = Some h \<longrightarrow> l \<le> h \<longrightarrow>
          (stype (k_sym s' r) = S_HEX \<longrightarrow> 0 \<le> l) \<longrightarrow> l \<le> v \<and> v \<le> h)"
        using num by blast
    qed
    then show ?thesis using f1' b' by blast
  qed
  then show "frame {r} s s'" "busy r s'" "\<forall>s''. frame {} s' s'' \<longrightarrow> in_range s'' base r"
    using frame_trans [OF f1] by blast+
qed

lemma main_in_range:
  assumes "calc_main calc r nv s = Some s'" "busy r s" "range_free r s" "num_base (stype (k_sym s r)) = Some base"
  shows "busy r s'" "\<forall>s''. frame {} s' s'' \<longrightarrow> in_range s'' base r"
proof -
  define s0 where "s0 = clear_flags r {SYMBOL_WRITE} s"
  have pl: "plain x r" if "busy r x" for x using that by (simp add: busy_def)
  have rd: "ready x" if "busy r x" for x using that by (simp add: busy_def)
  have f0: "frame {r} s s0" unfolding s0_def by (rule frame_clear_flags) simp
  have b0: "busy r s0" using assms(2) f0 by (rule busy_frame)
  from assms(1) pl [OF assms(2)] obtain s1 nv' s2 s3 where s1: "sym_calc_visibility calc r s0 = Some s1"
    and s2: "calc_newval calc r nv (set_curr r nv s1) = Some (nv', s2)"
    and s3: "(if sym_is_choice (k_sym (set_curr r nv' s2) r) \<and> tri nv' = Yes then do {
            (d, s) \<leftarrow> sym_calc_choice calc r (set_curr r nv' s2);
            Some (upd_sym r (\<lambda>x. x\<lparr>curr := (curr x)\<lparr>val := sym_val d\<rparr>\<rparr>) s)
          } else Some (set_curr r nv' s2)) = Some s3"
    and s': "sym_validate_range calc r s3 = Some s'"
    unfolding calc_main_def s0_def Let_def by (auto simp: plain_def elim!: bind_SomeE)
  have f1: "frame {r} s0 s1" using ready_frame [OF rd [OF b0] visibility_keeps [OF s1]] .
  have f1': "frame {r} s1 (set_curr r nv s1)" by (rule frame_set_curr) simp
  have b1: "busy r (set_curr r nv s1)" using busy_frame b0 f1 f1' by blast
  have f2: "frame {r} (set_curr r nv s1) s2" using ready_frame [OF rd [OF b1] calc_newval_keeps [OF s2]] .
  have f2': "frame {r} s2 (set_curr r nv' s2)" by (rule frame_set_curr) simp
  have b2: "busy r (set_curr r nv' s2)" using busy_frame b1 f2 f2' by blast
  then have s3': "s3 = set_curr r nv' s2" using s3 pl [OF b2] by (simp add: plain_def)
  have "frame {r} s s3" unfolding s3' using f0 f1 f1' f2 f2' frame_trans by blast
  then have e: "erase s3 = erase s" by (rule frame_erase)
  have "range_free r s3" using assms(3) range_free_erase [OF e] by simp
  moreover have "num_base (stype (k_sym s3 r)) = Some base" using assms(4) erase_choice(3) [OF e] by simp
  ultimately show "busy r s'" "\<forall>s''. frame {} s' s'' \<longrightarrow> in_range s'' base r"
    using validate_range_clamps [OF s'] b2 s3' by blast+
qed

lemma step_in_range:
  assumes "sym_calc_step calc r s = Some s'" "ready s" "\<not> is_valid s r" "plain s r" "range_free r s"
    "k_modules_sym s \<noteq> Some r" "num_base (stype (k_sym s r)) = Some base"
  shows "in_range s' base r"
proof -
  define sv where "sv = set_flags r {SYMBOL_VALID} s"
  have fv: "frame {} s sv" unfolding sv_def by (rule set_valid_frame)
  have bv: "busy r sv" unfolding sv_def using assms(2-4,6) by (rule busy_start)
  have n: "\<not> needs_set s r" using assms(2) by (simp add: ready_def)
  have i: "init_value s r = Some (curr (k_sym s Symbol_empty))"
    using assms(7) by (auto simp: init_value_def num_base_def split: symbol_type.splits)
  obtain s1 where m: "calc_main calc r (curr (k_sym s Symbol_empty)) sv = Some s1"
    and e: "calc_epilogue r (curr (k_sym s r)) s1 = Some s'"
    using step_settled [OF assms(1) n assms(3) i] unfolding sv_def by blast
  have rf: "range_free r sv" using assms(5) range_free_erase [OF frame_erase [OF fv]] by simp
  have ty: "num_base (stype (k_sym sv r)) = Some base" using assms(7) erase_choice(3) [OF frame_erase [OF fv]] by simp
  note d = main_in_range [OF m bv rf ty]
  have "\<forall>q. \<not> needs_set s1 q" "choices_wf s1" "k_modules_sym s1 \<noteq> Some r"
    using d(1) by (auto simp: busy_def ready_def)
  then have f: "frame {} s1 s'" using epilogue_settled(2) [OF e] by blast
  then show ?thesis using d(2) by blast
qed

end

end
