(* ===== verification/Kconfig_Calc_Total.thy ===== *)
theory Kconfig_Calc_Total
  imports Kconfig_Calc_Sem
begin

text \<open>
  Evaluation returns.  Where no symbol depends on itself, the recursion of \<open>sym_calc_value\<close> ends, no null
  pointer is read as a string, and so a value results; the fuel of the model is then enough from
  some number on.
\<close>

section \<open>References\<close>

fun expr_refs :: "expr \<Rightarrow> symref set" where
  "expr_refs (E_SYMBOL r) = {r}"
| "expr_refs (E_NOT e) = expr_refs e"
| "expr_refs (E_AND l r) = expr_refs l \<union> expr_refs r"
| "expr_refs (E_OR l r) = expr_refs l \<union> expr_refs r"
| "expr_refs (E_EQUAL a b) = {a, b}"
| "expr_refs (E_UNEQUAL a b) = {a, b}"
| "expr_refs (E_RANGE a b) = {a, b}"
| "expr_refs e = {}"

definition opt_refs :: "expr option \<Rightarrow> symref set" where
  "opt_refs e = (case e of None \<Rightarrow> {} | Some e' \<Rightarrow> expr_refs e')"

definition prop_refs :: "property \<Rightarrow> symref set" where
  "prop_refs p = opt_refs (ev_expr (p_visible p)) \<union> (if p_type p = P_DEFAULT \<or> p_type p = P_RANGE then opt_refs (p_expr p) else {})"

text \<open>All symbols that the evaluation of a symbol may evaluate; an evaluated symbol needs none.\<close>

definition refs :: "kstate \<Rightarrow> symref \<Rightarrow> symref set" where
  "refs s r = (\<Union>p \<in> set (props (k_sym s r)). prop_refs (k_prop s p)) \<union>
     opt_refs (ev_expr (dir_dep (k_sym s r))) \<union> opt_refs (ev_expr (rev_dep (k_sym s r)))"

definition eval_rel :: "kstate \<Rightarrow> (symref \<times> symref) set" where
  "eval_rel s = {(q, r). q \<in> refs s r \<and> \<not> is_valid s r}"

section \<open>States during an evaluation\<close>

definition has_str :: "kstate \<Rightarrow> symref \<Rightarrow> bool" where
  "has_str s r \<longleftrightarrow> cstr (val (curr (k_sym s r))) \<noteq> None"

text \<open>
  \<open>fit s G t\<close>: the state \<open>t\<close> arises from \<open>s\<close> by evaluation while the symbols \<open>G\<close> are under way; every other
  evaluated symbol has a string.  Of an evaluated symbol it does not matter any more whether it counts as set,
  which \<open>menu_is_visible\<close> may change.  \<open>grows t t'\<close>: evaluated symbols stay as they are.
\<close>

definition fit :: "kstate \<Rightarrow> symref set \<Rightarrow> kstate \<Rightarrow> bool" where
  "fit s G t \<longleftrightarrow> erase t = erase s \<and> ready t \<and> (\<forall>q. is_valid t q \<longrightarrow> q \<notin> G \<longrightarrow> has_str t q) \<and>
     (\<forall>q. sdef (k_sym t q) = sdef (k_sym s q) \<and>
       (q \<in> G \<or> \<not> is_valid t q \<longrightarrow> sym_has_value (k_sym t q) = sym_has_value (k_sym s q))) \<and>
     (\<forall>q. ev_expr (rev_dep (k_sym t q)) = None \<longrightarrow> ev_tri (rev_dep (k_sym t q)) = No) \<and>
     is_valid t Symbol_empty \<and> has_str t Symbol_empty \<and> has_str t Symbol_no \<and> (\<forall>q. is_valid s q \<longrightarrow> is_valid t q)"

definition grows :: "kstate \<Rightarrow> kstate \<Rightarrow> bool" where
  "grows t t' \<longleftrightarrow> (\<forall>q. is_valid t q \<longrightarrow> is_valid t' q \<and> curr (k_sym t' q) = curr (k_sym t q))"

definition goes :: "kstate \<Rightarrow> symref set \<Rightarrow> kstate \<Rightarrow> kstate \<Rightarrow> bool" where
  "goes s G t t' \<longleftrightarrow> fit s G t' \<and> grows t t'"

lemma goes_refl [simp]: "goes s G t t \<longleftrightarrow> fit s G t"
  by (simp add: goes_def grows_def)

lemma goes_fit: "goes s G t t' \<Longrightarrow> fit s G t'"
  by (simp add: goes_def)

lemma goes_trans: "goes s G t t' \<Longrightarrow> goes s G t' t'' \<Longrightarrow> goes s G t t''"
  by (auto simp: goes_def grows_def)

lemma goes_valid: "goes s G t t' \<Longrightarrow> is_valid t q \<Longrightarrow> is_valid t' q"
  by (simp add: goes_def grows_def)

lemma fitD:
  assumes "fit s G t"
  shows "erase t = erase s" "ready t" "choices_wf t" "k_modules_sym t = k_modules_sym s" "stype (k_sym t q) = stype (k_sym s q)"
    "plain t q = plain s q" "props (k_sym t q) = props (k_sym s q)"
    "ev_expr (p_visible (k_prop t p)) = ev_expr (p_visible (k_prop s p))" "p_expr (k_prop t p) = p_expr (k_prop s p)"
    "p_type (k_prop t p) = p_type (k_prop s p)"
    "ev_expr (dir_dep (k_sym t q)) = ev_expr (dir_dep (k_sym s q))" "ev_expr (rev_dep (k_sym t q)) = ev_expr (rev_dep (k_sym s q))"
    "name (k_sym t q) = name (k_sym s q)" "prompts_of t q = prompts_of s q" "props_of t q ty = props_of s q ty"
proof -
  show e: "erase t = erase s" and r: "ready t" using assms by (simp_all add: fit_def)
  note x = erase_symD [OF eraseD(1) [OF e]] and y = erase_propD [OF eraseD(2) [OF e]] and c = erase_choice [OF e]
  show "choices_wf t" using r by (rule readyD)
  show "k_modules_sym t = k_modules_sym s" by (rule eraseD(4) [OF e])
  show "stype (k_sym t q) = stype (k_sym s q)" "props (k_sym t q) = props (k_sym s q)" "name (k_sym t q) = name (k_sym s q)"
    "ev_expr (dir_dep (k_sym t q)) = ev_expr (dir_dep (k_sym s q))" "ev_expr (rev_dep (k_sym t q)) = ev_expr (rev_dep (k_sym s q))"
    using x by simp_all
  show "plain t q = plain s q" using c by (simp add: plain_def)
  show "prompts_of t q = prompts_of s q" "props_of t q ty = props_of s q ty" using c by simp_all
  show "ev_expr (p_visible (k_prop t p)) = ev_expr (p_visible (k_prop s p))" "p_expr (k_prop t p) = p_expr (k_prop s p)"
    "p_type (k_prop t p) = p_type (k_prop s p)"
    using y by simp_all
qed

text \<open>Changes that the relation does not notice.\<close>

lemma goes_same:
  assumes "fit s G t" "erase t' = erase t" "\<And>q. is_valid t' q = is_valid t q" "\<And>q. needs_set t' q = needs_set t q"
    "\<And>q. curr (k_sym t' q) = curr (k_sym t q)"
    "\<And>q. sdef (k_sym t' q) = sdef (k_sym t q) \<and> sym_has_value (k_sym t' q) = sym_has_value (k_sym t q)"
    "\<And>q. rev_dep (k_sym t' q) = rev_dep (k_sym t q) \<or> (ev_expr (rev_dep (k_sym t' q)) = None \<longrightarrow> ev_tri (rev_dep (k_sym t' q)) = No)"
  shows "goes s G t t'"
proof -
  have "\<forall>q. ev_expr (rev_dep (k_sym t' q)) = None \<longrightarrow> ev_tri (rev_dep (k_sym t' q)) = No"
    using assms(1,7) unfolding fit_def by metis
  moreover
  have "ready t'" using assms(1,3-5) choices_wf_erase [OF assms(2)] eraseD(4) [OF assms(2)]
    by (simp add: fit_def ready_def tri_env_def)
  ultimately show ?thesis using assms by (simp add: goes_def fit_def grows_def has_str_def)
qed

lemma goes_prims:
  assumes "fit s G t"
  shows "goes s G t (add_log m t)" "goes s G t (t\<lparr>k_nstr := k\<rparr>)" "goes s G t (sym_set_changed r t)"
    "goes s G t (set_flags r {SYMBOL_WRITE} t)" "goes s G t (clear_flags r {SYMBOL_WRITE} t)"
    "goes s G t (upd_prop p (\<lambda>x. x\<lparr>p_visible := (p_visible x)\<lparr>ev_tri := v\<rparr>\<rparr>) t)"
    "goes s G t (upd_sym r (\<lambda>x. x\<lparr>visible := v\<rparr>) t)"
    "goes s G t (upd_sym r (\<lambda>x. x\<lparr>dir_dep := (dir_dep x)\<lparr>ev_tri := v\<rparr>\<rparr>) t)"
    "(ev_expr (rev_dep (k_sym t r)) = None \<longrightarrow> v = No) \<Longrightarrow> goes s G t (upd_sym r (\<lambda>x. x\<lparr>rev_dep := (rev_dep x)\<lparr>ev_tri := v\<rparr>\<rparr>) t)"
proof -
  have e: "erase (upd_prop p (\<lambda>x. x\<lparr>p_visible := (p_visible x)\<lparr>ev_tri := v\<rparr>\<rparr>) t) = erase t"
    "erase (t\<lparr>k_nstr := k\<rparr>) = erase t"
    by (auto simp: upd_prop_def erase_def erase_prop_def fun_eq_iff)
  note d = goes_same [OF assms]
  show "goes s G t (add_log m t)" by (rule d) (simp_all add: has_flag_def)
  show "goes s G t (t\<lparr>k_nstr := k\<rparr>)" by (rule d [OF e(2)]) (simp_all add: has_flag_def)
  show "goes s G t (sym_set_changed r t)" by (rule d) (simp_all add: has_flag_def sym_has_value_def)
  show "goes s G t (set_flags r {SYMBOL_WRITE} t)"
    by (rule d [OF erase_set_flags]) (auto simp: has_flag_def sym_has_value_def set_flags_def dyn_flags_def)
  show "goes s G t (clear_flags r {SYMBOL_WRITE} t)"
    by (rule d [OF erase_clear_flags]) (auto simp: has_flag_def sym_has_value_def clear_flags_def dyn_flags_def)
  show "goes s G t (upd_prop p (\<lambda>x. x\<lparr>p_visible := (p_visible x)\<lparr>ev_tri := v\<rparr>\<rparr>) t)"
    by (rule d [OF e(1)]) (simp_all add: has_flag_def upd_prop_def)
  show "goes s G t (upd_sym r (\<lambda>x. x\<lparr>visible := v\<rparr>) t)"
    "goes s G t (upd_sym r (\<lambda>x. x\<lparr>dir_dep := (dir_dep x)\<lparr>ev_tri := v\<rparr>\<rparr>) t)"
    "(ev_expr (rev_dep (k_sym t r)) = None \<longrightarrow> v = No) \<Longrightarrow> goes s G t (upd_sym r (\<lambda>x. x\<lparr>rev_dep := (rev_dep x)\<lparr>ev_tri := v\<rparr>\<rparr>) t)"
    by (rule d [OF erase_upd_sym]; simp add: has_flag_def sym_has_value_def erase_sym_def)+
qed

lemma goes_set_dep:
  assumes "fit s G t"
  shows "goes s G t (set_visible r v t)" "goes s G t (set_dir_dep r v t)"
    "(ev_expr (rev_dep (k_sym t r)) = None \<longrightarrow> v = No) \<Longrightarrow> goes s G t (set_rev_dep r v t)"
proof -
  have c: "goes s G t (sym_set_changed r t')" if "goes s G t t'" for t'
    using goes_trans [OF that goes_prims(3) [OF goes_fit [OF that]]] .
  show "goes s G t (set_visible r v t)" "goes s G t (set_dir_dep r v t)"
    "(ev_expr (rev_dep (k_sym t r)) = None \<longrightarrow> v = No) \<Longrightarrow> goes s G t (set_rev_dep r v t)"
    using assms c [OF goes_prims(7) [OF assms]] c [OF goes_prims(8) [OF assms]] c [OF goes_prims(9) [OF assms]]
    by (simp_all add: set_visible_def set_dir_dep_def set_rev_dep_def)
qed

section \<open>Evaluators that return\<close>

definition returns :: "kstate \<Rightarrow> symref set \<Rightarrow> calc \<Rightarrow> symref \<Rightarrow> bool" where
  "returns s G calc q \<longleftrightarrow> (\<forall>t. fit s G t \<longrightarrow> (\<exists>t'. calc q t = Some t' \<and> goes s G t t' \<and> is_valid t' q))"

definition serves :: "kstate \<Rightarrow> symref set \<Rightarrow> calc \<Rightarrow> symref set \<Rightarrow> bool" where
  "serves s G calc Q \<longleftrightarrow> (\<forall>q t. is_valid t q \<longrightarrow> calc q t = Some t) \<and> k_modules_sym s \<noteq> None \<and> Q \<inter> G = {} \<and>
     (\<forall>q \<in> Q. returns s G calc q)"

lemma serves_calc:
  assumes "serves s G calc Q" "q \<in> Q" "fit s G t"
  obtains t' where "calc q t = Some t'" "goes s G t t'" "is_valid t' q" "has_str t' q"
proof -
  obtain t' where t': "calc q t = Some t'" "goes s G t t'" "is_valid t' q"
    using assms by (simp add: serves_def returns_def) blast
  moreover have "q \<notin> G" using assms(1,2) by (auto simp: serves_def)
  ultimately show thesis using that by (auto simp: goes_def fit_def)
qed

lemma string_returns:
  assumes "serves s G calc Q" "q \<in> Q" "fit s G t" "is_valid t q"
  shows "\<exists>v. sym_get_string_value calc q t = Some (v, t)"
proof -
  obtain m where m: "k_modules_sym t = Some m" "is_valid t m"
    using assms(1) fitD(2,4) [OF assms(3)] by (auto simp: serves_def ready_def)
  have "has_str t q" using assms by (auto simp: serves_def fit_def)
  then show ?thesis using m assms(1)
    by (auto simp: sym_get_string_value_def has_str_def calc_opt_def serves_def split: tristate.split)
qed

lemma same_returns:
  assumes "serves s G calc Q" "a \<in> Q" "b \<in> Q" "fit s G t"
  shows "\<exists>v t'. calc_same calc a b t = Some (v, t') \<and> goes s G t t'"
proof -
  obtain t1 where t1: "calc a t = Some t1" "goes s G t t1" "is_valid t1 a" using serves_calc [OF assms(1,2,4)] by blast
  obtain t2 where t2: "calc b t1 = Some t2" "goes s G t1 t2" "is_valid t2 b"
    using serves_calc [OF assms(1,3) goes_fit [OF t1(2)]] by blast
  have "is_valid t2 a" using goes_valid [OF t2(2) t1(3)] .
  then obtain v w where "sym_get_string_value calc a t2 = Some (v, t2)" "sym_get_string_value calc b t2 = Some (w, t2)"
    using string_returns [OF assms(1,2) goes_fit [OF t2(2)]] string_returns [OF assms(1,3) goes_fit [OF t2(2)] t2(3)] by blast
  then show ?thesis using t1(1) t2(1) goes_trans [OF t1(2) t2(2)] by (simp add: calc_same_def)
qed

lemma expr_returns:
  "serves s G calc Q \<Longrightarrow> expr_refs e \<subseteq> Q \<Longrightarrow> fit s G t \<Longrightarrow> \<exists>v t'. calc_expr calc e t = Some (v, t') \<and> goes s G t t'"
proof (induction e arbitrary: t)
  case (E_SYMBOL r)
  then obtain t' where "calc r t = Some t'" "goes s G t t'" using serves_calc [of s G calc Q r t] by auto
  then show ?case by simp
next
  case (E_NOT e)
  then have "expr_refs e \<subseteq> Q" by simp
  then obtain v t' where "calc_expr calc e t = Some (v, t')" "goes s G t t'"
    using E_NOT.IH [OF E_NOT.prems(1) _ E_NOT.prems(3)] by blast
  then show ?case by simp
next
  case (E_AND l r)
  then have q: "expr_refs l \<subseteq> Q" "expr_refs r \<subseteq> Q" by simp_all
  obtain v t1 where t1: "calc_expr calc l t = Some (v, t1)" "goes s G t t1"
    using E_AND.IH(1) [OF E_AND.prems(1) q(1) E_AND.prems(3)] by blast
  obtain w t2 where "calc_expr calc r t1 = Some (w, t2)" "goes s G t1 t2"
    using E_AND.IH(2) [OF E_AND.prems(1) q(2) goes_fit [OF t1(2)]] by blast
  then show ?case using t1(1) goes_trans [OF t1(2)] by simp
next
  case (E_OR l r)
  then have q: "expr_refs l \<subseteq> Q" "expr_refs r \<subseteq> Q" by simp_all
  obtain v t1 where t1: "calc_expr calc l t = Some (v, t1)" "goes s G t t1"
    using E_OR.IH(1) [OF E_OR.prems(1) q(1) E_OR.prems(3)] by blast
  obtain w t2 where "calc_expr calc r t1 = Some (w, t2)" "goes s G t1 t2"
    using E_OR.IH(2) [OF E_OR.prems(1) q(2) goes_fit [OF t1(2)]] by blast
  then show ?case using t1(1) goes_trans [OF t1(2)] by simp
next
  case (E_EQUAL a b)
  then obtain v t' where "calc_same calc a b t = Some (v, t')" "goes s G t t'" using same_returns [of s G calc Q a b t] by auto
  then show ?case by simp
next
  case (E_UNEQUAL a b)
  then obtain v t' where "calc_same calc a b t = Some (v, t')" "goes s G t t'" using same_returns [of s G calc Q a b t] by auto
  then show ?case by simp
qed (auto simp: goes_prims)

lemma value_returns:
  assumes "serves s G calc Q" "opt_refs e \<subseteq> Q" "fit s G t"
  shows "\<exists>v t'. expr_calc_value calc e t = Some (v, t') \<and> goes s G t t'"
    "\<exists>v t'. calc_dep calc d e t = Some (v, t') \<and> goes s G t t'"
  using assms(2,3) expr_returns [OF assms(1) _ assms(3)]
  by (cases e; simp add: expr_calc_value_def calc_dep_def opt_refs_def)+

lemma prop_visible_returns:
  assumes "serves s G calc Q" "opt_refs (ev_expr (p_visible (k_prop s p))) \<subseteq> Q" "fit s G t"
  shows "\<exists>v t'. prop_calc_visible calc p t = Some (v, t') \<and> goes s G t t'"
proof -
  obtain v t1 where "expr_calc_value calc (ev_expr (p_visible (k_prop t p))) t = Some (v, t1)" "goes s G t t1"
    using value_returns(1) [OF assms] fitD(8) [OF assms(3)] by auto
  moreover from this have "goes s G t (upd_prop p (\<lambda>x. x\<lparr>p_visible := (p_visible x)\<lparr>ev_tri := v\<rparr>\<rparr>) t1)"
    using goes_trans goes_prims(6) goes_fit by blast
  ultimately show ?thesis by (simp add: prop_calc_visible_def)
qed

lemma first_visible_returns:
  "serves s G calc Q \<Longrightarrow> \<forall>p \<in> set ps. opt_refs (ev_expr (p_visible (k_prop s p))) \<subseteq> Q \<Longrightarrow> fit s G t \<Longrightarrow>
   \<exists>v t'. first_visible calc ps t = Some (v, t') \<and> goes s G t t' \<and> (\<forall>p. v = Some p \<longrightarrow> p \<in> set ps)"
proof (induction ps arbitrary: t)
  case (Cons p ps)
  obtain v t1 where v: "prop_calc_visible calc p t = Some (v, t1)" "goes s G t t1"
    using prop_visible_returns [of s G calc Q p t] Cons.prems by auto
  obtain w t2 where "first_visible calc ps t1 = Some (w, t2)" "goes s G t1 t2" "\<forall>p. w = Some p \<longrightarrow> p \<in> set ps"
    using Cons.IH [of t1] Cons.prems goes_fit [OF v(2)] by auto
  then show ?case using v goes_trans [OF v(2)] by (cases "v = No") auto
qed simp

lemma prompts_returns:
  "serves s G calc Q \<Longrightarrow> \<forall>p \<in> set ps. opt_refs (ev_expr (p_visible (k_prop s p))) \<subseteq> Q \<Longrightarrow> fit s G t \<Longrightarrow>
   \<exists>v' t'. calc_prompts calc ps v t = Some (v', t') \<and> goes s G t t'"
proof (induction ps arbitrary: t v)
  case (Cons p ps)
  obtain w t1 where w: "prop_calc_visible calc p t = Some (w, t1)" "goes s G t t1"
    using prop_visible_returns [of s G calc Q p t] Cons.prems by auto
  obtain v' t2 where "calc_prompts calc ps (EXPR_OR v w) t1 = Some (v', t2)" "goes s G t1 t2"
    using Cons.IH [of t1 "EXPR_OR v w"] Cons.prems goes_fit [OF w(2)] by auto
  then show ?case using w(1) goes_trans [OF w(2)] by simp
qed simp

section \<open>The evaluation of a symbol\<close>

text \<open>
  A symbol that can be evaluated: no choice and no choice value, with a name, and if it has a
  string type with a string as the user's value; range properties have bounds; and the warning about
  an unmet dependency can be printed.
\<close>

definition well :: "kstate \<Rightarrow> symref \<Rightarrow> bool" where
  "well s r \<longleftrightarrow> plain s r \<and> name (k_sym s r) \<noteq> None \<and>
     (stype (k_sym s r) \<in> {S_STRING, S_INT, S_HEX} \<and> sym_has_value (k_sym s r) \<longrightarrow> cstr (val (sdef (k_sym s r) S_DEF_USER)) \<noteq> None) \<and>
     (\<forall>p \<in> set (props_of s r P_RANGE). range_syms (k_prop s p) \<noteq> None) \<and>
     (\<forall>p \<in> set (props_of s r P_DEFAULT). prop_get_symbol (k_prop s p) \<noteq> None) \<and>
     (ev_expr (rev_dep (k_sym s r)) \<noteq> None \<longrightarrow> (\<forall>t. erase t = erase s \<longrightarrow> unmet_warning r t \<noteq> None))"

lemma prop_refs_sub:
  assumes "refs s r \<subseteq> Q"
  shows "p \<in> set (prompts_of s r) \<or> p \<in> set (props_of s r ty) \<Longrightarrow> opt_refs (ev_expr (p_visible (k_prop s p))) \<subseteq> Q"
    "p \<in> set (props_of s r P_DEFAULT) \<or> p \<in> set (props_of s r P_RANGE) \<Longrightarrow> opt_refs (p_expr (k_prop s p)) \<subseteq> Q"
    "opt_refs (ev_expr (dir_dep (k_sym s r))) \<subseteq> Q" "opt_refs (ev_expr (rev_dep (k_sym s r))) \<subseteq> Q"
proof -
  have p: "prop_refs (k_prop s p) \<subseteq> Q" if "p \<in> set (props (k_sym s r))" for p using that assms by (auto simp: refs_def)
  show "opt_refs (ev_expr (p_visible (k_prop s p))) \<subseteq> Q" if "p \<in> set (prompts_of s r) \<or> p \<in> set (props_of s r ty)"
    using that p [of p] by (auto simp: prompts_of_def props_of_def prop_refs_def)
  show "opt_refs (p_expr (k_prop s p)) \<subseteq> Q" if "p \<in> set (props_of s r P_DEFAULT) \<or> p \<in> set (props_of s r P_RANGE)"
  proof -
    have "p_type (k_prop s p) = P_DEFAULT \<or> p_type (k_prop s p) = P_RANGE" "prop_refs (k_prop s p) \<subseteq> Q"
      using that p [of p] by (auto simp: props_of_def)
    then show ?thesis by (simp add: prop_refs_def)
  qed
  show "opt_refs (ev_expr (dir_dep (k_sym s r))) \<subseteq> Q" "opt_refs (ev_expr (rev_dep (k_sym s r))) \<subseteq> Q"
    using assms by (auto simp: refs_def)
qed

lemma visibility_returns:
  assumes "serves s G calc Q" "refs s r \<subseteq> Q" "fit s G t" "well s r"
  shows "\<exists>t'. sym_calc_visibility calc r t = Some t' \<and> goes s G t t'"
proof -
  have "\<forall>p \<in> set (prompts_of s r). opt_refs (ev_expr (p_visible (k_prop s p))) \<subseteq> Q"
    using prop_refs_sub(1) [OF assms(2)] by blast
  from prompts_returns [OF assms(1) this assms(3), of No] obtain v t1 where
    t1: "calc_prompts calc (prompts_of t r) No t = Some (v, t1)" "goes s G t t1"
    using fitD(14) [OF assms(3), of r] by auto
  define v' where "v' = (if v = Mod \<and> (stype (k_sym t1 r) \<noteq> S_TRISTATE \<or> k_modules_val t1 = No) then Yes else v)"
  define t2 where "t2 = set_visible r v' t1"
  have t2: "goes s G t t2" using goes_trans [OF t1(2) goes_set_dep(1) [OF goes_fit [OF t1(2)]]] by (simp add: t2_def)
  note f2 = goes_fit [OF t2]
  have c: "\<not> sym_is_choice_value (k_sym t2 r)" using assms(4) fitD(6) [OF f2, of r] by (simp add: well_def plain_def)
  obtain d t3 where t3: "calc_dep calc Yes (ev_expr (dir_dep (k_sym t2 r))) t2 = Some (d, t3)" "goes s G t2 t3"
    using value_returns(2) [OF assms(1) prop_refs_sub(3) [OF assms(2)] f2, of Yes] fitD(11) [OF f2] by auto
  define t4 where "t4 = set_dir_dep r (if d = Mod then Yes else d) t3"
  have t4: "goes s G t t4"
    using goes_trans [OF goes_trans [OF t2 t3(2)] goes_set_dep(2) [OF goes_fit [OF t3(2)]]] by (simp add: t4_def)
  note f4 = goes_fit [OF t4]
  obtain e t5 where t5: "calc_dep calc No (ev_expr (rev_dep (k_sym t4 r))) t4 = Some (e, t5)" "goes s G t4 t5"
    using value_returns(2) [OF assms(1) prop_refs_sub(4) [OF assms(2)] f4, of No] fitD(12) [OF f4] by auto
  define t6 where "t6 = set_rev_dep r (if e = Mod \<and> sym_get_type t5 r = S_BOOLEAN then Yes else e) t5"
  have "ev_expr (rev_dep (k_sym t5 r)) = None \<longrightarrow> e = No"
    using t5(1) fitD(12) [OF f4, of r] fitD(12) [OF goes_fit [OF t5(2)], of r] by (auto simp: calc_dep_def)
  then have t6: "goes s G t t6"
    using goes_trans [OF goes_trans [OF t4 t5(2)] goes_set_dep(3) [OF goes_fit [OF t5(2)]]] by (simp add: t6_def)
  moreover have "sym_calc_visibility calc r t = Some t6"
    unfolding sym_calc_visibility_def Let_def t1(1) bind.bind_lunit prod.case v'_def [symmetric] t2_def [symmetric]
    using c t3(1) t5(1) by (simp add: t4_def t6_def)
  ultimately show ?thesis by auto
qed

lemma default_returns:
  assumes "serves s G calc Q" "refs s r \<subseteq> Q" "fit s G t" "p \<in> set (props_of s r P_DEFAULT)"
  shows "\<exists>v t'. calc_default calc p t = Some (v, t') \<and> goes s G t t'"
proof -
  note sub = prop_refs_sub(2) [OF assms(2), of p]
  obtain v t1 where t1: "expr_calc_value calc (p_expr (k_prop s p)) t = Some (v, t1)" "goes s G t t1"
    using value_returns(1) [OF assms(1) sub assms(3)] assms(4) by auto
  obtain w t2 where t2: "expr_calc_value calc (p_expr (k_prop s p)) t1 = Some (w, t2)" "goes s G t1 t2"
    using value_returns(1) [OF assms(1) sub goes_fit [OF t1(2)]] assms(4) by auto
  have e: "p_expr (k_prop t p) = p_expr (k_prop s p)" "p_expr (k_prop t1 p) = p_expr (k_prop s p)"
    using fitD(9) [OF assms(3)] fitD(9) [OF goes_fit [OF t1(2)]] by simp_all
  show ?thesis
    using t1 t2 e goes_trans [OF t1(2) t2(2)] by (cases "v < ev_tri (p_visible (k_prop t1 p))") (auto simp: calc_default_def)
qed

lemma default_prop_returns:
  assumes "serves s G calc Q" "refs s r \<subseteq> Q" "fit s G t"
  shows "\<exists>v t'. sym_get_default_prop calc r t = Some (v, t') \<and> goes s G t t' \<and> (\<forall>p. v = Some p \<longrightarrow> p \<in> set (props_of s r P_DEFAULT))"
    "\<exists>v t'. sym_get_range_prop calc r t = Some (v, t') \<and> goes s G t t' \<and> (\<forall>p. v = Some p \<longrightarrow> p \<in> set (props_of s r P_RANGE))"
proof -
  have "\<forall>p \<in> set (props_of s r ty). opt_refs (ev_expr (p_visible (k_prop s p))) \<subseteq> Q" for ty
    using prop_refs_sub(1) [OF assms(2)] by blast
  note f = first_visible_returns [OF assms(1) this assms(3)]
  show "\<exists>v t'. sym_get_default_prop calc r t = Some (v, t') \<and> goes s G t t' \<and> (\<forall>p. v = Some p \<longrightarrow> p \<in> set (props_of s r P_DEFAULT))"
    using f [of P_DEFAULT] fitD(15) [OF assms(3), of r] by (simp add: sym_get_default_prop_def)
  show "\<exists>v t'. sym_get_range_prop calc r t = Some (v, t') \<and> goes s G t t' \<and> (\<forall>p. v = Some p \<longrightarrow> p \<in> set (props_of s r P_RANGE))"
    using f [of P_RANGE] fitD(15) [OF assms(3), of r] by (simp add: sym_get_range_prop_def)
qed

lemma write_if: "fit s G t \<Longrightarrow> goes s G t (if b then set_flags r {SYMBOL_WRITE} t else t)"
  by (simp add: goes_prims)

lemma tri_base_returns:
  assumes "serves s G calc Q" "refs s r \<subseteq> Q" "fit s G t" "well s r"
  shows "\<exists>v' t'. calc_tri_base calc r v t = Some (v', t') \<and> goes s G t t'"
proof -
  define t1 where "t1 = (if visible (k_sym t r) \<noteq> No then set_flags r {SYMBOL_WRITE} t else t)"
  have t1: "goes s G t t1" unfolding t1_def by (rule write_if [OF assms(3)])
  define t2 where "t2 = (if ev_tri (rev_dep (k_sym t1 r)) \<noteq> No then set_flags r {SYMBOL_WRITE} t1 else t1)"
  have t2: "goes s G t t2" using goes_trans [OF t1] write_if [OF goes_fit [OF t1]] by (simp add: t2_def)
  have c: "\<not> sym_is_choice (k_sym t2 r)" using assms(4) fitD(6) [OF goes_fit [OF t2], of r] by (simp add: well_def plain_def)
  obtain d t3 where t3: "sym_get_default_prop calc r t2 = Some (d, t3)" "goes s G t2 t3" "\<forall>p. d = Some p \<longrightarrow> p \<in> set (props_of s r P_DEFAULT)"
    using default_prop_returns(1) [OF assms(1,2) goes_fit [OF t2]] by blast
  have t3': "goes s G t t3" by (rule goes_trans [OF t2 t3(2)])
  define t4 where "t4 = set_flags r {SYMBOL_WRITE} t3"
  have t4: "goes s G t t4" using goes_trans [OF t3' goes_prims(4) [OF goes_fit [OF t3']]] by (simp add: t4_def)
  have e: "calc_tri_base calc r v t =
      (if visible (k_sym t1 r) \<noteq> No \<and> sym_has_value (k_sym t1 r) then Some (EXPR_AND (tri (def_user t1 r)) (visible (k_sym t1 r)), t1)
       else case d of None \<Rightarrow> Some (v, t3) | Some p \<Rightarrow> calc_default calc p t4)"
    unfolding calc_tri_base_def Let_def t1_def [symmetric] t2_def [symmetric] using c t3(1) by (simp add: t4_def split: option.split)
  show ?thesis
  proof (cases d)
    case None
    then show ?thesis using e t1 t3' by simp
  next
    case (Some p)
    then obtain w t5 where "calc_default calc p t4 = Some (w, t5)" "goes s G t4 t5"
      using default_returns [OF assms(1,2) goes_fit [OF t4]] t3(3) by blast
    then show ?thesis using e Some t1 goes_trans [OF t4] by simp
  qed
qed

text \<open>The warning about unmet dependencies only logs.\<close>

lemma warning_goes: "unmet_warning r t = Some t' \<Longrightarrow> fit s G t \<Longrightarrow> goes s G t t'"
  by (auto simp: unmet_warning_def goes_prims elim!: bind_SomeE)

lemma tri_returns:
  assumes "serves s G calc Q" "refs s r \<subseteq> Q" "fit s G t" "well s r"
  shows "\<exists>v' t'. calc_tri calc r v t = Some (v', t') \<and> goes s G t t'"
proof -
  have c: "\<not> sym_is_choice_value (k_sym t r)" using assms(4) fitD(6) [OF assms(3), of r] by (simp add: well_def plain_def)
  obtain w t1 where t1: "calc_tri_base calc r v t = Some (w, t1)" "goes s G t t1" using tri_base_returns [OF assms] by blast
  note f1 = goes_fit [OF t1(2)]
  let ?b = "ev_tri (dir_dep (k_sym t1 r)) = No \<and> ev_tri (rev_dep (k_sym t1 r)) \<noteq> No"
  have "\<exists>t2. (if ?b then unmet_warning r t1 else Some t1) = Some t2"
  proof (cases ?b)
    case True
    then have "ev_expr (rev_dep (k_sym t1 r)) \<noteq> None" using f1 by (auto simp: fit_def)
    then have "unmet_warning r t1 \<noteq> None" using assms(4) fitD(1,12) [OF f1] by (simp add: well_def)
    then show ?thesis using True by simp
  next
    case False
    then show ?thesis by (simp only: if_False) simp
  qed
  then obtain t2 where t2: "(if ?b then unmet_warning r t1 else Some t1) = Some t2" by blast
  then have "goes s G t1 t2" using warning_goes [OF _ f1] f1 by (cases ?b) auto
  then have "goes s G t t2" by (rule goes_trans [OF t1(2)])
  moreover have "\<exists>x. calc_tri calc r v t = Some (x, t2)" using c t1(1) t2 by (simp add: calc_tri_def)
  ultimately show ?thesis by blast
qed

lemma str_returns:
  assumes "serves s G calc Q" "refs s r \<subseteq> Q" "fit s G t" "well s r" "cstr v \<noteq> None" "stype (k_sym s r) \<in> {S_STRING, S_INT, S_HEX}" "r \<in> G"
  shows "\<exists>v' t'. calc_str calc r v t = Some (v', t') \<and> goes s G t t' \<and> cstr v' \<noteq> None"
proof -
  define t1 where "t1 = (if visible (k_sym t r) \<noteq> No then set_flags r {SYMBOL_WRITE} t else t)"
  have t1: "goes s G t t1" unfolding t1_def by (rule write_if [OF assms(3)])
  note f1 = goes_fit [OF t1]
  obtain d t2 where t2: "sym_get_default_prop calc r t1 = Some (d, t2)" "goes s G t1 t2" "\<forall>p. d = Some p \<longrightarrow> p \<in> set (props_of s r P_DEFAULT)"
    using default_prop_returns(1) [OF assms(1,2) f1] by blast
  have t2': "goes s G t t2" by (rule goes_trans [OF t1 t2(2)])
  note f2 = goes_fit [OF t2']
  show ?thesis
  proof (cases "visible (k_sym t1 r) \<noteq> No \<and> sym_has_value (k_sym t1 r)")
    case True
    then have "cstr (val (def_user t1 r)) \<noteq> None" using f1 assms(4,6,7) by (simp add: fit_def well_def def_user_def)
    then show ?thesis using True t1 by (simp add: calc_str_def Let_def t1_def [symmetric])
  next
    case F: False
    show ?thesis
    proof (cases d)
      case None
      then show ?thesis using F t2 t2' assms(5) by (auto simp add: calc_str_def Let_def t1_def [symmetric])
    next
      case (Some p)
      then have p: "p \<in> set (props_of s r P_DEFAULT)" using t2(3) by simp
      then have "prop_get_symbol (k_prop s p) \<noteq> None" using assms(4) unfolding well_def by blast
      then obtain ds where ds: "prop_get_symbol (k_prop t2 p) = Some ds"
        using fitD(9) [OF f2, of p] by (auto simp: prop_get_symbol_def)
      show ?thesis
      proof (cases ds)
        case None
        then show ?thesis using F \<open>d = Some p\<close> t2 t2' ds assms(5) by (auto simp add: calc_str_def Let_def t1_def [symmetric])
      next
        case (Some q)
        then have "q \<in> opt_refs (p_expr (k_prop s p))"
          using ds fitD(9) [OF f2, of p] by (auto simp: prop_get_symbol_def opt_refs_def split: option.splits expr.splits if_splits)
        then have q: "q \<in> Q" using prop_refs_sub(2) [OF assms(2), of p] p by blast
        have w: "goes s G t2 (set_flags r {SYMBOL_WRITE} t2)" by (rule goes_prims(4) [OF f2])
        obtain t3 where t3: "calc q (set_flags r {SYMBOL_WRITE} t2) = Some t3" "goes s G (set_flags r {SYMBOL_WRITE} t2) t3" "has_str t3 q"
          using serves_calc [OF assms(1) q goes_fit [OF w]] by blast
        have "goes s G t t3" by (rule goes_trans [OF t2' goes_trans [OF w t3(2)]])
        then show ?thesis using F \<open>d = Some p\<close> Some t2(1) ds t3(1,3) by (auto simp add: calc_str_def Let_def t1_def [symmetric] has_str_def)
      qed
    qed
  qed
qed

lemma newval_returns:
  assumes "serves s G calc Q" "refs s r \<subseteq> Q" "fit s G t" "well s r" "cstr (val nv) \<noteq> None" "r \<in> G"
  shows "\<exists>nv' t'. calc_newval calc r nv t = Some (nv', t') \<and> goes s G t t' \<and> cstr (val nv') \<noteq> None"
proof -
  have y: "stype (k_sym t r) = stype (k_sym s r)" "sym_get_type t r \<in> {S_BOOLEAN, S_TRISTATE} \<or> sym_get_type t r = stype (k_sym s r)"
    using fitD(5) [OF assms(3), of r] by (auto simp: sym_get_type_def)
  show ?thesis
  proof (cases "sym_get_type t r = S_BOOLEAN \<or> sym_get_type t r = S_TRISTATE")
    case True
    obtain v t1 where "calc_tri calc r (tri nv) t = Some (v, t1)" "goes s G t t1" using tri_returns [OF assms(1-4)] by blast
    then show ?thesis using True assms(5) by (simp add: calc_newval_def)
  next
    case False
    then have e: "sym_get_type t r = stype (k_sym s r)" using y(2) by auto
    show ?thesis
    proof (cases "stype (k_sym s r) \<in> {S_STRING, S_INT, S_HEX}")
      case True
      then obtain v t1 where "calc_str calc r (val nv) t = Some (v, t1)" "goes s G t t1" "cstr v \<noteq> None"
        using str_returns [OF assms(1-5) _ assms(6)] by blast
      then show ?thesis using True False e by (auto simp: calc_newval_def)
    next
      case False
      then show ?thesis using \<open>\<not> (sym_get_type t r = S_BOOLEAN \<or> sym_get_type t r = S_TRISTATE)\<close> e assms(3,5)
        by (simp add: calc_newval_def)
    qed
  qed
qed

section \<open>Ranges and the whole step\<close>

text \<open>
  The evaluation of \<open>r\<close> itself changes the value of \<open>r\<close>, which is under way; the other evaluated symbols
  stay as they are.
\<close>

definition slides :: "kstate \<Rightarrow> symref \<Rightarrow> symref set \<Rightarrow> kstate \<Rightarrow> kstate \<Rightarrow> bool" where
  "slides s r G t t' \<longleftrightarrow> fit s (insert r G) t' \<and> (is_valid t r \<longrightarrow> is_valid t' r) \<and>
     (\<forall>q. is_valid t q \<longrightarrow> q \<noteq> r \<longrightarrow> is_valid t' q \<and> curr (k_sym t' q) = curr (k_sym t q))"

lemma slides_fit: "slides s r G t t' \<Longrightarrow> fit s (insert r G) t'"
  by (simp add: slides_def)

lemma slides_trans: "slides s r G t t' \<Longrightarrow> slides s r G t' t'' \<Longrightarrow> slides s r G t t''"
  by (auto simp: slides_def)

lemma goes_slides: "goes s (insert r G) t t' \<Longrightarrow> slides s r G t t'"
  by (simp add: goes_def grows_def slides_def)

text \<open>A symbol other than the constants and \<open>modules\<close> can be written to.\<close>

definition own :: "kstate \<Rightarrow> symref \<Rightarrow> bool" where
  "own s r \<longleftrightarrow> r \<noteq> Symbol_no \<and> r \<noteq> Symbol_empty \<and> k_modules_sym s \<noteq> Some r"

lemma slides_curr:
  assumes "fit s (insert r G) t" "own s r"
  shows "slides s r G t (upd_sym r (\<lambda>x. x\<lparr>curr := f x\<rparr>) t)"
proof -
  let ?t = "upd_sym r (\<lambda>x. x\<lparr>curr := f x\<rparr>) t"
  have e: "erase ?t = erase t" by (rule erase_upd_sym) (simp add: erase_sym_def)
  have "ready ?t" using assms choices_wf_erase [OF e]
    by (auto simp: fit_def ready_def tri_env_def own_def has_flag_def)
  then show ?thesis using assms e
    by (auto simp: slides_def fit_def has_str_def own_def has_flag_def sym_has_value_def)
qed

lemma range_val_returns:
  assumes "serves s G calc Q" "q \<in> Q" "fit s G t"
  shows "\<exists>v t'. sym_get_range_val calc q b t = Some (v, t') \<and> goes s G t t'"
proof -
  obtain t' where "calc q t = Some t'" "goes s G t t'" "has_str t' q" using serves_calc [OF assms] by blast
  then show ?thesis by (auto simp: sym_get_range_val_def has_str_def Let_def)
qed

lemma validate_returns:
  assumes "serves s (insert r G) calc Q" "refs s r \<subseteq> Q" "fit s (insert r G) t" "well s r" "own s r" "is_valid t r" "has_str t r"
  shows "\<exists>t'. sym_validate_range calc r t = Some t' \<and> slides s r G t t' \<and> has_str t' r"
proof (cases "num_base (stype (k_sym t r))")
  case None
  then show ?thesis using assms(3,7) by (simp add: sym_validate_range_def goes_slides)
next
  case (Some base)
  obtain d t1 where t1: "sym_get_range_prop calc r t = Some (d, t1)" "goes s (insert r G) t t1"
    and d: "\<forall>p. d = Some p \<longrightarrow> p \<in> set (props_of s r P_RANGE)"
    using default_prop_returns(2) [OF assms(1-3)] by blast
  have keep: "has_str t' r" if "goes s (insert r G) t t'" for t'
    using that assms(6,7) by (simp add: goes_def grows_def has_str_def)
  note f1 = goes_fit [OF t1(2)]
  obtain str where str: "cstr (val (curr (k_sym t1 r))) = Some str" using keep [OF t1(2)] by (auto simp: has_str_def)
  show ?thesis
  proof (cases d)
    case None
    then show ?thesis using Some t1 keep by (simp add: sym_validate_range_def goes_slides)
  next
    case p: (Some p)
    then have m: "p \<in> set (props_of s r P_RANGE)" using d by simp
    then have "range_syms (k_prop s p) \<noteq> None" using assms(4) unfolding well_def by blast
    then obtain lo hi where lh: "p_expr (k_prop s p) = Some (E_RANGE lo hi)"
      by (auto simp: range_syms_def split: option.splits expr.splits)
    then have q: "lo \<in> Q" "hi \<in> Q" using prop_refs_sub(2) [OF assms(2), of p] m by (auto simp: opt_refs_def)
    have rs: "range_syms (k_prop t1 p) = Some (lo, hi)" using lh fitD(9) [OF f1, of p] by (simp add: range_syms_def)
    obtain v t2 where t2: "sym_get_range_val calc lo base t1 = Some (v, t2)" "goes s (insert r G) t1 t2"
      using range_val_returns [OF assms(1) q(1) f1] by blast
    obtain w t3 where t3: "sym_get_range_val calc hi base t2 = Some (w, t3)" "goes s (insert r G) t2 t3"
      using range_val_returns [OF assms(1) q(2) goes_fit [OF t2(2)]] by blast
    have g2: "goes s (insert r G) t t2" by (rule goes_trans [OF t1(2) t2(2)])
    have g3: "goes s (insert r G) t t3" by (rule goes_trans [OF g2 t3(2)])
    have fin: "slides s r G t t' \<and> has_str t' r"
      if g: "goes s (insert r G) t t4" and t': "t' = upd_sym r (\<lambda>x. x\<lparr>curr := (curr x)\<lparr>val := VStr k z\<rparr>\<rparr>) (t4\<lparr>k_nstr := l\<rparr>)" for t4 t' k z l
    proof -
      have "slides s r G t (t4\<lparr>k_nstr := l\<rparr>)"
        using goes_slides goes_trans [OF g goes_prims(2) [OF goes_fit [OF g]]] by blast
      then show ?thesis using slides_trans slides_curr [OF slides_fit assms(5)] unfolding t' by (fastforce simp: has_str_def cstr_def)
    qed
    have low: "slides s r G t t2 \<and> has_str t2 r" "slides s r G t t3 \<and> has_str t3 r" using goes_slides keep g2 g3 by blast+
    show ?thesis
      using Some t1(1) p str rs t2(1) t3(1) fin [OF g2] fin [OF g3] low
      by (cases "v \<le> strtoll base str"; cases "strtoll base str \<le> w") (simp_all add: sym_validate_range_def Let_def alloc_str_def)
  qed
qed

lemma main_returns:
  assumes "serves s (insert r G) calc Q" "refs s r \<subseteq> Q" "fit s (insert r G) t" "well s r" "own s r" "is_valid t r" "cstr (val nv) \<noteq> None"
  shows "\<exists>t'. calc_main calc r nv t = Some t' \<and> slides s r G t t' \<and> has_str t' r"
proof -
  note pl = assms(4) [unfolded well_def, THEN conjunct1]
  have c: "\<not> sym_is_choice_value (k_sym t r)" using pl fitD(6) [OF assms(3), of r] by (simp add: plain_def)
  define t1 where "t1 = clear_flags r {SYMBOL_WRITE} t"
  have t1: "slides s r G t t1" using goes_slides goes_prims(5) [OF assms(3)] unfolding t1_def by blast
  obtain t2 where t2: "sym_calc_visibility calc r t1 = Some t2" "slides s r G t1 t2"
    using visibility_returns [OF assms(1,2) slides_fit [OF t1] assms(4)] goes_slides by blast
  define t3 where "t3 = set_curr r nv t2"
  have t3: "slides s r G t2 t3" using slides_curr [OF slides_fit [OF t2(2)] assms(5), of "\<lambda>_. nv"] by (simp add: t3_def set_curr_def)
  obtain nv' t4 where t4: "calc_newval calc r nv t3 = Some (nv', t4)" "slides s r G t3 t4" "cstr (val nv') \<noteq> None"
    using newval_returns [OF assms(1,2) slides_fit [OF t3] assms(4,7) insertI1] goes_slides by blast
  define t5 where "t5 = set_curr r nv' t4"
  have t5: "slides s r G t4 t5" using slides_curr [OF slides_fit [OF t4(2)] assms(5), of "\<lambda>_. nv'"] by (simp add: t5_def set_curr_def)
  have g: "slides s r G t t5" using t1 t2(2) t3 t4(2) t5 slides_trans by blast
  have v: "is_valid t5 r" "has_str t5 r" using g assms(6) t4(3) by (auto simp: slides_def t5_def has_str_def set_curr_def)
  have c5: "\<not> sym_is_choice (k_sym t5 r)" using pl fitD(6) [OF slides_fit [OF g], of r] by (simp add: plain_def)
  obtain t6 where "sym_validate_range calc r t5 = Some t6" "slides s r G t5 t6" "has_str t6 r"
    using validate_returns [OF assms(1,2) slides_fit [OF g] assms(4,5) v] by blast
  moreover have "calc_main calc r nv t = sym_validate_range calc r t5"
    using c c5 t2(1) t4(1) by (simp add: calc_main_def Let_def t1_def t3_def t5_def)
  ultimately show ?thesis using slides_trans [OF g] by auto
qed

lemma epilogue_returns:
  assumes "fit s G t" "plain s r" "own s r"
  shows "\<exists>t'. calc_epilogue r old t = Some t' \<and> goes s G t t'"
proof -
  define t1 where "t1 = note_change r old t"
  have t1: "goes s G t t1" using assms goes_prims(3) [OF assms(1)] fitD(4) [OF assms(1)] by (simp add: t1_def note_change_def own_def)
  note f1 = goes_fit [OF t1]
  have c: "\<not> sym_is_choice (k_sym t1 r)" using assms(2) fitD(6) [OF f1, of r] by (simp add: plain_def)
  define t2 where "t2 = (if has_flag t1 r SYMBOL_AUTO then clear_flags r {SYMBOL_WRITE} t1 else t1)"
  have t2: "goes s G t t2" using goes_trans [OF t1 goes_prims(5) [OF f1]] t1 by (simp add: t2_def)
  have "\<not> needs_set t2 r" using goes_fit [OF t2] by (simp add: fit_def ready_def)
  then have "calc_epilogue r old t = Some t2"
    using c by (simp add: calc_epilogue_def choice_marks_def Let_def t1_def [symmetric] t2_def [symmetric])
  then show ?thesis using t2 by blast
qed

lemma start_fit:
  assumes "fit s G t" "\<not> is_valid t r"
  shows "fit s (insert r G) (set_flags r {SYMBOL_VALID} t)"
proof -
  let ?t = "set_flags r {SYMBOL_VALID} t"
  have e: "erase ?t = erase t" by (rule erase_set_flags) (simp add: dyn_flags_def)
  have "ready ?t" using assms(1) choices_wf_erase [OF e]
    by (auto simp: fit_def ready_def tri_env_def has_flag_def set_flags_def)
  moreover have "sym_has_value (k_sym ?t q) = sym_has_value (k_sym t q)" "is_valid ?t q \<longleftrightarrow> q = r \<or> is_valid t q"
      "sdef (k_sym ?t q) = sdef (k_sym t q)" "curr (k_sym ?t q) = curr (k_sym t q)" "rev_dep (k_sym ?t q) = rev_dep (k_sym t q)" for q
    by (auto simp: has_flag_def sym_has_value_def set_flags_def)
  ultimately show ?thesis using assms e by (simp add: fit_def has_str_def)
qed

lemma finish_goes:
  assumes "fit s G t" "\<not> is_valid t r" "slides s r G (set_flags r {SYMBOL_VALID} t) t'" "has_str t' r"
  shows "goes s G t t'" "is_valid t' r"
proof -
  show "is_valid t' r" using assms(3) by (simp add: slides_def has_flag_def set_flags_def)
  have "fit s G t'" using assms(3,4) unfolding slides_def fit_def by blast
  moreover have "is_valid t' q \<and> curr (k_sym t' q) = curr (k_sym t q)" if "is_valid t q" for q
  proof -
    have "q \<noteq> r" using that assms(2) by blast
    moreover have "is_valid (set_flags r {SYMBOL_VALID} t) q" "curr (k_sym (set_flags r {SYMBOL_VALID} t) q) = curr (k_sym t q)"
      using that by (auto simp: has_flag_def set_flags_def)
    ultimately show ?thesis using assms(3) by (simp add: slides_def)
  qed
  ultimately show "goes s G t t'" by (simp add: goes_def grows_def)
qed

lemma step_returns:
  assumes "serves s (insert r G) calc Q" "refs s r \<subseteq> Q" "well s r"
  shows "returns s G (sym_calc_step calc) r"
  unfolding returns_def
proof (intro allI impI)
  fix t assume t: "fit s G t"
  show "\<exists>t'. sym_calc_step calc r t = Some t' \<and> goes s G t t' \<and> is_valid t' r"
  proof (cases "is_valid t r")
    case True
    then show ?thesis using t by (simp add: sym_calc_step_def)
  next
    case F: False
    define t1 where "t1 = set_flags r {SYMBOL_VALID} t"
    note f1 = start_fit [OF t F, folded t1_def]
    have v1: "is_valid t1 r" by (simp add: t1_def has_flag_def set_flags_def)
    have pl: "plain s r" "\<not> sym_is_choice_value (k_sym t r)"
      using assms(3) fitD(6) [OF t, of r] by (simp_all add: well_def plain_def)
    have "r \<noteq> Symbol_no" "r \<noteq> Symbol_empty" "k_modules_sym t \<noteq> Some r" using t F by (auto simp: fit_def ready_def)
    then have o: "own s r" using fitD(4) [OF t] by (simp add: own_def)
    have st: "sym_calc_step calc r t = (case init_value t1 r of
        None \<Rightarrow> Some (upd_sym r (\<lambda>x. x\<lparr>curr := \<lparr>val = name_val r x, tri = No\<rparr>\<rparr>) t1)
      | Some nv \<Rightarrow> calc_main calc r nv t1 \<bind> calc_epilogue r (curr (k_sym t1 r)))"
      using F pl(2) by (simp add: sym_calc_step_def calc_prologue_def t1_def Let_def cong: option.case_cong)
    show ?thesis
    proof (cases "init_value t1 r")
      case None
      let ?t = "upd_sym r (\<lambda>x. x\<lparr>curr := \<lparr>val = name_val r x, tri = No\<rparr>\<rparr>) t1"
      have "has_str ?t r" using assms(3) fitD(13) [OF f1, of r] by (auto simp: has_str_def name_val_def cstr_def well_def)
      then have "goes s G t ?t \<and> is_valid ?t r"
        using finish_goes [OF t F] slides_curr [OF f1 o, of "\<lambda>x. \<lparr>val = name_val r x, tri = No\<rparr>"] by (simp add: t1_def)
      then show ?thesis using st None by simp
    next
      case (Some nv)
      then have "cstr (val nv) \<noteq> None" using f1 by (auto simp: init_value_def fit_def has_str_def split: symbol_type.splits)
      from main_returns [OF assms(1,2) f1 assms(3) o v1 this] obtain t2 where
        t2: "calc_main calc r nv t1 = Some t2" "slides s r G t1 t2" "has_str t2 r" by blast
      note g2 = finish_goes [OF t F t2(2) [unfolded t1_def] t2(3)]
      obtain t3 where t3: "calc_epilogue r (curr (k_sym t1 r)) t2 = Some t3" "goes s G t2 t3"
        using epilogue_returns [OF goes_fit [OF g2(1)] pl(1) o] by blast
      then show ?thesis using st Some t2(1) goes_trans [OF g2(1) t3(2)] goes_valid [OF t3(2) g2(2)] by simp
    qed
  qed
qed

section \<open>Evaluation returns\<close>

text \<open>
  A state in which evaluation may start: the symbol \<open>modules\<close> and the constants are evaluated, evaluated
  symbols have strings, and no symbol is selected without an expression for it.
\<close>

definition coherent :: "kstate \<Rightarrow> bool" where
  "coherent s \<longleftrightarrow> ready s \<and> is_valid s Symbol_empty \<and> k_modules_sym s \<noteq> None \<and> (\<forall>q. is_valid s q \<longrightarrow> has_str s q) \<and>
     (\<forall>q. ev_expr (rev_dep (k_sym s q)) = None \<longrightarrow> ev_tri (rev_dep (k_sym s q)) = No)"

lemma coherent_fit: "coherent s \<Longrightarrow> fit s {} s"
  by (simp add: coherent_def fit_def ready_def)

lemma finite_refs: "finite (refs s r)"
proof -
  have e: "finite (expr_refs e)" for e by (induction e) auto
  have "finite (opt_refs e)" for e using e by (simp add: opt_refs_def split: option.split)
  then show ?thesis by (simp add: refs_def prop_refs_def)
qed

lemma valid_returns: "is_valid s r \<Longrightarrow> returns s G (sym_calc_value (Suc n)) r"
  by (simp add: returns_def sym_calc_step_def fit_def)

lemma acc_returns:
  assumes "r \<in> Wellfounded.acc (eval_rel s)" "k_modules_sym s \<noteq> None" "\<forall>q. (q, r) \<in> (eval_rel s)\<^sup>* \<longrightarrow> is_valid s q \<or> well s q"
  shows "\<exists>N. \<forall>n \<ge> N. \<forall>G. (\<forall>q. (q, r) \<in> (eval_rel s)\<^sup>* \<longrightarrow> q \<notin> G) \<longrightarrow> returns s G (sym_calc_value n) r"
  using assms(1,3)
proof (induction rule: acc_induct_rule)
  case (1 r)
  let ?R = "eval_rel s"
  let ?P = "\<lambda>q N. \<forall>n \<ge> N. \<forall>G. (\<forall>x. (x, q) \<in> ?R\<^sup>* \<longrightarrow> x \<notin> G) \<longrightarrow> returns s G (sym_calc_value n) q"
  show ?case
  proof (cases "is_valid s r")
    case True
    have "?P r 1"
    proof (intro allI impI)
      fix n G assume "1 \<le> (n :: nat)"
      then show "returns s G (sym_calc_value n) r" using valid_returns [OF True] by (cases n) auto
    qed
    then show ?thesis by blast
  next
    case F: False
    then have rel: "(q, r) \<in> ?R" if "q \<in> refs s r" for q using that by (simp add: eval_rel_def)
    have "\<exists>N. ?P q N" if q: "q \<in> refs s r" for q
    proof -
      have "(x, r) \<in> ?R\<^sup>*" if "(x, q) \<in> ?R\<^sup>*" for x using that rel [OF q] by (rule rtrancl_into_rtrancl)
      then show ?thesis using "1.IH" [OF rel [OF q]] "1.prems" by blast
    qed
    then obtain N where N: "\<forall>q \<in> refs s r. ?P q (N q)" by metis
    define M where "M = Max (insert 0 (N ` refs s r))"
    have M: "N q \<le> M" if "q \<in> refs s r" for q using that finite_refs [of s r] by (auto simp: M_def intro: Max_ge)
    have loop: "(r, q) \<notin> ?R\<^sup>*" if "q \<in> refs s r" for q
      using rtrancl_into_trancl1 [OF _ rel [OF that]] acc_no_loop [OF "1.hyps"] by blast
    have w: "well s r" using "1.prems" F by blast
    have "?P r (Suc (Suc M))"
    proof (intro allI impI)
      fix n G assume n: "Suc (Suc M) \<le> n" and G: "\<forall>x. (x, r) \<in> ?R\<^sup>* \<longrightarrow> x \<notin> G"
      then obtain k where k: "n = Suc (Suc k)" "M \<le> k" by (cases n; cases "n - 1") auto
      have out: "(x, q) \<in> ?R\<^sup>* \<Longrightarrow> x \<notin> insert r G" if q: "q \<in> refs s r" for q x
        using loop [OF q] G rtrancl_into_rtrancl [OF _ rel [OF q]] by blast
      have "returns s (insert r G) (sym_calc_value (Suc k)) q" if q: "q \<in> refs s r" for q
        using N q out [OF q] M [OF q] k(2) by (meson le_Suc_eq order_trans)
      moreover have "refs s r \<inter> insert r G = {}" using out by blast
      moreover have "\<forall>q t. is_valid t q \<longrightarrow> sym_calc_value (Suc k) q t = Some t" by (simp add: sym_calc_step_def)
      ultimately have "serves s (insert r G) (sym_calc_value (Suc k)) (refs s r)"
        using assms(2) unfolding serves_def by blast
      then have "returns s G (sym_calc_step (sym_calc_value (Suc k))) r" by (rule step_returns [OF _ subset_refl w])
      then show "returns s G (sym_calc_value n) r" by (simp only: k(1) returns_def sym_calc_value.simps)
    qed
    then show ?thesis by blast
  qed
qed

lemma coherent_returns:
  assumes "coherent s" "r \<in> Wellfounded.acc (eval_rel s)" "\<forall>q. (q, r) \<in> (eval_rel s)\<^sup>* \<longrightarrow> is_valid s q \<or> well s q"
  shows "\<exists>N. \<forall>n \<ge> N. \<exists>s'. sym_calc_value n r s = Some s' \<and> is_valid s' r \<and> has_str s' r \<and> grows s s'"
proof -
  have "k_modules_sym s \<noteq> None" using assms(1) by (simp add: coherent_def)
  from acc_returns [OF assms(2) this assms(3)] obtain N where
    N: "\<forall>n \<ge> N. returns s {} (sym_calc_value n) r" by auto
  have "\<exists>s'. sym_calc_value n r s = Some s' \<and> is_valid s' r \<and> has_str s' r \<and> grows s s'" if n: "N \<le> n" for n
  proof -
    have "\<exists>s'. sym_calc_value n r s = Some s' \<and> goes s {} s s' \<and> is_valid s' r"
      using N n coherent_fit [OF assms(1)] unfolding returns_def by blast
    then show ?thesis by (auto simp: goes_def fit_def)
  qed
  then show ?thesis by blast
qed

end
