(* ===== verification/Kconfig_Sample.thy ===== *)
theory Kconfig_Sample
  imports Kconfig_State
begin

text \<open>
  A small configuration for the witnesses: a visible boolean \<open>A\<close> that the user set to \<open>y\<close>, a tristate
  \<open>B\<close> with the default \<open>m\<close> if \<open>A\<close>, a boolean \<open>C\<close> that \<open>A\<close> selects, a string \<open>S\<close>, and an integer \<open>I\<close> that the
  user set to 700 and that has the range from 10 to 512.  Modules are off, \<open>modules_sym\<close> being the
  constant \<open>n\<close>.
\<close>

abbreviation "sA \<equiv> Sym 0"
abbreviation "sB \<equiv> Sym 1"
abbreviation "sC \<equiv> Sym 2"
abbreviation "sS \<equiv> Sym 3"
abbreviation "sI \<equiv> Sym 4"
abbreviation "c10 \<equiv> Sym 5"
abbreviation "c512 \<equiv> Sym 6"

definition user_value :: "symbol_value \<Rightarrow> symbol \<Rightarrow> symbol" where
  "user_value v x = x\<lparr>flags := insert (SYMBOL_DEF S_DEF_USER) (flags x), sdef := (sdef x)(S_DEF_USER := v)\<rparr>"

definition sample_k_sym :: symtab where
  "sample_k_sym r =
     (if r = sA then user_value \<lparr>val = VNull, tri = Yes\<rparr> ((mk_symbol (Some ''A'') {})\<lparr>stype := S_BOOLEAN, props := [0]\<rparr>)
      else if r = sB then (mk_symbol (Some ''B'') {})\<lparr>stype := S_TRISTATE, props := [1]\<rparr>
      else if r = sC then (mk_symbol (Some ''C'') {})\<lparr>stype := S_BOOLEAN,
        rev_dep := \<lparr>ev_expr = Some (E_SYMBOL sA), ev_tri = No\<rparr>\<rparr>
      else if r = sS then (mk_symbol (Some ''S'') {})\<lparr>stype := S_STRING\<rparr>
      else if r = sI then user_value \<lparr>val = VStr (A_heap 0) ''700'', tri = No\<rparr>
        ((mk_symbol (Some ''I'') {})\<lparr>stype := S_INT, props := [2, 3]\<rparr>)
      else if r = c10 then mk_symbol (Some ''10'') {SYMBOL_CONST}
      else if r = c512 then mk_symbol (Some ''512'') {SYMBOL_CONST}
      else const_symbol r)"

definition mk_prop :: "symref \<Rightarrow> prop_type \<Rightarrow> string option \<Rightarrow> expr option \<Rightarrow> expr option \<Rightarrow> property" where
  "mk_prop r t str vis e = \<lparr>p_sym = Some r, p_type = t, p_text = str, p_visible = \<lparr>ev_expr = vis, ev_tri = No\<rparr>,
     p_expr = e, p_menu = None\<rparr>"

definition sample_k_prop :: "nat \<Rightarrow> property" where
  "sample_k_prop p =
     (if p = 0 then mk_prop sA P_PROMPT (Some ''a'') None None
      else if p = 1 then mk_prop sB P_DEFAULT None (Some (E_SYMBOL sA)) (Some (E_SYMBOL Symbol_mod))
      else if p = 2 then mk_prop sI P_PROMPT (Some ''i'') None None
      else mk_prop sI P_RANGE None None (Some (E_RANGE c10 c512)))"

definition empty_menu :: menu where
  "empty_menu = \<lparr>m_next = None, m_parent = None, m_list = None, m_sym = None, m_prompt = None,
     m_visibility = None, m_dep = None, m_flags = {}, m_help = None\<rparr>"

definition sample_state :: kstate where
  "sample_state = \<lparr>k_sym = sample_k_sym, k_nsym = 7, k_hash = (\<lambda>_. []),
     k_prop = sample_k_prop, k_nprop = 4, k_menu = (\<lambda>_. empty_menu), k_nmenu = 1, k_nstr = 1,
     k_modules_sym = Some Symbol_no, k_modules_val = No, k_defconfig_list = None, k_env_list = None,
     k_change_count = 0, k_callback = False, k_callback_calls = 0, k_check_stack = [],
     k_conf_warnings = 0, k_conf_unsaved = 0, k_current_entry = 0, k_current_menu = 0,
     k_last_entry = Slot_list 0, k_log = []\<rparr>"

end
