(* ===== verification/Kconfig_Calc_Props.thy ===== *)
theory Kconfig_Calc_Props
  imports Kconfig_Calc_Range Kconfig_Calc_Total Kconfig_Sample
begin

text \<open>The properties of the evaluation of symbols, with the sample configuration in their witnesses.\<close>

section \<open>The sample configuration\<close>

lemmas sample_defs = sample_state_def sample_k_sym_def sample_k_prop_def mk_prop_def user_value_def mk_symbol_def

lemma sample_props:
  "props (sample_k_sym r) = (if r = sA then [0] else if r = sB then [1] else if r = sI then [2, 3] else [])"
  by (cases r) (auto simp: sample_k_sym_def user_value_def mk_symbol_def)

lemma sample_valid: "is_valid sample_state r \<longleftrightarrow> r \<in> {Symbol_yes, Symbol_mod, Symbol_no, Symbol_empty}"
  by (cases r) (auto simp: has_flag_def sample_defs)

lemma sample_needs: "\<not> needs_set sample_state r" "plain sample_state r"
  by (cases r; auto simp: has_flag_def plain_def sym_is_choice_def sym_is_choice_value_def sample_defs)+

lemma sample_choices: "choices_wf sample_state"
proof -
  have "choice_members sample_state r = None" for r
    by (auto simp: choice_members_def sym_get_choice_prop_def props_of_def first_of_def sample_state_def sample_props
        sample_k_prop_def mk_prop_def)
  moreover have "p_sym (k_prop sample_state p) = Some r" if "p \<in> set (props (k_sym sample_state r))" for p r
    using that by (auto simp: sample_state_def sample_props sample_k_prop_def mk_prop_def split: if_splits)
  ultimately show ?thesis by (simp add: choices_wf_def)
qed

lemma sample_ready: "ready sample_state"
proof -
  have "k_modules_sym sample_state = Some Symbol_no" "tri_env sample_state Symbol_no = No"
    by (simp_all add: sample_defs tri_env_def)
  then show ?thesis using sample_choices sample_needs(1) by (simp add: ready_def sample_valid)
qed

lemma sample_free: "self_free sB sample_state" "range_free sI sample_state" "self_free sA sample_state"
  by (simp_all add: self_free_def range_free_def own_prop_def own_expr_def owned_def opt_wf_def props_of_def range_syms_def
      sample_defs)

section \<open>Values\<close>

text \<open>
  C20: \<open>expr_calc_value\<close> returns the value of the expression in the environment that it leaves
  behind: it evaluates every symbol of the expression, and in the resulting state the tristate
  and string values of these symbols give the expression exactly the returned value.
\<close>

theorem expr_calc_value_correct:
  assumes "ready s" "expr_wf e" "expr_calc_value (sym_calc_value n) (Some e) s = Some (v, s')"
  shows "v = expr_value (tri_env s') (str_env s') e \<and> evaluated s' (Some e) \<and> ready s'"
  using fev.calc_expr_value [of n e s v s'] assms by (simp add: expr_calc_value_def)

theorem expr_calc_value_correct_witness:
  "\<exists>s'. expr_calc_value (sym_calc_value 4) (Some (E_AND (E_SYMBOL sB) (E_NOT (E_SYMBOL sC)))) sample_state = Some (No, s') \<and>
    No = expr_value (tri_env s') (str_env s') (E_AND (E_SYMBOL sB) (E_NOT (E_SYMBOL sC)))"
proof -
  have "map_option fst (expr_calc_value (sym_calc_value 4) (Some (E_AND (E_SYMBOL sB) (E_NOT (E_SYMBOL sC)))) sample_state) = Some No"
    by code_simp
  then obtain s' where s': "expr_calc_value (sym_calc_value 4) (Some (E_AND (E_SYMBOL sB) (E_NOT (E_SYMBOL sC)))) sample_state = Some (No, s')"
    by auto
  show ?thesis using expr_calc_value_correct [OF sample_ready _ s'] s' by simp
qed

text \<open>
  C1: after the evaluation of a boolean or tristate symbol that is neither a choice nor a choice
  value, its visibility, its direct and reverse dependencies and its value satisfy their defining
  equations: the visibility joins those of its prompts, and the value is what the user chose
  limited by the visibility, or else the first visible default, raised by the selects.
\<close>

theorem sym_calc_value_solved:
  assumes "ready s" "\<not> is_valid s r" "plain s r" "self_free r s" "k_modules_sym s \<noteq> Some r"
    and "stype (k_sym s r) = S_BOOLEAN \<or> stype (k_sym s r) = S_TRISTATE"
    and "sym_calc_value (Suc n) r s = Some s'"
  shows "visible (k_sym s' r) = spec_visible s' r \<and> ev_tri (dir_dep (k_sym s' r)) = spec_dir s' r \<and>
    ev_tri (rev_dep (k_sym s' r)) = spec_rev s' r \<and> tri (curr (k_sym s' r)) = spec_tri s' r"
  using fev.step_solved [of n r s s'] assms by (simp add: solved_def)

theorem sym_calc_value_solved_witness:
  "\<exists>s'. sym_calc_value (Suc 4) sB sample_state = Some s' \<and> tri (curr (k_sym s' sB)) = Yes \<and> spec_tri s' sB = Yes"
proof -
  have "map_option (\<lambda>s. tri (curr (k_sym s sB))) (sym_calc_value (Suc 4) sB sample_state) = Some Yes" by code_simp
  then obtain s' where s': "sym_calc_value (Suc 4) sB sample_state = Some s'" "tri (curr (k_sym s' sB)) = Yes" by auto
  have "stype (k_sym sample_state sB) = S_TRISTATE" "k_modules_sym sample_state \<noteq> Some sB" "\<not> is_valid sample_state sB"
    by (simp_all add: sample_valid) (simp_all add: sample_defs)
  then show ?thesis
    using sym_calc_value_solved [OF sample_ready _ sample_needs(2) sample_free(1) _ _ s'(1)] s' by simp
qed

text \<open>
  C13: evaluation never changes the value of a symbol that has already been evaluated, nor what the
  user set for a symbol outside choices; and it leaves the configuration itself alone: the names,
  types, properties, dependencies and menus are those of the state before.
\<close>

theorem sym_calc_value_frame:
  assumes "choices_wf s" "sym_calc_value n r s = Some s'"
  shows "erase s' = erase s \<and> (\<forall>q. is_valid s q \<longrightarrow> is_valid s' q \<and> curr (k_sym s' q) = curr (k_sym s q)) \<and>
    (\<forall>q. plain s q \<longrightarrow> sdef (k_sym s' q) = sdef (k_sym s q) \<and> sym_has_value (k_sym s' q) = sym_has_value (k_sym s q))"
  using ev.calc_keeps [OF assms(2)] assms(1) by (simp add: keeps_def frame_def)

theorem sym_calc_value_frame_witness:
  "\<exists>s'. sym_calc_value 4 sC sample_state = Some s' \<and> sdef (k_sym s' sA) = sdef (k_sym sample_state sA) \<and>
    curr (k_sym s' Symbol_yes) = curr (k_sym sample_state Symbol_yes)"
proof -
  have "sym_calc_value 4 sC sample_state \<noteq> None"
  proof -
    have "map_option (\<lambda>s. ()) (sym_calc_value 4 sC sample_state) = Some ()" by code_simp
    then show ?thesis by auto
  qed
  then obtain s' where s': "sym_calc_value 4 sC sample_state = Some s'" by auto
  show ?thesis using sym_calc_value_frame [OF sample_choices s'] s' sample_needs(2) by (simp add: sample_valid)
qed

section \<open>Ranges\<close>



section \<open>Evaluation returns\<close>

text \<open>
  C2: the evaluation of a symbol returns.  In a coherent state, if the symbols it depends on, directly or
  not, are finitely many, none of them depends on itself, and each is evaluated already or is an ordinary
  symbol with the strings and bounds its properties need, then \<open>sym_calc_value\<close> yields a state: no null
  string is compared or read, the recursion ends, every fuel from some number on is enough, and the
  symbol ends up evaluated, with a string, without disturbing what was evaluated before.
\<close>

theorem sym_calc_value_total:
  assumes "coherent s" "\<forall>q. (q, r) \<in> (eval_rel s)\<^sup>* \<longrightarrow> is_valid s q \<or> well s q"
    and "finite {q. (q, r) \<in> (eval_rel s)\<^sup>*}" "\<forall>q. (q, r) \<in> (eval_rel s)\<^sup>* \<longrightarrow> (q, q) \<notin> (eval_rel s)\<^sup>+"
  shows "\<exists>N. \<forall>n \<ge> N. \<exists>s'. sym_calc_value n r s = Some s' \<and> is_valid s' r \<and> has_str s' r \<and> grows s s'"
proof -
  have "r \<in> Wellfounded.acc (eval_rel s)" using acc_iff_acyclic [OF assms(3)] assms(4) by blast
  then show ?thesis using coherent_returns [OF assms(1) _ assms(2)] by blast
qed

lemma sample_refs: "refs sample_state sC = {sA}" "refs sample_state sA = {}"
  by (simp_all add: refs_def prop_refs_def opt_refs_def sample_defs)

lemma sample_rel: "(q, sC) \<in> (eval_rel sample_state)\<^sup>* \<longleftrightarrow> q \<in> {sC, sA}"
proof
  show "(q, sC) \<in> (eval_rel sample_state)\<^sup>* \<Longrightarrow> q \<in> {sC, sA}"
    by (induction rule: converse_rtrancl_induct) (auto simp: eval_rel_def sample_refs)
  have "(sA, sC) \<in> eval_rel sample_state" by (simp add: eval_rel_def sample_refs sample_valid)
  then show "q \<in> {sC, sA} \<Longrightarrow> (q, sC) \<in> (eval_rel sample_state)\<^sup>*" by auto
qed

lemma sample_coherent: "coherent sample_state"
proof -
  have "has_str sample_state q" if "is_valid sample_state q" for q
    using that unfolding sample_valid by (auto simp: has_str_def sample_defs cstr_def)
  moreover have "ev_tri (rev_dep (k_sym sample_state q)) = No" for q by (cases q) (simp_all add: sample_defs)
  ultimately show ?thesis using sample_ready by (simp add: coherent_def sample_valid) (simp add: sample_defs)
qed

lemma sample_warning: "erase t = erase sample_state \<Longrightarrow> unmet_warning sC t \<noteq> None"
proof -
  assume e: "erase t = erase sample_state"
  note x = erase_symD [OF eraseD(1) [OF e]]
  have "ev_expr (rev_dep (k_sym t sC)) = Some (E_SYMBOL sA)" "ev_expr (dir_dep (k_sym t sC)) = None" "name (k_sym t sA) = Some ''A''"
    using x [of sC] x [of sA] by (simp_all add: sample_defs)
  then show ?thesis by (simp add: unmet_warning_def expr_get_leftmost_symbol_def expr_fprint_def expr_print_def left_tok_def name_tok_def
      lit_def paren_def)
qed

theorem sym_calc_value_total_witness:
  "\<exists>n s'. sym_calc_value n sC sample_state = Some s' \<and> is_valid s' sC \<and> has_str s' sC \<and> grows sample_state s'"
proof -
  have p: "props_of sample_state sA ty = (if ty = P_PROMPT then [0] else [])" "props_of sample_state sC ty = []" for ty
    by (simp_all add: props_of_def sample_defs)
  have "well sample_state sA" "well sample_state sC"
    using sample_needs(2) sample_warning by (simp_all add: well_def p) (simp_all add: sample_defs)
  then have w: "\<forall>q. (q, sC) \<in> (eval_rel sample_state)\<^sup>* \<longrightarrow> is_valid sample_state q \<or> well sample_state q"
    by (auto simp: sample_rel)
  have f: "finite {q. (q, sC) \<in> (eval_rel sample_state)\<^sup>*}" by (simp add: sample_rel)
  have "(q, p) \<in> (eval_rel sample_state)\<^sup>+ \<Longrightarrow> p = sC \<or> p = sA \<Longrightarrow> q = sA \<and> p = sC" for q p
    by (induction rule: trancl_induct) (auto simp: eval_rel_def sample_refs)
  from this [of sA sA] this [of sC sC]
  have "\<forall>q. (q, sC) \<in> (eval_rel sample_state)\<^sup>* \<longrightarrow> (q, q) \<notin> (eval_rel sample_state)\<^sup>+"
    by (auto simp: sample_rel)
  from sym_calc_value_total [OF sample_coherent w f this] show ?thesis by blast
qed

end
