(* ===== verification/Kconfig_Symbol.thy ===== *)
theory Kconfig_Symbol
  imports Kconfig_Calc
begin

unbundle bit_operations_syntax

text \<open>
  The rest of \<^verbatim>\<open>symbol.c\<close> except the search for recursive dependencies: setting values,
  defaults as strings, the symbol hash table, expansion and escaping of strings, the search
  by regular expressions and the symbols for environment variables.  Buffers whose size the
  code computes are modelled with that size, and writing past the end is undefined.  The C
  library's \<open>regcomp\<close> and \<open>regexec\<close>, \<open>getenv\<close> and \<open>uname\<close> are parameters.
\<close>

section \<open>Setting values\<close>

definition sym_clear_all_valid :: "calc \<Rightarrow> kstate \<Rightarrow> kstate option" where
  "sym_clear_all_valid calc s =
     (let s = fold (\<lambda>r. clear_flags r {SYMBOL_VALID}) (all_syms s) s;
          s = sym_add_change_count 1 s
      in calc_opt calc (k_modules_sym s) s)"

definition sym_tristate_within_range :: "kstate \<Rightarrow> symref \<Rightarrow> tristate \<Rightarrow> bool" where
  "sym_tristate_within_range s r v =
     (let type = sym_get_type s r; x = k_sym s r
      in if visible x = No then False
         else if type \<noteq> S_BOOLEAN \<and> type \<noteq> S_TRISTATE then False
         else if type = S_BOOLEAN \<and> v = Mod then False
         else if visible x \<le> ev_tri (rev_dep x) then False
         else if sym_is_choice_value x \<and> visible x = Yes then v = Yes
         else v \<ge> ev_tri (rev_dep x) \<and> v \<le> visible x)"

definition mark_user :: "symref \<Rightarrow> kstate \<Rightarrow> kstate" where
  "mark_user r s = (if SYMBOL_DEF S_DEF_USER \<in> flags (k_sym s r) then s
     else sym_set_changed r (set_flags r {SYMBOL_DEF S_DEF_USER} s))"

definition set_def_val :: "symref \<Rightarrow> cval \<Rightarrow> kstate \<Rightarrow> kstate" where
  "set_def_val r v = upd_sym r (\<lambda>x. x\<lparr>sdef := (sdef x)(S_DEF_USER := (sdef x S_DEF_USER)\<lparr>val := v\<rparr>)\<rparr>)"

text \<open>Choosing a choice value: the choice and its visible values all count as set by the user.\<close>

definition user_if_visible :: "symref \<Rightarrow> kstate \<Rightarrow> kstate" where
  "user_if_visible c s =
     (if visible (k_sym s c) \<noteq> No then set_flags c {SYMBOL_DEF S_DEF_USER} s else s)"

definition choose_value :: "symref \<Rightarrow> kstate \<Rightarrow> kstate option" where
  "choose_value r s = do {
     cs \<leftarrow> choice_of s r;
     let s = set_flags cs {SYMBOL_DEF S_DEF_USER} (set_def_val cs (VSym r) s);
     members \<leftarrow> choice_members s cs;
     Some (fold user_if_visible members s)
   }"

definition sym_set_tristate_value :: "calc \<Rightarrow> symref \<Rightarrow> tristate \<Rightarrow> kstate \<Rightarrow> (bool \<times> kstate) option" where
  "sym_set_tristate_value calc r v s =
     (let oldval = sym_get_tristate_value (k_sym s r)
      in if oldval \<noteq> v \<and> \<not> sym_tristate_within_range s r v then Some (False, s)
         else do {
           let s = mark_user r s;
           s \<leftarrow> (if sym_is_choice_value (k_sym s r) \<and> v = Yes then choose_value r s else Some s);
           let s = set_def_tri r v s;
           s \<leftarrow> (if oldval \<noteq> v then sym_clear_all_valid calc s else Some s);
           Some (True, s)
         })"

fun toggle_next :: "tristate \<Rightarrow> tristate" where
  "toggle_next No = Mod"
| "toggle_next Mod = Yes"
| "toggle_next Yes = No"

text \<open>The loop of \<open>sym_toggle_tristate_value\<close>, with fuel for its iterations.\<close>

fun toggle_loop :: "nat \<Rightarrow> calc \<Rightarrow> symref \<Rightarrow> tristate \<Rightarrow> tristate \<Rightarrow> kstate \<Rightarrow> (tristate \<times> kstate) option" where
  "toggle_loop 0 calc r oldval v s = None"
| "toggle_loop (Suc n) calc r oldval v s =
     (let newval = toggle_next v
      in do {
        (ok, s) \<leftarrow> sym_set_tristate_value calc r newval s;
        if ok \<or> oldval = newval then Some (newval, s) else toggle_loop n calc r oldval newval s
      })"

definition sym_toggle_tristate_value :: "calc \<Rightarrow> symref \<Rightarrow> kstate \<Rightarrow> (tristate \<times> kstate) option" where
  "sym_toggle_tristate_value calc r s =
     (let oldval = sym_get_tristate_value (k_sym s r) in toggle_loop 3 calc r oldval oldval s)"

fun tri_char :: "string \<Rightarrow> tristate option" where
  "tri_char (c # _) =
     (if c = CHR ''y'' \<or> c = CHR ''Y'' then Some Yes
      else if c = CHR ''m'' \<or> c = CHR ''M'' then Some Mod
      else if c = CHR ''n'' \<or> c = CHR ''N'' then Some No else None)"
| "tri_char [] = None"

fun drop_minus :: "string \<Rightarrow> string" where
  "drop_minus (c # s) = (if c = CHR ''-'' then s else c # s)"
| "drop_minus [] = []"

fun has_0x :: "string \<Rightarrow> bool" where
  "has_0x (a # x # _) \<longleftrightarrow> a = CHR ''0'' \<and> (x = CHR ''x'' \<or> x = CHR ''X'')"
| "has_0x _ \<longleftrightarrow> False"

definition int_valid :: "string \<Rightarrow> bool" where
  "int_valid str = (case drop_minus str of
     [] \<Rightarrow> False
   | c # t \<Rightarrow> isdigit c \<and> \<not> (c = CHR ''0'' \<and> t \<noteq> []) \<and> list_all isdigit t)"

definition hex_valid :: "string \<Rightarrow> bool" where
  "hex_valid str = (let t = (if has_0x str then drop 2 str else str) in t \<noteq> [] \<and> list_all isxdigit t)"

definition sym_string_valid :: "symbol_type \<Rightarrow> string \<Rightarrow> bool" where
  "sym_string_valid t str = (case t of
     S_STRING \<Rightarrow> True
   | S_INT \<Rightarrow> int_valid str
   | S_HEX \<Rightarrow> hex_valid str
   | S_BOOLEAN \<Rightarrow> tri_char str \<noteq> None
   | S_TRISTATE \<Rightarrow> tri_char str \<noteq> None
   | _ \<Rightarrow> False)"

text \<open>The cases \<open>S_INT\<close> and \<open>S_HEX\<close> of \<open>sym_string_within_range\<close>, which differ in the base.\<close>

definition num_within_range :: "calc \<Rightarrow> symref \<Rightarrow> nat \<Rightarrow> string \<Rightarrow> kstate \<Rightarrow> (bool \<times> kstate) option" where
  "num_within_range calc r base str s =
     (if \<not> sym_string_valid (stype (k_sym s r)) str then Some (False, s)
      else do {
        (prop, s) \<leftarrow> sym_get_range_prop calc r s;
        case prop of
          None \<Rightarrow> Some (True, s)
        | Some p \<Rightarrow> do {
            let v = strtoll base str;
            (lo, hi) \<leftarrow> range_syms (k_prop s p);
            (l, s) \<leftarrow> sym_get_range_val calc lo base s;
            if v \<ge> l then do {
              (h, s) \<leftarrow> sym_get_range_val calc hi base s;
              Some (v \<le> h, s)
            } else Some (False, s)
          }
      })"

definition sym_string_within_range :: "calc \<Rightarrow> symref \<Rightarrow> string \<Rightarrow> kstate \<Rightarrow> (bool \<times> kstate) option" where
  "sym_string_within_range calc r str s = (case stype (k_sym s r) of
     S_STRING \<Rightarrow> Some (sym_string_valid S_STRING str, s)
   | S_INT \<Rightarrow> num_within_range calc r 10 str s
   | S_HEX \<Rightarrow> num_within_range calc r 16 str s
   | S_BOOLEAN \<Rightarrow> Some (case tri_char str of None \<Rightarrow> False | Some v \<Rightarrow> sym_tristate_within_range s r v, s)
   | S_TRISTATE \<Rightarrow> Some (case tri_char str of None \<Rightarrow> False | Some v \<Rightarrow> sym_tristate_within_range s r v, s)
   | _ \<Rightarrow> Some (False, s))"

text \<open>Storing the string: a hexadecimal number gets its prefix, an unchanged string is kept.\<close>

definition store_string :: "calc \<Rightarrow> symref \<Rightarrow> string \<Rightarrow> kstate \<Rightarrow> (bool \<times> kstate) option" where
  "store_string calc r newval s =
     (let oldval = val (sdef (k_sym s r) S_DEF_USER)
      in do {
        same \<leftarrow> (if stype (k_sym s r) = S_HEX \<and> \<not> has_0x newval then Some False
                else if oldval = VNull then Some False
                else map_option (\<lambda>old. old = newval) (cstr oldval));
        if same then Some (True, s)
        else do {
          let (nv, s) = alloc_str (if stype (k_sym s r) = S_HEX \<and> \<not> has_0x newval then ''0x'' @ newval else newval) s;
          s \<leftarrow> sym_clear_all_valid calc (set_def_val r nv s);
          Some (True, s)
        }
      })"

definition sym_set_string_value :: "calc \<Rightarrow> symref \<Rightarrow> string \<Rightarrow> kstate \<Rightarrow> (bool \<times> kstate) option" where
  "sym_set_string_value calc r newval s =
     (if stype (k_sym s r) = S_BOOLEAN \<or> stype (k_sym s r) = S_TRISTATE then
        (case tri_char newval of
           None \<Rightarrow> Some (False, s)
         | Some v \<Rightarrow> sym_set_tristate_value calc r v s)
      else do {
        (ok, s) \<leftarrow> sym_string_within_range calc r newval s;
        if ok then store_string calc r newval (mark_user r s) else Some (False, s)
      })"

definition tri_lit :: "tristate \<Rightarrow> cval" where
  "tri_lit t = (case t of No \<Rightarrow> VStr (A_lit ''n'') ''n'' | Mod \<Rightarrow> VStr (A_lit ''m'') ''m'' | Yes \<Rightarrow> VStr (A_lit ''y'') ''y'')"

definition string_default_value ::
    "calc \<Rightarrow> symref \<Rightarrow> nat option \<Rightarrow> kstate \<Rightarrow> (tristate \<times> cval \<times> kstate) option" where
  "string_default_value calc r prop s =
     (let v = tri (curr (k_sym s Symbol_no)); str = val (curr (k_sym s Symbol_empty))
      in case prop of
           None \<Rightarrow> Some (v, str, s)
         | Some p \<Rightarrow>
             if stype (k_sym s r) = S_BOOLEAN \<or> stype (k_sym s r) = S_TRISTATE then do {
               (v, s) \<leftarrow> calc_default calc p s;
               Some (v, str, s)
             } else do {
               d \<leftarrow> prop_get_symbol (k_prop s p);
               case d of
                 None \<Rightarrow> Some (v, str, s)
               | Some ds \<Rightarrow> do {
                   s \<leftarrow> calc ds s;
                   Some (v, val (curr (k_sym s ds)), s)
                 }
             })"

definition sym_get_string_default :: "calc \<Rightarrow> symref \<Rightarrow> kstate \<Rightarrow> (cval \<times> kstate) option" where
  "sym_get_string_default calc r s = do {
     s \<leftarrow> sym_calc_visibility calc r s;
     s \<leftarrow> calc_opt calc (k_modules_sym s) s;
     (prop, s) \<leftarrow> sym_get_default_prop calc r s;
     (v, str, s) \<leftarrow> string_default_value calc r prop s;
     let v = EXPR_OR v (ev_tri (rev_dep (k_sym s r)));
     v \<leftarrow> (if v = Mod \<and> \<not> sym_is_choice_value (k_sym s r) then do {
             m \<leftarrow> k_modules_sym s;
             Some (if tri (curr (k_sym s m)) = No then Yes else v)
           } else Some v);
     let v = (if stype (k_sym s r) = S_BOOLEAN \<and> v = Mod then Yes else v);
     Some (case stype (k_sym s r) of
         S_BOOLEAN \<Rightarrow> tri_lit v
       | S_TRISTATE \<Rightarrow> tri_lit v
       | S_INT \<Rightarrow> str
       | S_HEX \<Rightarrow> str
       | S_STRING \<Rightarrow> str
       | _ \<Rightarrow> VStr (A_lit '''') '''', s)
   }"

definition sym_is_changable :: "symbol \<Rightarrow> bool" where
  "sym_is_changable x \<longleftrightarrow> visible x > ev_tri (rev_dep x)"

section \<open>The symbol table\<close>

text \<open>The FNV hash on 32 bits; \<open>char\<close> is signed, so a byte is sign-extended.\<close>

definition hash_step :: "char \<Rightarrow> 32 word \<Rightarrow> 32 word" where
  "hash_step c hash = (hash XOR signed (of_nat (ccode c) :: 8 word)) * 0x01000193"

definition strhash :: "string \<Rightarrow> 32 word" where
  "strhash str = fold hash_step str 2166136261"

definition bucket :: "string \<Rightarrow> nat" where
  "bucket nm = unat (strhash nm) mod SYMBOL_HASHSIZE"

fun const_name :: "string \<Rightarrow> symref option" where
  "const_name [c] =
     (if c = CHR ''y'' then Some Symbol_yes else if c = CHR ''m'' then Some Symbol_mod
      else if c = CHR ''n'' then Some Symbol_no else None)"
| "const_name _ = None"

definition lookup_match :: "kstate \<Rightarrow> string \<Rightarrow> sym_flag set \<Rightarrow> symref \<Rightarrow> bool" where
  "lookup_match s nm fl r \<longleftrightarrow> name (k_sym s r) = Some nm \<and>
     (if fl \<noteq> {} then flags (k_sym s r) \<inter> fl \<noteq> {}
      else flags (k_sym s r) \<inter> {SYMBOL_CONST, SYMBOL_CHOICE} = {})"

definition new_symbol :: "string option \<Rightarrow> nat \<Rightarrow> sym_flag set \<Rightarrow> kstate \<Rightarrow> symref \<times> kstate" where
  "new_symbol nm hash fl s =
     (let r = Sym (k_nsym s)
      in (r, s\<lparr>k_nsym := Suc (k_nsym s), k_sym := (k_sym s)(r := mk_symbol nm fl),
               k_hash := (k_hash s)(hash := r # k_hash s hash)\<rparr>))"

definition sym_lookup :: "string option \<Rightarrow> sym_flag set \<Rightarrow> kstate \<Rightarrow> symref \<times> kstate" where
  "sym_lookup nm fl s = (case nm of
     None \<Rightarrow> new_symbol None 0 fl s
   | Some n \<Rightarrow> (case const_name n of
       Some r \<Rightarrow> (r, s)
     | None \<Rightarrow> (case find (lookup_match s n fl) (k_hash s (bucket n)) of
         Some r \<Rightarrow> (r, s)
       | None \<Rightarrow> new_symbol (Some n) (bucket n) fl s)))"

definition find_match :: "kstate \<Rightarrow> string \<Rightarrow> symref \<Rightarrow> bool" where
  "find_match s nm r \<longleftrightarrow> name (k_sym s r) = Some nm \<and> SYMBOL_CONST \<notin> flags (k_sym s r)"

definition sym_find :: "kstate \<Rightarrow> string option \<Rightarrow> symref option" where
  "sym_find s nm = (case nm of
     None \<Rightarrow> None
   | Some n \<Rightarrow> (case const_name n of
       Some r \<Rightarrow> Some r
     | None \<Rightarrow> find (find_match s n) (k_hash s (bucket n))))"

section \<open>Strings\<close>

text \<open>\<open>strcat\<close> and \<open>strncat\<close> on a buffer of \<open>cap\<close> bytes.\<close>

definition buf_cat :: "nat \<Rightarrow> string \<Rightarrow> string \<Rightarrow> string option" where
  "buf_cat cap res str = (if length res + length str < cap then Some (res @ str) else None)"

definition strchr :: "char \<Rightarrow> string \<Rightarrow> (string \<times> string) option" where
  "strchr c str = (case dropWhile (\<lambda>x. x \<noteq> c) str of
     [] \<Rightarrow> None
   | _ # rest \<Rightarrow> Some (takeWhile (\<lambda>x. x \<noteq> c) str, rest))"

lemma drop_shorter: "dropWhile P str = c # rest \<Longrightarrow> length rest < length str"
  using length_dropWhile_le [of P str] by simp

lemma strchr_split:
  assumes "strchr c str = Some (pre, rest)"
  shows "str = pre @ c # rest"
proof -
  from assms obtain d where d: "dropWhile (\<lambda>x. x \<noteq> c) str = d # rest" and p: "pre = takeWhile (\<lambda>x. x \<noteq> c) str"
    by (auto simp: strchr_def split: list.splits)
  have "d = c" using hd_dropWhile [of "\<lambda>x. x \<noteq> c" str] d by simp
  with d p show ?thesis using takeWhile_dropWhile_id [of "\<lambda>x. x \<noteq> c" str] by simp
qed

lemma expand_shorter:
  assumes "strchr c str = Some (pre, src)"
  shows "length (dropWhile P src) < length str"
  using strchr_split [OF assms] length_dropWhile_le [of P src] by simp

definition name_char :: "char \<Rightarrow> bool" where
  "name_char c \<longleftrightarrow> isalnum c \<or> c = CHR ''_''"

abbreviation SYMBOL_MAXLENGTH :: nat where "SYMBOL_MAXLENGTH \<equiv> 256"

definition expand_symval :: "calc \<Rightarrow> string \<Rightarrow> kstate \<Rightarrow> (string \<times> kstate) option" where
  "expand_symval calc nm s = (case sym_find s (Some nm) of
     None \<Rightarrow> Some ('''', s)
   | Some r \<Rightarrow> do {
       s \<leftarrow> calc r s;
       sym_get_string_value calc r s
     })"

text \<open>The name is copied to an array of \<open>SYMBOL_MAXLENGTH\<close> bytes without a check.\<close>

function expand_loop :: "calc \<Rightarrow> string \<Rightarrow> string \<Rightarrow> nat \<Rightarrow> kstate \<Rightarrow> (string \<times> kstate) option" where
  "expand_loop calc inp res reslen s = (case strchr (CHR ''$'') inp of
     None \<Rightarrow> do {
       res \<leftarrow> buf_cat reslen res inp;
       Some (res, s)
     }
   | Some (pre, src) \<Rightarrow> do {
       res \<leftarrow> buf_cat reslen res pre;
       let nm = takeWhile name_char src;
       if length nm \<ge> SYMBOL_MAXLENGTH then None
       else do {
         (symval, s) \<leftarrow> expand_symval calc nm s;
         let newlen = length res + length symval + length (dropWhile name_char src) + 1;
         let reslen = (if newlen > reslen then newlen else reslen);
         res \<leftarrow> buf_cat reslen res symval;
         expand_loop calc (dropWhile name_char src) res reslen s
       }
     })"
  by pat_completeness auto
termination
  by (relation "measure (\<lambda>(_, inp, _). length inp)")
    (auto intro: expand_shorter)

declare expand_loop.simps [simp del]

definition sym_expand_string_value :: "calc \<Rightarrow> string \<Rightarrow> kstate \<Rightarrow> (string \<times> kstate) option" where
  "sym_expand_string_value calc inp s = expand_loop calc inp [] (length inp + 1) s"

definition esc_special :: "char \<Rightarrow> bool" where
  "esc_special c \<longleftrightarrow> c = CHR 0x22 \<or> c = CHR 0x5C"

text \<open>The two loops of \<open>sym_escape_string_value\<close>: \<open>strcspn\<close> finds the next special character.\<close>

function escape_size :: "string \<Rightarrow> nat \<Rightarrow> nat" where
  "escape_size p reslen = (case dropWhile (\<lambda>c. \<not> esc_special c) p of
     [] \<Rightarrow> reslen
   | _ # q \<Rightarrow> escape_size q (reslen + 1))"
  by pat_completeness auto
termination
  by (relation "measure (\<lambda>(p, _). length p)")
    (auto intro: drop_shorter)

function escape_fill :: "nat \<Rightarrow> string \<Rightarrow> string \<Rightarrow> string option" where
  "escape_fill cap p res = do {
     res \<leftarrow> buf_cat cap res (takeWhile (\<lambda>c. \<not> esc_special c) p);
     case dropWhile (\<lambda>c. \<not> esc_special c) p of
       [] \<Rightarrow> Some res
     | c # q \<Rightarrow> do {
         res \<leftarrow> buf_cat cap res [CHR 0x5C];
         res \<leftarrow> buf_cat cap res [c];
         escape_fill cap q res
       }
   }"
  by pat_completeness auto
termination
  by (relation "measure (\<lambda>(_, p, _). length p)")
    (auto intro: drop_shorter)

declare escape_size.simps [simp del] escape_fill.simps [simp del]

definition sym_escape_string_value :: "string \<Rightarrow> string option" where
  "sym_escape_string_value inp = (let reslen = escape_size inp (length inp + 2 + 1)
   in do {
     res \<leftarrow> buf_cat reslen [] [CHR 0x22];
     res \<leftarrow> escape_fill reslen inp res;
     buf_cat reslen res [CHR 0x22]
   })"

section \<open>Search\<close>

record sym_match =
  mt_sym :: symref
  so :: nat
  eo :: nat

text \<open>\<open>None\<close> where the code would read a null name.\<close>

definition sym_rel_comp :: "kstate \<Rightarrow> sym_match \<Rightarrow> sym_match \<Rightarrow> int option" where
  "sym_rel_comp s s1 s2 = do {
     n1 \<leftarrow> name (k_sym s (mt_sym s1));
     n2 \<leftarrow> name (k_sym s (mt_sym s2));
     let exact1 = (int (eo s1) - int (so s1) = int (length n1));
     let exact2 = (int (eo s2) - int (so s2) = int (length n2));
     Some (if exact1 \<and> \<not> exact2 then -1 else if \<not> exact1 \<and> exact2 then 1 else strcmp n1 n2)
   }"

text \<open>\<open>qsort\<close> with a comparison: a stable sort by insertion.\<close>

fun insort_by :: "('a \<Rightarrow> 'a \<Rightarrow> int option) \<Rightarrow> 'a \<Rightarrow> 'a list \<Rightarrow> 'a list option" where
  "insort_by cmp x [] = Some [x]"
| "insort_by cmp x (y # ys) = do {
     c \<leftarrow> cmp x y;
     if c \<le> 0 then Some (x # y # ys) else map_option ((#) y) (insort_by cmp x ys)
   }"

fun qsort_by :: "('a \<Rightarrow> 'a \<Rightarrow> int option) \<Rightarrow> 'a list \<Rightarrow> 'a list option" where
  "qsort_by cmp [] = Some []"
| "qsort_by cmp (x # xs) = do {
     ys \<leftarrow> qsort_by cmp xs;
     insort_by cmp x ys
   }"

type_synonym regexec = "string \<Rightarrow> (nat \<times> nat) option"

fun re_collect :: "regexec \<Rightarrow> calc \<Rightarrow> symref list \<Rightarrow> kstate \<Rightarrow> (sym_match list \<times> kstate) option" where
  "re_collect re calc [] s = Some ([], s)"
| "re_collect re calc (r # rs) s =
     (case (if SYMBOL_CONST \<in> flags (k_sym s r) then None else Option.bind (name (k_sym s r)) re) of
        None \<Rightarrow> re_collect re calc rs s
      | Some (b, e) \<Rightarrow> do {
          s \<leftarrow> calc r s;
          (ms, s) \<leftarrow> re_collect re calc rs s;
          Some (\<lparr>mt_sym = r, so = b, eo = e\<rparr> # ms, s)
        })"

definition sym_re_search ::
    "(string \<Rightarrow> regexec option) \<Rightarrow> calc \<Rightarrow> string \<Rightarrow> kstate \<Rightarrow> (symref list option \<times> kstate) option" where
  "sym_re_search regcomp calc pattern s =
     (if pattern = [] then Some (None, s)
      else case regcomp pattern of
        None \<Rightarrow> Some (None, s)
      | Some re \<Rightarrow> do {
          (ms, s) \<leftarrow> re_collect re calc (all_syms s) s;
          if ms = [] then Some (None, s)
          else do {
            ms \<leftarrow> qsort_by (sym_rel_comp s) ms;
            Some (Some (map mt_sym ms), s)
          }
        })"

section \<open>Symbols made by the program\<close>

definition sym_add_default :: "symref \<Rightarrow> string \<Rightarrow> kstate \<Rightarrow> kstate" where
  "sym_add_default r str s =
     (let (p, s) = prop_alloc P_DEFAULT (Some r) s;
          (c, s) = sym_lookup (Some str) {SYMBOL_CONST} s
      in upd_prop p (\<lambda>x. x\<lparr>p_expr := Some (E_SYMBOL c)\<rparr>) s)"

definition sym_init :: "string \<Rightarrow> bool \<times> kstate \<Rightarrow> bool \<times> kstate" where
  "sym_init release = (\<lambda>(inited, s).
     if inited then (inited, s)
     else
       let (r, s) = sym_lookup (Some ''UNAME_RELEASE'') {} s;
           s = upd_sym r (\<lambda>x. x\<lparr>stype := S_STRING\<rparr>) s;
           s = set_flags r {SYMBOL_AUTO} s
       in (True, sym_add_default r release s))"

definition prop_add_env :: "(string \<Rightarrow> string option) \<Rightarrow> string \<Rightarrow> kstate \<Rightarrow> kstate option" where
  "prop_add_env getenv env s = do {
     r \<leftarrow> m_sym (k_menu s (k_current_entry s));
     let s = set_flags r {SYMBOL_AUTO} s;
     case props_of s r P_ENV of
       p # _ \<Rightarrow> do {
         d \<leftarrow> prop_get_symbol (k_prop s p);
         sym2 \<leftarrow> d;
         n \<leftarrow> name (k_sym s sym2);
         Some (if n \<noteq> env then add_log (M_menu_warn (k_current_entry s) (''redefining environment symbol from '' @ n)) s
               else s)
       }
     | [] \<Rightarrow>
         let (p, s) = prop_alloc P_ENV (Some r) s;
             (c, s) = sym_lookup (Some env) {SYMBOL_CONST} s;
             s = upd_prop p (\<lambda>x. x\<lparr>p_expr := Some (E_SYMBOL c)\<rparr>) s;
             s = s\<lparr>k_env_list := Some (E_LIST (k_env_list s) r)\<rparr>
         in Some (case getenv env of
              Some v \<Rightarrow> sym_add_default r v s
            | None \<Rightarrow> add_log (M_menu_warn (k_current_entry s) (''environment variable '' @ env @ '' undefined'')) s)
   }"

end
