(* ===== verification/Kconfig_Symbol_Sem.thy ===== *)
theory Kconfig_Symbol_Sem
  imports Kconfig_Symbol Kconfig_Calc_Frame "HOL-Library.Multiset"
begin

text \<open>
  What the operations of \<open>Kconfig_Symbol\<close> compute: the string functions never write past the
  buffers they size, the hash table answers like a linear search and hands out one symbol
  per name (the locale \<open>interning\<close>), toggling takes the first value that is accepted, and the
  comparison of search results is a total preorder, so that sorting with it succeeds.
\<close>

section \<open>Buffers\<close>

definition esc_char :: "char \<Rightarrow> string" where
  "esc_char c = (if esc_special c then [CHR 0x5C, c] else [c])"

definition escaped :: "string \<Rightarrow> string" where
  "escaped str = concat (map esc_char str)"

lemma escaped_plain: "\<forall>c \<in> set p. \<not> esc_special c \<Longrightarrow> escaped (p @ q) = p @ escaped q"
  by (induction p) (auto simp: escaped_def esc_char_def)

lemma special_split:
  obtains "\<forall>c \<in> set p. \<not> esc_special c"
  | w c q where "p = w @ c # q" "\<forall>c \<in> set w. \<not> esc_special c" "esc_special c"
  using split_list_first_prop [of p esc_special] by blast

lemma span_plain:
  assumes "\<forall>c \<in> set w. \<not> esc_special c"
  shows "takeWhile (\<lambda>c. \<not> esc_special c) w = w" "dropWhile (\<lambda>c. \<not> esc_special c) w = []"
    "esc_special c \<Longrightarrow> takeWhile (\<lambda>c. \<not> esc_special c) (w @ c # q) = w"
    "esc_special c \<Longrightarrow> dropWhile (\<lambda>c. \<not> esc_special c) (w @ c # q) = c # q"
    "escaped w = w" "esc_special c \<Longrightarrow> escaped (w @ c # q) = w @ CHR 0x5C # c # escaped q"
  using assms escaped_plain [of w "[]"] escaped_plain [of w "c # q"]
  by (simp_all add: takeWhile_append2 dropWhile_append2) (simp_all add: escaped_def esc_char_def)

lemma escape_size_length: "escape_size p n + length p = n + length (escaped p)"
proof (induction "length p" arbitrary: p n rule: less_induct)
  case less
  show ?case
  proof (cases p rule: special_split)
    case 1
    then show ?thesis by (subst escape_size.simps) (simp add: span_plain)
  next
    case (2 w c q)
    then have "escape_size p n = escape_size q (n + 1)" by (subst escape_size.simps) (simp add: span_plain)
    then show ?thesis using less [of q "n + 1"] 2 by (simp add: span_plain)
  qed
qed

lemma escape_fill_escaped:
  "length res + length (escaped p) < cap \<Longrightarrow> escape_fill cap p res = Some (res @ escaped p)"
proof (induction "length p" arbitrary: p res rule: less_induct)
  case less
  show ?case
  proof (cases p rule: special_split)
    case 1
    with less.prems show ?thesis by (subst escape_fill.simps) (simp add: span_plain buf_cat_def)
  next
    case (2 w c q)
    then have "escape_fill cap p res = escape_fill cap q (res @ w @ [CHR 0x5C, c])"
      using less.prems by (subst escape_fill.simps) (simp add: span_plain buf_cat_def)
    then show ?thesis using less.hyps [of q "res @ w @ [CHR 0x5C, c]"] less.prems 2 by (simp add: span_plain)
  qed
qed

lemma escape_total: "sym_escape_string_value inp = Some (CHR 0x22 # escaped inp @ [CHR 0x22])"
proof -
  have "escape_size inp (length inp + 2 + 1) = length (escaped inp) + 3"
    using escape_size_length [of inp "length inp + 2 + 1"] by simp
  then show ?thesis
    by (simp add: sym_escape_string_value_def buf_cat_def escape_fill_escaped)
qed

function expand_spec :: "calc \<Rightarrow> string \<Rightarrow> kstate \<Rightarrow> (string \<times> kstate) option" where
  "expand_spec calc inp s = (case strchr (CHR ''$'') inp of
     None \<Rightarrow> Some (inp, s)
   | Some (pre, src) \<Rightarrow>
       if length (takeWhile name_char src) \<ge> SYMBOL_MAXLENGTH then None
       else do {
         (symval, s) \<leftarrow> expand_symval calc (takeWhile name_char src) s;
         (rest, s) \<leftarrow> expand_spec calc (dropWhile name_char src) s;
         Some (pre @ symval @ rest, s)
       })"
  by pat_completeness auto
termination
  by (relation "measure (\<lambda>(_, inp, _). length inp)") (auto intro: expand_shorter)

declare expand_spec.simps [simp del]

lemma expand_end:
  assumes "strchr (CHR ''$'') inp = None" "length res + length inp < reslen"
  shows "expand_loop calc inp res reslen s = Some (res @ inp, s)" "expand_spec calc inp s = Some (inp, s)"
  using assms by (subst expand_loop.simps expand_spec.simps, simp add: buf_cat_def)+

lemma expand_fail:
  assumes "strchr (CHR ''$'') inp = Some (pre, src)" "length res + length inp < reslen"
    "length (takeWhile name_char src) \<ge> SYMBOL_MAXLENGTH \<or> expand_symval calc (takeWhile name_char src) s = None"
  shows "expand_loop calc inp res reslen s = None" "expand_spec calc inp s = None"
proof -
  have "length inp = length pre + 1 + length src" using strchr_split [OF assms(1)] by simp
  with assms show "expand_loop calc inp res reslen s = None"
    by (subst expand_loop.simps) (auto simp: buf_cat_def Let_def)
  from assms show "expand_spec calc inp s = None" by (subst expand_spec.simps) auto
qed

lemma expand_more:
  assumes "strchr (CHR ''$'') inp = Some (pre, src)" "length res + length inp < reslen"
    "length (takeWhile name_char src) < SYMBOL_MAXLENGTH"
    "expand_symval calc (takeWhile name_char src) s = Some (symval, s1)"
  obtains cap where "expand_loop calc inp res reslen s =
      expand_loop calc (dropWhile name_char src) ((res @ pre) @ symval) cap s1"
    "length ((res @ pre) @ symval) + length (dropWhile name_char src) < cap"
    "expand_spec calc inp s =
      map_option (\<lambda>(out, s). (pre @ symval @ out, s)) (expand_spec calc (dropWhile name_char src) s1)"
proof
  define newlen where "newlen = length (res @ pre) + length symval + length (dropWhile name_char src) + 1"
  define cap where "cap = (if newlen > reslen then newlen else reslen)"
  show "expand_loop calc inp res reslen s =
      expand_loop calc (dropWhile name_char src) ((res @ pre) @ symval) cap s1"
    using assms strchr_split [OF assms(1)]
    by (subst expand_loop.simps) (simp add: Let_def cap_def newlen_def buf_cat_def)
  show "length ((res @ pre) @ symval) + length (dropWhile name_char src) < cap"
    by (simp add: cap_def newlen_def)
  show "expand_spec calc inp s =
      map_option (\<lambda>(out, s). (pre @ symval @ out, s)) (expand_spec calc (dropWhile name_char src) s1)"
    using assms by (subst expand_spec.simps) (auto split: Option.bind_split)
qed

lemma expand_loop_spec:
  "length res + length inp < reslen \<Longrightarrow>
   expand_loop calc inp res reslen s = map_option (\<lambda>(out, s). (res @ out, s)) (expand_spec calc inp s)"
proof (induction "length inp" arbitrary: inp res reslen s rule: less_induct)
  case less
  show ?case
  proof (cases "strchr (CHR ''$'') inp")
    case None
    with expand_end [OF None less.prems] show ?thesis by simp
  next
    case (Some x)
    then obtain pre src where x: "strchr (CHR ''$'') inp = Some (pre, src)" by (cases x) auto
    consider "length (takeWhile name_char src) \<ge> SYMBOL_MAXLENGTH \<or> expand_symval calc (takeWhile name_char src) s = None"
      | symval s1 where "length (takeWhile name_char src) < SYMBOL_MAXLENGTH"
        "expand_symval calc (takeWhile name_char src) s = Some (symval, s1)" by fastforce
    then show ?thesis
    proof cases
      case 1
      then show ?thesis using expand_fail [OF x less.prems 1] by simp
    next
      case 2
      obtain cap where c: "expand_loop calc inp res reslen s =
          expand_loop calc (dropWhile name_char src) ((res @ pre) @ symval) cap s1"
        "length ((res @ pre) @ symval) + length (dropWhile name_char src) < cap"
        "expand_spec calc inp s =
          map_option (\<lambda>(out, s). (pre @ symval @ out, s)) (expand_spec calc (dropWhile name_char src) s1)"
        by (rule expand_more [OF x less.prems 2])
      show ?thesis
        using less.hyps [OF expand_shorter [OF x] c(2)] c(1,3) by (simp add: option.map_comp o_def split_def)
    qed
  qed
qed

lemma expand_total: "sym_expand_string_value calc inp s = expand_spec calc inp s"
  by (simp add: sym_expand_string_value_def expand_loop_spec split_def option.map_ident)

section \<open>The symbol table\<close>

definition in_bucket :: "kstate \<Rightarrow> nat \<Rightarrow> symref \<Rightarrow> bool" where
  "in_bucket s h r \<longleftrightarrow> (\<exists>i < k_nsym s. r = Sym i) \<and>
     (case name (k_sym s r) of None \<Rightarrow> h = 0 | Some n \<Rightarrow> h = bucket n \<and> const_name n = None)"

definition table_wf :: "kstate \<Rightarrow> bool" where
  "table_wf s \<longleftrightarrow> (\<forall>h. distinct (k_hash s h) \<and> (\<forall>r \<in> set (k_hash s h). in_bucket s h r)) \<and>
     (\<forall>r. r \<in> {Symbol_yes, Symbol_mod, Symbol_no} \<longrightarrow> name (k_sym s r) = name (const_symbol r))"

definition all_refs :: "kstate \<Rightarrow> symref list" where
  "all_refs s = concat (map (k_hash s) [0..<SYMBOL_HASHSIZE])"

lemma bucket_less: "bucket n < SYMBOL_HASHSIZE"
  by (simp add: bucket_def)

lemma find_none: "(\<forall>x \<in> set xs. \<not> P x) \<Longrightarrow> find P xs = None"
  by (simp add: find_None_iff)

lemma find_append: "find P (xs @ ys) = (case find P xs of None \<Rightarrow> find P ys | r \<Rightarrow> r)"
  by (induction xs) auto

lemma find_concat:
  assumes "\<forall>k \<in> set ks. k \<noteq> h \<longrightarrow> (\<forall>x \<in> set (f k). \<not> P x)" "h \<in> set ks"
  shows "find P (concat (map f ks)) = find P (f h)"
  using assms
proof (induction ks)
  case (Cons k ks)
  show ?case
  proof (cases "k = h \<and> h \<notin> set ks")
    case True
    then have "\<forall>x \<in> set (concat (map f ks)). \<not> P x" using Cons.prems by auto
    then show ?thesis using True by (simp add: find_append find_none split: option.split)
  next
    case False
    then have ih: "find P (concat (map f ks)) = find P (f h)" using Cons by auto
    show ?thesis
    proof (cases "k = h")
      case True
      then show ?thesis using ih by (simp add: find_append split: option.split)
    next
      case False
      then show ?thesis using ih Cons.prems by (simp add: find_append find_none)
    qed
  qed
qed simp

lemma table_find:
  assumes "table_wf s" "const_name n = None" "\<And>r. P r \<Longrightarrow> name (k_sym s r) = Some n"
  shows "find P (k_hash s (bucket n)) = find P (all_refs s)"
proof -
  have "\<not> P r" if "k \<noteq> bucket n" "r \<in> set (k_hash s k)" for k r
    using assms that by (fastforce simp: table_wf_def in_bucket_def)
  then show ?thesis unfolding all_refs_def
    by (intro find_concat [symmetric]) (auto simp: bucket_less)
qed

lemma new_symbol_wf:
  assumes "table_wf s" "new_symbol nm h fl s = (r, s')"
    "case nm of None \<Rightarrow> h = 0 | Some n \<Rightarrow> h = bucket n \<and> const_name n = None"
  shows "table_wf s'"
proof -
  have r: "r = Sym (k_nsym s)" and s': "s' = s\<lparr>k_nsym := Suc (k_nsym s), k_sym := (k_sym s)(r := mk_symbol nm fl),
               k_hash := (k_hash s)(h := r # k_hash s h)\<rparr>"
    using assms(2) by (auto simp: new_symbol_def Let_def)
  have old: "r \<notin> set (k_hash s k)" for k using assms(1) by (auto simp: table_wf_def in_bucket_def r)
  have "in_bucket s' k q" if "in_bucket s k q" for k q
    using that by (auto simp: in_bucket_def s' r)
  moreover have "in_bucket s' h r" using assms(3) by (simp add: in_bucket_def s' r mk_symbol_def)
  ultimately show ?thesis
    using assms(1) old r by (auto simp: table_wf_def s')
qed

lemma lookup_wf:
  assumes "table_wf s" "sym_lookup nm fl s = (r, s')"
  shows "table_wf s'"
  using assms new_symbol_wf [OF assms(1)]
  by (auto simp: sym_lookup_def split: option.splits)

lemma const_name_Some:
  "const_name n = Some r \<longleftrightarrow> n = ''y'' \<and> r = Symbol_yes \<or> n = ''m'' \<and> r = Symbol_mod \<or> n = ''n'' \<and> r = Symbol_no"
  by (cases n rule: const_name.cases) auto

lemma lookup_name:
  assumes "table_wf s" "sym_lookup (Some n) fl s = (r, s')"
  shows "name (k_sym s' r) = Some n"
proof (cases "const_name n")
  case None
  with assms show ?thesis
    by (auto simp: sym_lookup_def new_symbol_def mk_symbol_def lookup_match_def find_Some_iff Let_def split: option.splits)
next
  case (Some c)
  with assms show ?thesis
    by (auto simp: sym_lookup_def table_wf_def const_name_Some mk_symbol_def)
qed

text \<open>Looking a name up allocates at most once.\<close>

lemma lookup_again:
  assumes "sym_lookup (Some n) fl s = (r, s')"
  shows "sym_lookup (Some n) fl s' = (r, s')"
proof (cases "const_name n = None \<and> find (lookup_match s n fl) (k_hash s (bucket n)) = None")
  case True
  then have "(r, s') = new_symbol (Some n) (bucket n) fl s" using assms by (simp add: sym_lookup_def)
  moreover from this have "lookup_match s' n fl r" by (auto simp: new_symbol_def Let_def lookup_match_def mk_symbol_def)
  ultimately show ?thesis using True by (auto simp: sym_lookup_def new_symbol_def Let_def)
next
  case False
  with assms show ?thesis by (auto simp: sym_lookup_def split: option.splits)
qed

lemma lookup_keeps:
  assumes "table_wf s" "sym_lookup nm fl s = (r, s')" "q \<noteq> Sym (k_nsym s)"
  shows "k_sym s' q = k_sym s q"
  using assms by (auto simp: sym_lookup_def new_symbol_def Let_def split: option.splits)

text \<open>Interning names: what a table promises to the code that reads configuration files.\<close>

locale interning =
  fixes intern :: "string \<Rightarrow> 's \<Rightarrow> 'r \<times> 's"
    and inv :: "'s \<Rightarrow> bool"
    and known :: "'s \<Rightarrow> 'r \<Rightarrow> bool"
    and name_of :: "'s \<Rightarrow> 'r \<Rightarrow> string option"
  assumes inv: "inv s \<Longrightarrow> intern n s = (r, s') \<Longrightarrow> inv s'"
    and known: "inv s \<Longrightarrow> intern n s = (r, s') \<Longrightarrow> known s' r"
    and name: "inv s \<Longrightarrow> intern n s = (r, s') \<Longrightarrow> name_of s' r = Some n"
    and stable: "inv s \<Longrightarrow> intern n s = (r, s') \<Longrightarrow> known s q \<Longrightarrow> known s' q \<and> name_of s' q = name_of s q"
    and again: "inv s \<Longrightarrow> intern n s = (r, s') \<Longrightarrow> intern n s' = (r, s')"
begin

fun intern_all :: "string list \<Rightarrow> 's \<Rightarrow> 'r list \<times> 's" where
  "intern_all [] s = ([], s)"
| "intern_all (n # ns) s = (let (r, s) = intern n s; (rs, s) = intern_all ns s in (r # rs, s))"

lemma intern_all_stable:
  "inv s \<Longrightarrow> intern_all ns s = (rs, s') \<Longrightarrow> known s q \<Longrightarrow> inv s' \<and> known s' q \<and> name_of s' q = name_of s q"
proof (induction ns arbitrary: s rs)
  case (Cons n ns)
  obtain r s1 where 1: "intern n s = (r, s1)" by fastforce
  obtain rs' where 2: "intern_all ns s1 = (rs', s')" using Cons.prems 1 by (auto split: prod.splits)
  have "inv s1" "known s1 q" "name_of s1 q = name_of s q"
    using inv [OF Cons.prems(1) 1] stable [OF Cons.prems(1) 1 Cons.prems(3)] by auto
  then show ?case using Cons.IH [OF _ 2] by simp
qed simp

lemma intern_all_inv: "inv s \<Longrightarrow> intern_all ns s = (rs, s') \<Longrightarrow> inv s'"
  by (induction ns arbitrary: s rs) (auto split: prod.splits dest: inv)

lemma intern_all_names:
  "inv s \<Longrightarrow> intern_all ns s = (rs, s') \<Longrightarrow> map (name_of s') rs = map Some ns"
proof (induction ns arbitrary: s rs)
  case (Cons n ns)
  obtain r s1 where 1: "intern n s = (r, s1)" by fastforce
  obtain rs' where 2: "intern_all ns s1 = (rs', s')" "rs = r # rs'" using Cons.prems 1 by (auto split: prod.splits)
  have i: "inv s1" using inv [OF Cons.prems(1) 1] .
  have "name_of s' r = Some n"
    using intern_all_stable [OF i 2(1) known [OF Cons.prems(1) 1]] name [OF Cons.prems(1) 1] by simp
  then show ?case using Cons.IH [OF i 2(1)] 2(2) by simp
qed simp

lemma intern_all_inj:
  assumes "inv s" "intern_all ns s = (rs, s')" "distinct ns"
  shows "distinct rs"
proof -
  have "distinct (map (name_of s') rs)" using assms intern_all_names by (simp add: distinct_map)
  then show ?thesis by (simp add: distinct_map)
qed

end

interpretation tab: interning "\<lambda>n. sym_lookup (Some n) fl" table_wf "\<lambda>s q. q \<noteq> Sym (k_nsym s) \<and> (\<forall>i. q = Sym i \<longrightarrow> i < k_nsym s)"
    "\<lambda>s q. name (k_sym s q)" for fl
proof unfold_locales
  fix s s' :: kstate and n r q
  assume a: "table_wf s" "sym_lookup (Some n) fl s = (r, s')"
  show "table_wf s'" using a lookup_wf by blast
  show "name (k_sym s' r) = Some n" using a lookup_name by blast
  show "sym_lookup (Some n) fl s' = (r, s')" using a lookup_again by blast
  have m: "k_nsym s \<le> k_nsym s'" using a by (auto simp: sym_lookup_def new_symbol_def Let_def split: option.splits)
  show "r \<noteq> Sym (k_nsym s') \<and> (\<forall>i. r = Sym i \<longrightarrow> i < k_nsym s')"
    using a by (fastforce simp: sym_lookup_def new_symbol_def Let_def const_name_Some find_Some_iff table_wf_def
        in_bucket_def set_conv_nth split: option.splits)
  assume "q \<noteq> Sym (k_nsym s) \<and> (\<forall>i. q = Sym i \<longrightarrow> i < k_nsym s)"
  then show "(q \<noteq> Sym (k_nsym s') \<and> (\<forall>i. q = Sym i \<longrightarrow> i < k_nsym s')) \<and> name (k_sym s' q) = name (k_sym s q)"
    using lookup_keeps [OF a] m by fastforce
qed

section \<open>Toggling\<close>

definition tristate_accepts :: "kstate \<Rightarrow> symref \<Rightarrow> tristate \<Rightarrow> bool" where
  "tristate_accepts s r v \<longleftrightarrow> tri (curr (k_sym s r)) = v \<or> sym_tristate_within_range s r v"

lemma set_rejects: "\<not> tristate_accepts s r v \<Longrightarrow> sym_set_tristate_value calc r v s = Some (False, s)"
  by (simp add: sym_set_tristate_value_def tristate_accepts_def sym_get_tristate_value_def)

lemma set_accepts:
  assumes "tristate_accepts s r v" "sym_set_tristate_value calc r v s = Some (ok, s')"
  shows ok
  using assms by (auto simp: sym_set_tristate_value_def tristate_accepts_def sym_get_tristate_value_def Let_def
      elim!: bind_SomeE if_SomeE)

lemma toggle_loop_step:
  "toggle_loop (Suc n) calc r old v s =
     (if tristate_accepts s r (toggle_next v)
      then map_option (\<lambda>(_, s'). (toggle_next v, s')) (sym_set_tristate_value calc r (toggle_next v) s)
      else if old = toggle_next v then Some (old, s) else toggle_loop n calc r old (toggle_next v) s)"
proof (cases "tristate_accepts s r (toggle_next v)")
  case True
  then have "\<forall>x. sym_set_tristate_value calc r (toggle_next v) s = Some x \<longrightarrow> fst x"
    using set_accepts by fastforce
  with True show ?thesis
    by (cases "sym_set_tristate_value calc r (toggle_next v) s") (auto simp: split_def)
next
  case False
  then show ?thesis by (auto simp: set_rejects)
qed

lemma toggle_candidates:
  "sym_toggle_tristate_value calc r s =
     (let old = tri (curr (k_sym s r)); a = toggle_next old; b = toggle_next a;
          v = (if tristate_accepts s r a then a else if tristate_accepts s r b then b else old)
      in map_option (\<lambda>(_, s'). (v, s')) (sym_set_tristate_value calc r v s))"
proof -
  define old where "old = tri (curr (k_sym s r))"
  have acc: "tristate_accepts s r old" by (simp add: tristate_accepts_def old_def)
  have "toggle_next (toggle_next (toggle_next old)) = old" "toggle_next old \<noteq> old" "toggle_next (toggle_next old) \<noteq> old"
    by (cases old; simp)+
  then show ?thesis using acc
    by (simp add: sym_toggle_tristate_value_def sym_get_tristate_value_def old_def [symmetric]
        numeral_3_eq_3 toggle_loop_step Let_def del: toggle_loop.simps)
qed

section \<open>Search results\<close>

lemma insort_by_sorted:
  assumes "sorted_wrt le ys" "\<And>y. y \<in> set ys \<Longrightarrow> \<exists>c. cmp x y = Some c \<and> (c \<le> 0 \<longleftrightarrow> le x y) \<and> (\<not> le x y \<longrightarrow> le y x)"
    "\<And>a b c. le a b \<Longrightarrow> le b c \<Longrightarrow> le a c"
  shows "\<exists>zs. insort_by cmp x ys = Some zs \<and> sorted_wrt le zs \<and> mset zs = add_mset x (mset ys)"
  using assms(1,2)
proof (induction ys)
  case (Cons y ys)
  obtain c where c: "cmp x y = Some c" "c \<le> 0 \<longleftrightarrow> le x y" "\<not> le x y \<longrightarrow> le y x" using Cons.prems(2) [of y] by auto
  show ?case
  proof (cases "c \<le> 0")
    case True
    then show ?thesis using c Cons.prems(1) assms(3) by auto
  next
    case False
    obtain zs where zs: "insort_by cmp x ys = Some zs" "sorted_wrt le zs" "mset zs = add_mset x (mset ys)"
      using Cons by auto
    have "set zs = insert x (set ys)" using zs(3) by (metis set_mset_add_mset_insert set_mset_mset)
    then have "sorted_wrt le (y # zs)" using zs(2) Cons.prems(1) c(2,3) False by auto
    then show ?thesis using zs c False by auto
  qed
qed simp

lemma qsort_by_sorted:
  assumes "\<And>x y. x \<in> set xs \<Longrightarrow> y \<in> set xs \<Longrightarrow> \<exists>c. cmp x y = Some c \<and> (c \<le> 0 \<longleftrightarrow> le x y) \<and> (\<not> le x y \<longrightarrow> le y x)"
    "\<And>a b c. le a b \<Longrightarrow> le b c \<Longrightarrow> le a c"
  shows "\<exists>ys. qsort_by cmp xs = Some ys \<and> sorted_wrt le ys \<and> mset ys = mset xs"
  using assms(1)
proof (induction xs)
  case (Cons x xs)
  then obtain ys where ys: "qsort_by cmp xs = Some ys" "sorted_wrt le ys" "mset ys = mset xs" by auto
  have "set ys = set xs" using ys(3) by (metis set_mset_mset)
  then obtain zs where "insort_by cmp x ys = Some zs" "sorted_wrt le zs" "mset zs = add_mset x (mset ys)"
    using insort_by_sorted [of le ys cmp x] ys(2) assms(2) Cons.prems by auto
  then show ?case using ys by simp
qed simp

definition exact_match :: "kstate \<Rightarrow> sym_match \<Rightarrow> bool" where
  "exact_match s m \<longleftrightarrow> (\<exists>n. name (k_sym s (mt_sym m)) = Some n \<and> int (eo m) - int (so m) = int (length n))"

definition match_name :: "kstate \<Rightarrow> sym_match \<Rightarrow> string" where
  "match_name s m = (case name (k_sym s (mt_sym m)) of None \<Rightarrow> '''' | Some n \<Rightarrow> n)"

definition match_le :: "kstate \<Rightarrow> sym_match \<Rightarrow> sym_match \<Rightarrow> bool" where
  "match_le s a b \<longleftrightarrow> exact_match s a \<and> \<not> exact_match s b \<or>
     (exact_match s a \<longleftrightarrow> exact_match s b) \<and> \<not> str_less (match_name s b) (match_name s a)"

lemma not_less_trans: "\<not> str_less b a \<Longrightarrow> \<not> str_less c b \<Longrightarrow> \<not> str_less c a"
  using str_less_total str_less_trans by metis

lemma match_le_trans: "match_le s a b \<Longrightarrow> match_le s b c \<Longrightarrow> match_le s a c"
  unfolding match_le_def using not_less_trans by blast

lemma strcmp_le: "strcmp a b \<le> 0 \<longleftrightarrow> \<not> str_less b a"
  using str_less_total [of a b] str_less_trans [of a b a] by (auto simp: strcmp_def)

lemma rel_comp_le:
  assumes "name (k_sym s (mt_sym a)) \<noteq> None" "name (k_sym s (mt_sym b)) \<noteq> None"
  shows "\<exists>c. sym_rel_comp s a b = Some c \<and> (c \<le> 0 \<longleftrightarrow> match_le s a b) \<and> (\<not> match_le s a b \<longrightarrow> match_le s b a)"
proof -
  obtain n1 n2 where n: "name (k_sym s (mt_sym a)) = Some n1" "name (k_sym s (mt_sym b)) = Some n2" using assms by auto
  have "\<not> str_less n2 n1 \<or> \<not> str_less n1 n2" using str_less_trans str_less_irrefl by blast
  then show ?thesis
    using n strcmp_le [of n1 n2] by (auto simp: sym_rel_comp_def match_le_def exact_match_def match_name_def Let_def)
qed

end
