(* ===== verification/Kconfig_Symbol_Props.thy ===== *)
theory Kconfig_Symbol_Props
  imports Kconfig_Symbol_Sem Kconfig_Calc_Props
begin

text \<open>
  The properties of the operations on symbols: the table, the values the user may set, the search
  and the string conversions.
\<close>

section \<open>Searching\<close>

text \<open>The symbols that match a compiled expression, in the order of the table.\<close>

definition match_of :: "kstate \<Rightarrow> regexec \<Rightarrow> symref \<Rightarrow> sym_match option" where
  "match_of s re r = (if SYMBOL_CONST \<in> flags (k_sym s r) then None
     else map_option (\<lambda>(b, e). \<lparr>mt_sym = r, so = b, eo = e\<rparr>) (Option.bind (name (k_sym s r)) re))"

definition matches :: "kstate \<Rightarrow> regexec \<Rightarrow> sym_match list" where
  "matches s re = List.map_filter (match_of s re) (all_syms s)"

lemma match_of_erase: "erase s' = erase s \<Longrightarrow> match_of s' re = match_of s re"
  using erase_symD(1) [OF eraseD(1), of s' s] erase_flag [of s' s SYMBOL_CONST]
  by (intro ext) (simp add: match_of_def dyn_flags_def)

context evaluator
begin

lemma re_collect_matches:
  "re_collect re calc rs s = Some (ms, s') \<Longrightarrow> choices_wf s \<Longrightarrow>
   ms = List.map_filter (match_of s re) rs \<and> erase s' = erase s"
proof (induction rs arbitrary: s ms)
  case (Cons r rs)
  show ?case
  proof (cases "match_of s re r")
    case None
    then show ?thesis using Cons by (auto simp: match_of_def List.map_filter_simps split: if_splits option.splits)
  next
    case (Some m)
    then obtain b e where be: "(if SYMBOL_CONST \<in> flags (k_sym s r) then None else Option.bind (name (k_sym s r)) re) = Some (b, e)"
      and m: "m = \<lparr>mt_sym = r, so = b, eo = e\<rparr>" by (auto simp: match_of_def split: if_splits)
    obtain s1 ms' where s1: "calc r s = Some s1" "re_collect re calc rs s1 = Some (ms', s')" "ms = m # ms'"
      using Cons.prems(1) be m by (auto elim!: bind_SomeE)
    have e: "erase s1 = erase s" using calc_keeps [OF s1(1)] Cons.prems(2) by (simp add: keeps_def frame_def)
    have "choices_wf s1" using choices_wf_erase [OF e] Cons.prems(2) by simp
    from Cons.IH [OF s1(2) this] show ?thesis using s1(3) Some e by (simp add: List.map_filter_simps match_of_erase [OF e])
  qed
qed simp

lemma re_search_sorts:
  assumes "choices_wf s" "pat \<noteq> []" "regcomp pat = Some re" "re_collect re calc (all_syms s) s = Some (ms, s')"
  shows "\<exists>ms'. sym_re_search regcomp calc pat s = Some (if ms' = [] then None else Some (map mt_sym ms'), s') \<and>
    sorted_wrt (match_le s') ms' \<and> mset ms' = mset (matches s re)"
proof -
  have ms: "ms = matches s re" "erase s' = erase s"
    using re_collect_matches [OF assms(4,1)] by (simp_all add: matches_def)
  have nm: "name (k_sym s' (mt_sym m)) \<noteq> None" if "m \<in> set ms" for m
  proof -
    obtain r where "match_of s re r = Some m" using \<open>m \<in> set ms\<close> ms(1) by (auto simp: matches_def List.map_filter_def)
    then have "name (k_sym s (mt_sym m)) \<noteq> None" by (auto simp: match_of_def bind_eq_Some_conv split: if_splits)
    then show ?thesis using erase_symD(1) [OF eraseD(1) [OF ms(2)]] by simp
  qed
  have "\<exists>ms'. qsort_by (sym_rel_comp s') ms = Some ms' \<and> sorted_wrt (match_le s') ms' \<and> mset ms' = mset ms"
    by (rule qsort_by_sorted) (simp_all only: rel_comp_le nm not_False_eq_True, rule match_le_trans)
  then obtain ms' where q: "qsort_by (sym_rel_comp s') ms = Some ms'" "sorted_wrt (match_le s') ms'" "mset ms' = mset ms"
    by blast
  then have "ms' = [] \<longleftrightarrow> ms = []" by (metis mset_zero_iff)
  then show ?thesis using q ms(1) assms(2-4) by (intro exI [of _ ms']) (auto simp: sym_re_search_def)
qed

end

section \<open>Values within range\<close>


section \<open>The symbol table\<close>

lemma table_empty: "table_wf sample_state"
  by (auto simp: table_wf_def sample_state_def sample_k_sym_def)

text \<open>
  C14: \<open>sym_lookup\<close> returns a symbol with the given name, keeps the hash table well formed (every
  symbol in the bucket of its name, none twice), changes no other symbol, and returns the
  same symbol when it is asked again.
\<close>

theorem sym_lookup_correct:
  assumes "table_wf s" "sym_lookup (Some n) fl s = (r, s')"
  shows "name (k_sym s' r) = Some n \<and> table_wf s' \<and> sym_lookup (Some n) fl s' = (r, s') \<and>
    (\<forall>q. q \<noteq> Sym (k_nsym s) \<longrightarrow> k_sym s' q = k_sym s q)"
  using lookup_name [OF assms] lookup_wf [OF assms] lookup_again [OF assms(2)] lookup_keeps [OF assms] by blast

theorem sym_lookup_correct_witness:
  "\<exists>r s'. sym_lookup (Some ''FOO'') {} sample_state = (r, s') \<and> r = Sym 7 \<and> name (k_sym s' r) = Some ''FOO''"
proof -
  obtain r s' where s': "sym_lookup (Some ''FOO'') {} sample_state = (r, s')" by fastforce
  have "r = Sym 7" using s' by (auto simp: sym_lookup_def new_symbol_def sample_state_def Let_def)
  then show ?thesis using sym_lookup_correct [OF table_empty s'] s' by blast
qed







section \<open>Setting values\<close>



text \<open>
  C30: \<open>sym_toggle_tristate_value\<close> sets the first value after the current one, in the order
  \<open>n\<close>, \<open>m\<close>, \<open>y\<close>, \<open>n\<close>, that the symbol accepts, and returns it; its loop ends after at most three rounds.
\<close>

theorem sym_toggle_correct:
  "sym_toggle_tristate_value calc r s =
     (let old = tri (curr (k_sym s r)); a = toggle_next old; b = toggle_next a;
          v = (if tristate_accepts s r a then a else if tristate_accepts s r b then b else old)
      in map_option (\<lambda>(_, s'). (v, s')) (sym_set_tristate_value calc r v s))"
  by (rule toggle_candidates)

section \<open>Searching\<close>

text \<open>
  C22: \<open>sym_re_search\<close> returns exactly the symbols whose names match, each as often as it is in the
  table, with the exact matches first and the rest ordered by name, whatever the compiled
  expression is.
\<close>

theorem sym_re_search_correct:
  assumes "choices_wf s" "pat \<noteq> []" "regcomp pat = Some re"
    and "re_collect re (sym_calc_value n) (all_syms s) s = Some (ms, s')"
  shows "\<exists>ms'. sym_re_search regcomp (sym_calc_value n) pat s =
      Some (if ms' = [] then None else Some (map mt_sym ms'), s') \<and>
    sorted_wrt (match_le s') ms' \<and> mset ms' = mset (matches s re)"
  by (rule ev.re_search_sorts) (rule assms)+

lemma all_syms_one:
  assumes "k_hash s = (\<lambda>_. [])(0 := rs)"
  shows "all_syms s = filter (\<lambda>r. stype (k_sym s r) \<noteq> S_OTHER) rs"
proof -
  have "concat (map (k_hash s) [0..<SYMBOL_HASHSIZE]) = rs @ concat (map (k_hash s) [1..<SYMBOL_HASHSIZE])"
    unfolding assms by (subst upt_conv_Cons) simp_all
  moreover have "concat (map (k_hash s) [1..<SYMBOL_HASHSIZE]) = []" unfolding assms by (simp del: upt.simps upt_Suc)
  ultimately show ?thesis by (simp add: all_syms_def)
qed

definition search_state :: kstate where
  "search_state = sample_state\<lparr>k_hash := (\<lambda>_. [])(0 := [sC, sS, sA])\<rparr>"

definition not_S :: regexec where
  "not_S n = (if n = ''S'' then None else Some (0, 1))"

theorem sym_re_search_correct_witness:
  "\<exists>ms s'. sym_re_search (\<lambda>_. Some not_S) (sym_calc_value 4) ''[^S]'' search_state = Some (Some (map mt_sym ms), s') \<and>
     sorted_wrt (match_le s') ms \<and> mset (map mt_sym ms) = {#sA, sC#}"
proof -
  have wf: "choices_wf search_state" using choices_wf_cong [of search_state sample_state] sample_choices by (simp add: search_state_def)
  have "all_syms search_state = filter (\<lambda>r. stype (k_sym search_state r) \<noteq> S_OTHER) [sC, sS, sA]"
    by (rule all_syms_one) (simp add: search_state_def)
  then have syms: "all_syms search_state = [sC, sS, sA]" by (simp add: search_state_def sample_defs)
  have "map_option (\<lambda>_. ()) (re_collect not_S (sym_calc_value 4) [sC, sS, sA] search_state) = Some ()" by code_simp
  then obtain ms s' where c: "re_collect not_S (sym_calc_value 4) (all_syms search_state) search_state = Some (ms, s')"
    unfolding syms by auto
  have m: "matches search_state not_S = [\<lparr>mt_sym = sC, so = 0, eo = 1\<rparr>, \<lparr>mt_sym = sA, so = 0, eo = 1\<rparr>]"
    unfolding matches_def syms by code_simp
  from sym_re_search_correct [OF wf _ _ c, of "''[^S]''" "\<lambda>_. Some not_S"] obtain ms' where
    q: "sym_re_search (\<lambda>_. Some not_S) (sym_calc_value 4) ''[^S]'' search_state = Some (if ms' = [] then None else Some (map mt_sym ms'), s')"
    "sorted_wrt (match_le s') ms'" "mset ms' = mset (matches search_state not_S)" by auto
  moreover have "mset (map mt_sym ms') = image_mset mt_sym (mset ms')" by simp
  ultimately show ?thesis unfolding m by (intro exI [of _ ms'] exI [of _ s']) auto
qed

section \<open>Strings\<close>

text \<open>
  C24: \<open>sym_escape_string_value\<close> computes the size of its buffer so that no write passes the end, and
  the result is the string in quotes with a backslash before every quote and backslash.
\<close>

theorem sym_escape_correct:
  "sym_escape_string_value inp = Some (CHR 0x22 # concat (map (\<lambda>c. if c = CHR 0x22 \<or> c = CHR 0x5C then [CHR 0x5C, c] else [c]) inp) @ [CHR 0x22])"
proof -
  have "esc_char = (\<lambda>c. if c = CHR 0x22 \<or> c = CHR 0x5C then [CHR 0x5C, c] else [c])"
    by (rule ext) (auto simp: esc_char_def esc_special_def)
  then show ?thesis using escape_total [of inp] by (simp add: escaped_def)
qed

text \<open>
  C23: \<open>sym_expand_string_value\<close> never writes past its buffer, however often it grows: it returns
  what the recursive replacement of each \<open>$NAME\<close> by the value of the symbol returns, and it is
  undefined only where a name has 256 characters or more or the value of a symbol is.
\<close>

theorem sym_expand_correct:
  "sym_expand_string_value calc inp s = expand_spec calc inp s"
  by (rule expand_total)

end
