(* ===== verification/Kconfig_Check.thy ===== *)
theory Kconfig_Check
  imports Kconfig_Symbol
begin

text \<open>
  The search for recursive dependencies in \<^verbatim>\<open>symbol.c\<close>.  The frames that the code links
  through its call stack are the list \<open>k_check_stack\<close>, the innermost first.  The messages are
  modelled without the position they start with.
\<close>

type_synonym checker = "symref \<Rightarrow> kstate \<Rightarrow> (symref option \<times> kstate) option"

section \<open>The stack\<close>

definition dep_stack_insert :: "symref \<Rightarrow> kstate \<Rightarrow> kstate" where
  "dep_stack_insert r s = s\<lparr>k_check_stack := \<lparr>d_sym = r, d_prop = None, d_expr = None\<rparr> # k_check_stack s\<rparr>"

definition dep_stack_remove :: "kstate \<Rightarrow> kstate" where
  "dep_stack_remove s = s\<lparr>k_check_stack := tl (k_check_stack s)\<rparr>"

text \<open>The assignments to \<open>stack.prop\<close> and \<open>stack.expr\<close>, on the innermost frame.\<close>

definition upd_top :: "(dep_frame \<Rightarrow> dep_frame) \<Rightarrow> kstate \<Rightarrow> kstate" where
  "upd_top f s = s\<lparr>k_check_stack := (case k_check_stack s of [] \<Rightarrow> [] | t # ts \<Rightarrow> f t # ts)\<rparr>"

section \<open>The report\<close>

definition dep_name :: "symbol \<Rightarrow> string" where
  "dep_name x = (case name x of Some n \<Rightarrow> n | None \<Rightarrow> ''<choice>'')"

definition dep_error :: "string \<Rightarrow> kstate \<Rightarrow> kstate" where
  "dep_error msg s = add_log (M_stderr (msg @ [CHR 0x0A])) s"

text \<open>
  One round of the second loop of \<open>sym_check_print_recursive\<close>; \<open>menu\<close> is the variable of that
  name, which keeps its value from the round before.  The position of a message comes from
  \<open>prop\<close> or \<open>menu\<close>, so that these must not be null.
\<close>

definition frame_prop :: "kstate \<Rightarrow> dep_frame \<Rightarrow> nat option \<Rightarrow> nat option \<times> nat option" where
  "frame_prop s f menu =
     (let x = k_sym s (d_sym f)
      in if sym_is_choice x \<or> sym_is_choice_value x then
           (case find (\<lambda>p. p_menu (k_prop s p) \<noteq> None) (props x) of
              Some p \<Rightarrow> (Some p, p_menu (k_prop s p))
            | None \<Rightarrow> (None, if props x = [] then menu else None))
         else (case d_prop f of Some p \<Rightarrow> Some p | None \<Rightarrow> first_of (props x), menu))"

definition frame_text :: "kstate \<Rightarrow> dep_frame \<Rightarrow> symref \<Rightarrow> nat option \<Rightarrow> nat option \<Rightarrow> string option" where
  "frame_text s f nxt prop menu =
     (let x = k_sym s (d_sym f); n = dep_name x; m = dep_name (k_sym s nxt)
      in if d_expr f \<noteq> None then
           map_option (\<lambda>p. ''symbol '' @ n @ '' '' @ prop_get_type_name (p_type (k_prop s p)) @ '' value contains '' @ m) prop
         else if d_prop f \<noteq> None then map_option (\<lambda>_. ''symbol '' @ n @ '' depends on '' @ m) prop
         else if sym_is_choice x then map_option (\<lambda>_. ''choice '' @ n @ '' contains symbol '' @ m) menu
         else if sym_is_choice_value x then map_option (\<lambda>_. ''symbol '' @ n @ '' is part of choice '' @ m) menu
         else map_option (\<lambda>_. ''symbol '' @ n @ '' is selected by '' @ m) prop)"

fun print_frames :: "symref \<Rightarrow> dep_frame list \<Rightarrow> nat option \<Rightarrow> kstate \<Rightarrow> kstate option" where
  "print_frames last_sym [] menu s = Some s"
| "print_frames last_sym (f # fs) menu s = do {
     let nxt = (case fs of [] \<Rightarrow> last_sym | g # _ \<Rightarrow> d_sym g);
     let (prop, menu) = frame_prop s f menu;
     s \<leftarrow> (if d_sym f = last_sym then map_option (\<lambda>_. dep_error ''error: recursive dependency detected!'' s) prop
          else Some s);
     msg \<leftarrow> frame_text s f nxt prop menu;
     print_frames last_sym fs menu (dep_error msg s)
   }"

definition sym_check_print_recursive :: "symref \<Rightarrow> kstate \<Rightarrow> kstate option" where
  "sym_check_print_recursive r s = do {
     (last_sym, s1) \<leftarrow>
       (if sym_is_choice_value (k_sym s r) then do {
          c \<leftarrow> choice_of s r;
          Some (c, dep_stack_insert r s)
        } else Some (r, s));
     let frames = k_check_stack s1;
     let above = takeWhile (\<lambda>f. d_sym f \<noteq> last_sym) frames;
     case drop (length above) frames of
       [] \<Rightarrow> Some (dep_error ''unexpected recursive dependency error'' s1)
     | f # _ \<Rightarrow> do {
         s2 \<leftarrow> print_frames last_sym (f # rev above) None s1;
         Some (if sym_is_choice_value (k_sym s r) then dep_stack_remove s2 else s2)
       }
   }"

section \<open>The search\<close>

fun check_expr :: "checker \<Rightarrow> expr \<Rightarrow> kstate \<Rightarrow> (symref option \<times> kstate) option" where
  "check_expr chk (E_OR l r) s = do {
     (sm, s) \<leftarrow> check_expr chk l s;
     if sm \<noteq> None then Some (sm, s) else check_expr chk r s
   }"
| "check_expr chk (E_AND l r) s = do {
     (sm, s) \<leftarrow> check_expr chk l s;
     if sm \<noteq> None then Some (sm, s) else check_expr chk r s
   }"
| "check_expr chk (E_NOT e) s = check_expr chk e s"
| "check_expr chk (E_EQUAL a b) s = do {
     (sm, s) \<leftarrow> chk a s;
     if sm \<noteq> None then Some (sm, s) else chk b s
   }"
| "check_expr chk (E_UNEQUAL a b) s = do {
     (sm, s) \<leftarrow> chk a s;
     if sm \<noteq> None then Some (sm, s) else chk b s
   }"
| "check_expr chk (E_SYMBOL r) s = chk r s"
| "check_expr chk e s = Some (None, add_log (M_check_expr (etype e)) s)"

definition sym_check_expr_deps :: "checker \<Rightarrow> expr option \<Rightarrow> kstate \<Rightarrow> (symref option \<times> kstate) option" where
  "sym_check_expr_deps chk e s = (case e of None \<Rightarrow> Some (None, s) | Some e' \<Rightarrow> check_expr chk e' s)"

fun check_props :: "checker \<Rightarrow> symref \<Rightarrow> nat list \<Rightarrow> kstate \<Rightarrow> (symref option \<times> kstate) option" where
  "check_props chk r [] s = Some (None, s)"
| "check_props chk r (p # ps) s =
     (if p_type (k_prop s p) = P_CHOICE \<or> p_type (k_prop s p) = P_SELECT then check_props chk r ps s
      else do {
        let s = upd_top (\<lambda>f. f\<lparr>d_prop := Some p\<rparr>) s;
        (sm, s) \<leftarrow> sym_check_expr_deps chk (ev_expr (p_visible (k_prop s p))) s;
        if sm \<noteq> None then Some (sm, s)
        else if p_type (k_prop s p) \<noteq> P_DEFAULT \<or> sym_is_choice (k_sym s r) then check_props chk r ps s
        else do {
          let s = upd_top (\<lambda>f. f\<lparr>d_expr := p_expr (k_prop s p)\<rparr>) s;
          (sm, s) \<leftarrow> sym_check_expr_deps chk (p_expr (k_prop s p)) s;
          if sm \<noteq> None then Some (sm, s)
          else check_props chk r ps (upd_top (\<lambda>f. f\<lparr>d_expr := None\<rparr>) s)
        }
      })"

definition sym_check_sym_deps :: "checker \<Rightarrow> symref \<Rightarrow> kstate \<Rightarrow> (symref option \<times> kstate) option" where
  "sym_check_sym_deps chk r s = do {
     let s = dep_stack_insert r s;
     (sm, s) \<leftarrow> sym_check_expr_deps chk (ev_expr (rev_dep (k_sym s r))) s;
     (sm, s) \<leftarrow> (if sm \<noteq> None then Some (sm, s) else check_props chk r (props (k_sym s r)) s);
     Some (sm, dep_stack_remove s)
   }"

fun check_members :: "checker \<Rightarrow> symref list \<Rightarrow> kstate \<Rightarrow> (symref option \<times> kstate) option" where
  "check_members chk [] s = Some (None, s)"
| "check_members chk (r # rs) s = do {
     (sm, s) \<leftarrow> sym_check_sym_deps chk r s;
     if sm \<noteq> None then Some (sm, s) else check_members chk rs s
   }"

abbreviation check_marks :: "sym_flag set" where
  "check_marks \<equiv> {SYMBOL_CHECK, SYMBOL_CHECKED}"

definition sym_check_choice_deps :: "checker \<Rightarrow> symref \<Rightarrow> kstate \<Rightarrow> (symref option \<times> kstate) option" where
  "sym_check_choice_deps chk choice s = do {
     let s = dep_stack_insert choice s;
     members \<leftarrow> choice_members s choice;
     let s = fold (\<lambda>r. set_flags r check_marks) members s;
     let s = set_flags choice check_marks s;
     (sm, s) \<leftarrow> sym_check_sym_deps chk choice s;
     let s = clear_flags choice {SYMBOL_CHECK} s;
     (sm, s) \<leftarrow> (if sm \<noteq> None then Some (sm, s) else check_members chk members s);
     let s = fold (\<lambda>r. clear_flags r {SYMBOL_CHECK}) members s;
     sm \<leftarrow> (case sm of
         None \<Rightarrow> Some None
       | Some r2 \<Rightarrow>
           if sym_is_choice_value (k_sym s r2) then do {
             p \<leftarrow> sym_get_choice_prop s r2;
             c \<leftarrow> prop_get_symbol (k_prop s p);
             Some (if c = Some choice then Some choice else Some r2)
           } else Some (Some r2));
     Some (sm, dep_stack_remove s)
   }"

definition sym_check_step :: "checker \<Rightarrow> checker" where
  "sym_check_step chk r s =
     (if has_flag s r SYMBOL_CHECK then map_option (Pair (Some r)) (sym_check_print_recursive r s)
      else if has_flag s r SYMBOL_CHECKED then Some (None, s)
      else do {
        (sm, s) \<leftarrow>
          (if sym_is_choice_value (k_sym s r) then do {
             let s = dep_stack_insert r s;
             c \<leftarrow> choice_of s r;
             (sm, s) \<leftarrow> chk c s;
             Some (sm, dep_stack_remove s)
           } else if sym_is_choice (k_sym s r) then sym_check_choice_deps chk r s
           else do {
             let s = set_flags r check_marks s;
             (sm, s) \<leftarrow> sym_check_sym_deps chk r s;
             Some (sm, clear_flags r {SYMBOL_CHECK} s)
           });
        Some (if sm = Some r then None else sm, s)
      })"

primrec sym_check_deps :: "nat \<Rightarrow> checker" where
  "sym_check_deps 0 r s = None"
| "sym_check_deps (Suc n) r s = sym_check_step (sym_check_deps n) r s"

end
