(* ===== verification/Kconfig_Check_Props.thy ===== *)
theory Kconfig_Check_Props
  imports Kconfig_Check Kconfig_Calc_Props
begin

text \<open>
  The search for recursive dependencies is a depth-first search that marks the symbols on its path
  with \<open>SYMBOL_CHECK\<close> and those it has met with \<open>SYMBOL_CHECKED\<close>.  Without choices it reports an error exactly
  if a symbol can be reached that depends on itself.
\<close>

section \<open>Dependencies\<close>

fun check_syms :: "expr \<Rightarrow> symref set" where
  "check_syms (E_OR l r) = check_syms l \<union> check_syms r"
| "check_syms (E_AND l r) = check_syms l \<union> check_syms r"
| "check_syms (E_NOT e) = check_syms e"
| "check_syms (E_EQUAL a b) = {a, b}"
| "check_syms (E_UNEQUAL a b) = {a, b}"
| "check_syms (E_SYMBOL r) = {r}"
| "check_syms e = {}"

definition opt_syms :: "expr option \<Rightarrow> symref set" where
  "opt_syms e = (case e of None \<Rightarrow> {} | Some e' \<Rightarrow> check_syms e')"

definition prop_deps :: "kstate \<Rightarrow> nat \<Rightarrow> symref set" where
  "prop_deps s p =
     (if p_type (k_prop s p) = P_CHOICE \<or> p_type (k_prop s p) = P_SELECT then {}
      else opt_syms (ev_expr (p_visible (k_prop s p))) \<union>
        (if p_type (k_prop s p) = P_DEFAULT then opt_syms (p_expr (k_prop s p)) else {}))"

text \<open>The symbols that a symbol outside choices depends on: its selects, conditions and defaults.\<close>

definition deps :: "kstate \<Rightarrow> symref \<Rightarrow> symref set" where
  "deps s r = opt_syms (ev_expr (rev_dep (k_sym s r))) \<union> (\<Union>p \<in> set (props (k_sym s r)). prop_deps s p)"

definition dep_rel :: "kstate \<Rightarrow> (symref \<times> symref) set" where
  "dep_rel s = {(q, r). q \<in> deps s r}"

section \<open>What the search changes\<close>

definition strip_sym :: "symbol \<Rightarrow> symbol" where
  "strip_sym x = x\<lparr>flags := flags x - check_marks\<rparr>"

definition strip :: "kstate \<Rightarrow> kstate" where
  "strip s = s\<lparr>k_sym := strip_sym \<circ> k_sym s, k_check_stack := [], k_log := []\<rparr>"

lemma strip_simps [simp]:
  "strip (dep_stack_insert r s) = strip s" "strip (dep_stack_remove s) = strip s" "strip (upd_top f s) = strip s"
  "strip (add_log m s) = strip s"
  by (simp_all add: strip_def dep_stack_insert_def dep_stack_remove_def upd_top_def add_log_def)

lemma strip_marks [simp]:
  "fs \<subseteq> check_marks \<Longrightarrow> strip (set_flags r fs s) = strip s" "fs \<subseteq> check_marks \<Longrightarrow> strip (clear_flags r fs s) = strip s"
proof -
  assume fs: "fs \<subseteq> check_marks"
  have "strip_sym (x\<lparr>flags := flags x \<union> fs\<rparr>) = strip_sym x" "strip_sym (x\<lparr>flags := flags x - fs\<rparr>) = strip_sym x" for x
  proof -
    have "flags x \<union> fs - check_marks = flags x - check_marks" "flags x - fs - check_marks = flags x - check_marks" using fs by blast+
    then show "strip_sym (x\<lparr>flags := flags x \<union> fs\<rparr>) = strip_sym x" "strip_sym (x\<lparr>flags := flags x - fs\<rparr>) = strip_sym x"
      by (simp_all add: strip_sym_def)
  qed
  then have "strip_sym \<circ> k_sym (set_flags r fs s) = strip_sym \<circ> k_sym s" "strip_sym \<circ> k_sym (clear_flags r fs s) = strip_sym \<circ> k_sym s"
    by (simp_all add: fun_eq_iff set_flags_def clear_flags_def upd_sym_def)
  then show "strip (set_flags r fs s) = strip s" "strip (clear_flags r fs s) = strip s"
    by (simp_all add: strip_def) (simp_all add: set_flags_def clear_flags_def upd_sym_def)
qed

lemma strip_symD:
  assumes "strip_sym x = strip_sym y"
  shows "props x = props y" "rev_dep x = rev_dep y" "flags x - check_marks = flags y - check_marks"
proof -
  have "props (strip_sym x) = props (strip_sym y)" "rev_dep (strip_sym x) = rev_dep (strip_sym y)"
    "flags (strip_sym x) = flags (strip_sym y)" by (simp_all only: assms)
  then show "props x = props y" "rev_dep x = rev_dep y" "flags x - check_marks = flags y - check_marks"
    by (simp_all add: strip_sym_def)
qed

lemma stripD:
  assumes "strip s' = strip s"
  shows "k_prop s' = k_prop s" "props (k_sym s' r) = props (k_sym s r)" "rev_dep (k_sym s' r) = rev_dep (k_sym s r)"
    "plain s' r = plain s r"
proof -
  have "k_prop (strip s') = k_prop (strip s)" "k_sym (strip s') r = k_sym (strip s) r" using assms by simp_all
  then have p: "k_prop s' = k_prop s" and x: "strip_sym (k_sym s' r) = strip_sym (k_sym s r)" by (simp_all add: strip_def)
  show "k_prop s' = k_prop s" by (rule p)
  show "props (k_sym s' r) = props (k_sym s r)" "rev_dep (k_sym s' r) = rev_dep (k_sym s r)" using strip_symD [OF x] by simp_all
  have "f \<in> flags (k_sym s' r) \<longleftrightarrow> f \<in> flags (k_sym s r)" if "f \<notin> check_marks" for f
    using strip_symD(3) [OF x] that by blast
  then show "plain s' r = plain s r" by (simp add: plain_def sym_is_choice_def sym_is_choice_value_def)
qed

lemma strip_deps:
  assumes "strip s' = strip s"
  shows "deps s' r = deps s r"
proof -
  have "prop_deps s' = prop_deps s" unfolding prop_deps_def stripD(1) [OF assms] ..
  then show ?thesis unfolding deps_def stripD(2,3) [OF assms] by simp
qed

lemma strip_rel: "strip s' = strip s \<Longrightarrow> dep_rel s' = dep_rel s"
  using strip_deps [of s' s] by (simp add: dep_rel_def)

text \<open>The number of messages on the error stream, the symbols on the path and those done with.\<close>

definition errors :: "kstate \<Rightarrow> nat" where
  "errors s = length (filter (\<lambda>m. case m of M_stderr _ \<Rightarrow> True | _ \<Rightarrow> False) (k_log s))"

abbreviation "on_path s r \<equiv> has_flag s r SYMBOL_CHECK"

definition finished :: "kstate \<Rightarrow> symref \<Rightarrow> bool" where
  "finished s r \<longleftrightarrow> has_flag s r SYMBOL_CHECKED \<and> \<not> on_path s r"

definition sound :: "kstate \<Rightarrow> bool" where
  "sound s \<longleftrightarrow> (\<forall>q. finished s q \<longrightarrow> q \<in> Wellfounded.acc (dep_rel s))"

lemma mark_simps [simp]:
  "has_flag (dep_stack_insert r s) q f = has_flag s q f" "has_flag (dep_stack_remove s) q f = has_flag s q f"
  "has_flag (upd_top g s) q f = has_flag s q f" "has_flag (add_log m s) q f = has_flag s q f"
  "errors (dep_stack_insert r s) = errors s" "errors (dep_stack_remove s) = errors s" "errors (upd_top g s) = errors s"
  "errors (set_flags r fs s) = errors s" "errors (clear_flags r fs s) = errors s" "errors (dep_error msg s) = Suc (errors s)"
  by (simp_all add: has_flag_def errors_def dep_stack_insert_def dep_stack_remove_def upd_top_def add_log_def
      set_flags_def clear_flags_def dep_error_def upd_sym_def)

text \<open>What a call that reports nothing does.\<close>

definition quiet :: "symref set \<Rightarrow> kstate \<Rightarrow> kstate \<Rightarrow> bool" where
  "quiet A s s' \<longleftrightarrow> (\<forall>q. on_path s' q = on_path s q) \<and> (\<forall>q. has_flag s q SYMBOL_CHECKED \<longrightarrow> has_flag s' q SYMBOL_CHECKED) \<and>
     (\<forall>q \<in> A. finished s' q) \<and> (sound s \<longrightarrow> sound s')"

definition searches :: "symref set \<Rightarrow> kstate \<Rightarrow> symref option \<Rightarrow> kstate \<Rightarrow> bool" where
  "searches A s sm s' \<longleftrightarrow> strip s' = strip s \<and> errors s \<le> errors s' \<and> (errors s' = errors s \<longrightarrow> sm = None \<and> quiet A s s')"





lemma quiet_cong:
  assumes "\<And>q f. has_flag t q f = has_flag s q f" "\<And>q f. has_flag t' q f = has_flag s' q f" "strip t = strip s" "strip t' = strip s'"
  shows "quiet A t t' = quiet A s s'"
  using assms(1,2) strip_rel [OF assms(3)] strip_rel [OF assms(4)] by (simp add: quiet_def sound_def finished_def)

lemma searches_stack [simp]:
  "searches A (dep_stack_insert r s) sm s' = searches A s sm s'" "searches A s sm (dep_stack_remove s') = searches A s sm s'"
  "searches A (upd_top f s) sm s' = searches A s sm s'" "searches A s sm (upd_top f s') = searches A s sm s'"
  using quiet_cong [of "dep_stack_insert r s" s s' s' A] quiet_cong [of s s "dep_stack_remove s'" s' A]
    quiet_cong [of "upd_top f s" s s' s' A] quiet_cong [of s s "upd_top f s'" s' A]
  by (simp_all add: searches_def)


section \<open>The parts of the search\<close>



lemma top_prop [simp]: "k_prop (upd_top f s) = k_prop s"
  by (simp add: upd_top_def)



section \<open>The search\<close>



lemma marks [simp]:
  "has_flag (set_flags r fs s) q f \<longleftrightarrow> has_flag s q f \<or> q = r \<and> f \<in> fs"
  "has_flag (clear_flags r fs s) q f \<longleftrightarrow> has_flag s q f \<and> \<not> (q = r \<and> f \<in> fs)"
  by (auto simp: has_flag_def set_flags_def clear_flags_def)





section \<open>No false reports\<close>

text \<open>\<open>answers chk A S G\<close>: started on a symbol in \<open>A\<close>, with the path \<open>G\<close>, the search returns and reports nothing.\<close>

definition good :: "kstate \<Rightarrow> symref set \<Rightarrow> kstate \<Rightarrow> bool" where
  "good S G t \<longleftrightarrow> strip t = S \<and> (\<forall>q. on_path t q \<longleftrightarrow> q \<in> G)"


lemma good_simps [simp]:
  "good S G (upd_top f t) = good S G t" "good S G (dep_stack_insert r t) = good S G t" "good S G (dep_stack_remove t) = good S G t"
  "good S G (add_log m t) = good S G t"
  by (simp_all add: good_def)

lemma check_log_errors [simp]: "errors (add_log (M_check_expr e) t) = errors t"
  by (simp add: errors_def add_log_def)










section \<open>The property\<close>





end
