(* ===== verification/Kconfig_Util.thy ===== *)
theory Kconfig_Util
  imports Kconfig_Symbol
begin

text \<open>
  \<^verbatim>\<open>util.c\<close>, the growable strings and the list of configuration files, and what
  the configuration programs use of the operating system: the environment, files by name,
  directories and \<open>rename\<close>.  Which files may be written is a parameter of the system, and a
  write error after a file has been opened is not modelled.
\<close>

section \<open>The operating system\<close>

record os =
  os_getenv :: "string \<Rightarrow> string option"
  os_files :: "string \<Rightarrow> string option"
  os_isdir :: "string \<Rightarrow> bool"
  os_writable :: "string \<Rightarrow> bool"
  os_pid :: nat

definition write_file :: "string \<Rightarrow> string \<Rightarrow> os \<Rightarrow> os" where
  "write_file path text w = w\<lparr>os_files := (os_files w)(path := Some text)\<rparr>"

text \<open>\<open>rename(2)\<close>: replaces the target, fails if the source does not exist.\<close>

definition rename_file :: "string \<Rightarrow> string \<Rightarrow> os \<Rightarrow> bool \<times> os" where
  "rename_file a b w = (case os_files w a of
     None \<Rightarrow> (False, w)
   | Some text \<Rightarrow>
       if os_writable w a \<and> os_writable w b
       then (True, w\<lparr>os_files := (os_files w)(a := None, b := Some text)\<rparr>) else (False, w))"

abbreviation PATH_MAX :: nat where "PATH_MAX \<equiv> 4096"

text \<open>A string written to a \<open>char [PATH_MAX + 1]\<close>.\<close>

definition path_buf :: "string \<Rightarrow> string option" where
  "path_buf str = (if length str \<le> PATH_MAX then Some str else None)"

definition strrchr :: "char \<Rightarrow> string \<Rightarrow> (string \<times> string) option" where
  "strrchr c str = (case strchr c (rev str) of
     None \<Rightarrow> None
   | Some (post, pre) \<Rightarrow> Some (rev pre, rev post))"

definition CONFIG_prefix :: "os \<Rightarrow> string" where
  "CONFIG_prefix w = (case os_getenv w ''CONFIG_'' of Some v \<Rightarrow> v | None \<Rightarrow> ''CONFIG_'')"

definition conf_get_configname :: "os \<Rightarrow> string" where
  "conf_get_configname w = (case os_getenv w ''BR2_CONFIG'' of Some v \<Rightarrow> v | None \<Rightarrow> ''.config'')"

definition conf_get_autoconfig_name :: "os \<Rightarrow> string option" where
  "conf_get_autoconfig_name w = os_getenv w ''KCONFIG_AUTOCONFIG''"

text \<open>The directory part of the name of the configuration, up to and with the last slash.\<close>

definition config_dir :: "os \<Rightarrow> string option" where
  "config_dir w = do {
     d \<leftarrow> path_buf (conf_get_configname w);
     Some (case strrchr (CHR ''/'') d of None \<Rightarrow> '''' | Some (pre, _) \<Rightarrow> pre @ ''/'')
   }"

section \<open>Growable strings\<close>

record gstr =
  gs_s :: string
  gs_len :: nat
  gs_max_width :: int

definition str_new :: gstr where
  "str_new = \<lparr>gs_s = '''', gs_len = 64, gs_max_width = 0\<rparr>"

definition str_assign :: "string \<Rightarrow> gstr" where
  "str_assign str = \<lparr>gs_s = str, gs_len = length str + 1, gs_max_width = 0\<rparr>"

text \<open>Appending a null string changes nothing; \<open>strcat\<close> must fit the allocated length.\<close>

definition str_append :: "gstr \<Rightarrow> string option \<Rightarrow> gstr option" where
  "str_append gs str = (case str of
     None \<Rightarrow> Some gs
   | Some t \<Rightarrow>
       let l = length (gs_s gs) + length t + 1;
           len = (if l > gs_len gs then l else gs_len gs)
       in map_option (\<lambda>r. gs\<lparr>gs_s := r, gs_len := len\<rparr>) (buf_cat len (gs_s gs) t))"

text \<open>\<open>vsnprintf\<close> cuts the formatted text to 9999 characters.\<close>

definition str_printf :: "gstr \<Rightarrow> string \<Rightarrow> gstr option" where
  "str_printf gs text = str_append gs (Some (take 9999 text))"

section \<open>Files\<close>

text \<open>\<open>file_list\<close>, the last file first.  The search compares the name before expansion.\<close>

definition file_lookup :: "calc \<Rightarrow> string \<Rightarrow> string list \<times> kstate \<Rightarrow> (string \<times> string list \<times> kstate) option" where
  "file_lookup calc nm = (\<lambda>(files, s). do {
     (file_name, s) \<leftarrow> sym_expand_string_value calc nm s;
     if nm \<in> set files then Some (nm, files, s) else Some (file_name, file_name # files, s)
   })"

fun dep_lines :: "string list \<Rightarrow> string" where
  "dep_lines [] = ''''"
| "dep_lines [f] = [CHR 0x09] @ f @ [CHR 0x0A]"
| "dep_lines (f # fs) = [CHR 0x09] @ f @ '' '' @ [CHR 0x5C] @ [CHR 0x0A] @ dep_lines fs"

definition auto_name :: "os \<Rightarrow> string" where
  "auto_name w = (case conf_get_autoconfig_name w of Some n \<Rightarrow> n | None \<Rightarrow> ''(null)'')"

definition env_rule :: "os \<Rightarrow> kstate \<Rightarrow> symref \<Rightarrow> string option" where
  "env_rule w s r = do {
     p \<leftarrow> sym_get_env_prop s r;
     e \<leftarrow> prop_get_symbol (k_prop s p);
     case e of
       None \<Rightarrow> Some ''''
     | Some env_sym \<Rightarrow> do {
         n \<leftarrow> name (k_sym s env_sym);
         Some (''ifneq '' @ [CHR 0x22] @ ''$('' @ n @ '')'' @ [CHR 0x22] @ '' '' @ [CHR 0x22] @
           (case os_getenv w n of Some v \<Rightarrow> v | None \<Rightarrow> '''') @ [CHR 0x22, CHR 0x0A] @
           auto_name w @ '': FORCE'' @ [CHR 0x0A] @ ''endif'' @ [CHR 0x0A])
       }
   }"

fun env_rules :: "os \<Rightarrow> kstate \<Rightarrow> symref list \<Rightarrow> string option" where
  "env_rules w s [] = Some ''''"
| "env_rules w s (r # rs) = do {
     t \<leftarrow> env_rule w s r;
     ts \<leftarrow> env_rules w s rs;
     Some (t @ ts)
   }"

definition dep_text :: "string list \<Rightarrow> os \<Rightarrow> kstate \<Rightarrow> string option" where
  "dep_text files w s = do {
     envs \<leftarrow> list_syms (k_env_list s);
     rules \<leftarrow> env_rules w s envs;
     Some (''deps_config := '' @ [CHR 0x5C, CHR 0x0A] @ dep_lines files @ [CHR 0x0A] @ auto_name w @ '': '' @
       [CHR 0x5C, CHR 0x0A, CHR 0x09] @ ''$(deps_config)'' @ [CHR 0x0A, CHR 0x0A] @ rules @
       [CHR 0x0A] @ ''$(deps_config): ;'' @ [CHR 0x0A])
   }"

definition file_write_dep :: "string option \<Rightarrow> string list \<Rightarrow> kstate \<Rightarrow> os \<Rightarrow> (nat \<times> os) option" where
  "file_write_dep nm files s w = do {
     let n = (case nm of Some x \<Rightarrow> x | None \<Rightarrow> ''.kconfig.d'');
     dir \<leftarrow> config_dir w;
     buf \<leftarrow> path_buf (dir @ ''..config.tmp'');
     if \<not> os_writable w buf then Some (1, w)
     else do {
       text \<leftarrow> dep_text files w s;
       buf2 \<leftarrow> path_buf (dir @ n);
       Some (0, snd (rename_file buf buf2 (write_file buf text w)))
     }
   }"

end
