(* ===== verification/Kconfig_Conf_Read.thy ===== *)
theory Kconfig_Conf_Read
  imports Kconfig_Util
begin

text \<open>
  Reading configurations, the first half of \<^verbatim>\<open>confdata.c\<close>: the line reader with its growing
  buffer, the parser of a line, \<open>conf_read_simple\<close> and \<open>conf_read\<close>.  The scanner's function
  \<open>zconf_fopen\<close> is the parameter \<open>zfopen\<close>, which gives the contents of a file.  A file of the
  single character \<open>#\<close>, or one that ends with such a line, makes the code compare bytes behind the
  end of the line: \<open>None\<close>.
\<close>

type_synonym zfopen = "string \<Rightarrow> string option"

section \<open>Warnings and loops\<close>

definition conf_warning :: "string \<Rightarrow> kstate \<Rightarrow> kstate" where
  "conf_warning msg s = add_log (M_conf_warning msg) (s\<lparr>k_conf_warnings := Suc (k_conf_warnings s)\<rparr>)"

fun for_syms :: "(symref \<Rightarrow> kstate \<Rightarrow> kstate option) \<Rightarrow> symref list \<Rightarrow> kstate \<Rightarrow> kstate option" where
  "for_syms body [] s = Some s"
| "for_syms body (r # rs) s = do {
     s \<leftarrow> body r s;
     for_syms body rs s
   }"

definition print_name :: "symbol \<Rightarrow> string" where
  "print_name x = (case name x of Some n \<Rightarrow> n | None \<Rightarrow> ''(null)'')"

section \<open>Expansion of names\<close>

text \<open>\<open>conf_expand_value\<close> works in arrays of \<open>SYMBOL_MAXLENGTH\<close> bytes and creates unknown symbols.\<close>

function conf_expand :: "calc \<Rightarrow> string \<Rightarrow> string \<Rightarrow> kstate \<Rightarrow> (string \<times> kstate) option" where
  "conf_expand calc inp res s = (case strchr (CHR ''$'') inp of
     None \<Rightarrow> do {
       res \<leftarrow> buf_cat SYMBOL_MAXLENGTH res inp;
       Some (res, s)
     }
   | Some (pre, src) \<Rightarrow> do {
       res \<leftarrow> buf_cat SYMBOL_MAXLENGTH res pre;
       let nm = takeWhile name_char src;
       if length nm \<ge> SYMBOL_MAXLENGTH then None
       else do {
         let (r, s) = sym_lookup (Some nm) {} s;
         s \<leftarrow> calc r s;
         (symval, s) \<leftarrow> sym_get_string_value calc r s;
         res \<leftarrow> buf_cat SYMBOL_MAXLENGTH res symval;
         conf_expand calc (dropWhile name_char src) res s
       }
     })"
  by pat_completeness auto
termination
  by (relation "measure (\<lambda>(_, inp, _). length inp)") (auto intro: expand_shorter)

declare conf_expand.simps [simp del]

definition conf_expand_value :: "calc \<Rightarrow> string \<Rightarrow> kstate \<Rightarrow> (string \<times> kstate) option" where
  "conf_expand_value calc inp s = conf_expand calc inp [] s"

definition conf_get_default_confname :: "calc \<Rightarrow> os \<Rightarrow> kstate \<Rightarrow> (string \<times> kstate) option" where
  "conf_get_default_confname calc w s = do {
     (nm, s) \<leftarrow> conf_expand_value calc ''.defconfig'' s;
     case os_getenv w ''srctree'' of
       None \<Rightarrow> Some (nm, s)
     | Some env \<Rightarrow> do {
         fullname \<leftarrow> path_buf (env @ ''/'' @ nm);
         Some (if os_files w fullname \<noteq> None \<or> os_isdir w fullname then fullname else nm, s)
       }
   }"

section \<open>Values\<close>

definition set_sdef :: "symref \<Rightarrow> s_def \<Rightarrow> (symbol_value \<Rightarrow> symbol_value) \<Rightarrow> kstate \<Rightarrow> kstate" where
  "set_sdef r d f = upd_sym r (\<lambda>x. x\<lparr>sdef := (sdef x)(d := f (sdef x d))\<rparr>)"

definition store_tri :: "symref \<Rightarrow> s_def \<Rightarrow> tristate \<Rightarrow> kstate \<Rightarrow> kstate" where
  "store_tri r d t s = set_flags r {SYMBOL_DEF d} (set_sdef r d (\<lambda>v. v\<lparr>tri := t\<rparr>) s)"

definition invalid_value :: "symref \<Rightarrow> s_def \<Rightarrow> string \<Rightarrow> kstate \<Rightarrow> kstate" where
  "invalid_value r d p s =
     (if d \<noteq> S_DEF_AUTO
      then conf_warning (''symbol value '' @ [CHR 0x27] @ p @ [CHR 0x27] @ '' invalid for '' @ print_name (k_sym s r)) s
      else s)"

text \<open>The loop over \<open>strpbrk\<close> that removes backslashes up to the closing quote.\<close>

fun unescape :: "string \<Rightarrow> string option" where
  "unescape [] = None"
| "unescape (c # p) =
     (if c = CHR 0x22 then Some []
      else if c = CHR 0x5C then
        (case p of [] \<Rightarrow> None | d # q \<Rightarrow> map_option ((#) d) (unescape q))
      else map_option ((#) c) (unescape p))"

text \<open>The label \<open>done\<close>: the string is stored if it is valid for the type of the symbol.\<close>

definition store_valid :: "symref \<Rightarrow> s_def \<Rightarrow> string \<Rightarrow> kstate \<Rightarrow> bool \<times> kstate" where
  "store_valid r d p s =
     (if sym_string_valid (stype (k_sym s r)) p then
        let (v, s) = alloc_str p s
        in (False, set_flags r {SYMBOL_DEF d} (set_sdef r d (\<lambda>x. x\<lparr>val := v\<rparr>) s))
      else (True, invalid_value r d p s))"

definition set_quoted :: "symref \<Rightarrow> s_def \<Rightarrow> string \<Rightarrow> kstate \<Rightarrow> bool \<times> kstate" where
  "set_quoted r d p s = (case p of
     [] \<Rightarrow> (False, s)
   | c # q \<Rightarrow>
       if c \<noteq> CHR 0x22 then (False, s)
       else case unescape q of
         None \<Rightarrow> (True, if d \<noteq> S_DEF_AUTO then conf_warning ''invalid string found'' s else s)
       | Some str \<Rightarrow> store_valid r d str s)"

definition set_bool :: "symref \<Rightarrow> s_def \<Rightarrow> string \<Rightarrow> kstate \<Rightarrow> bool \<times> kstate" where
  "set_bool r d p s =
     (if p \<noteq> [] \<and> hd p = CHR ''y'' then (False, store_tri r d Yes s)
      else if p \<noteq> [] \<and> hd p = CHR ''n'' then (False, store_tri r d No s)
      else (True, invalid_value r d p s))"

definition conf_set_sym_val :: "symref \<Rightarrow> s_def \<Rightarrow> string \<Rightarrow> kstate \<Rightarrow> bool \<times> kstate" where
  "conf_set_sym_val r d p s = (case stype (k_sym s r) of
     S_TRISTATE \<Rightarrow> if p \<noteq> [] \<and> hd p = CHR ''m'' then (False, store_tri r d Mod s) else set_bool r d p s
   | S_BOOLEAN \<Rightarrow> set_bool r d p s
   | S_OTHER \<Rightarrow>
       if p = [] \<or> hd p \<noteq> CHR 0x22 then store_valid r d p (upd_sym r (\<lambda>x. x\<lparr>stype := S_STRING\<rparr>) s)
       else set_quoted r d p s
   | S_STRING \<Rightarrow> set_quoted r d p s
   | S_INT \<Rightarrow> store_valid r d p s
   | S_HEX \<Rightarrow> store_valid r d p s
   | _ \<Rightarrow> (False, s))"

section \<open>Lines\<close>

abbreviation LINE_GROWTH :: nat where "LINE_GROWTH \<equiv> 16"

text \<open>The line buffer is the list of its allocated bytes; \<open>realloc\<close> does not fail.\<close>

definition add_byte :: "char \<Rightarrow> string \<Rightarrow> nat \<Rightarrow> string option" where
  "add_byte c line slen =
     (let new_size = slen + 1;
          line = (if new_size > length line
            then line @ replicate ((new_size + (LINE_GROWTH - 1)) * 2 - length line) (CHR 0x00) else line)
      in if slen < length line then Some (line[slen := c]) else None)"

fun compat_getline :: "string \<Rightarrow> nat \<Rightarrow> string \<Rightarrow> (nat option \<times> string \<times> string) option" where
  "compat_getline line slen [] = do {
     line \<leftarrow> add_byte (CHR 0x00) line slen;
     Some (if slen = 0 then None else Some slen, line, [])
   }"
| "compat_getline line slen (c # inp) =
     (if c = CHR 0x0A then do {
        line \<leftarrow> add_byte c line slen;
        line \<leftarrow> add_byte (CHR 0x00) line (slen + 1);
        Some (Some (slen + 1), line, inp)
      } else do {
        line \<leftarrow> add_byte c line slen;
        compat_getline line (slen + 1) inp
      })"

definition c_string :: "string \<Rightarrow> string" where
  "c_string line = takeWhile (\<lambda>c. c \<noteq> CHR 0x00) line"

definition starts_with :: "string \<Rightarrow> string \<Rightarrow> bool" where
  "starts_with pre str \<longleftrightarrow> take (length pre) str = pre"

datatype conf_line =
    L_skip
  | L_unset string
  | L_set string string
  | L_bad

text \<open>The text between \<open>=\<close> and the newline, without a carriage return before the newline.\<close>

definition line_value :: "string \<Rightarrow> string" where
  "line_value p = (case strchr (CHR 0x0A) p of
     None \<Rightarrow> p
   | Some (v, _) \<Rightarrow> if v \<noteq> [] \<and> List.last v = CHR 0x0D then butlast v else v)"

definition parse_line :: "string \<Rightarrow> string \<Rightarrow> conf_line option" where
  "parse_line pre line =
     (if line \<noteq> [] \<and> hd line = CHR ''#'' then
        if length line = 1 then None
        else if \<not> starts_with pre (drop 2 line) then Some L_skip
        else case strchr (CHR '' '') (drop (2 + length pre) line) of
          None \<Rightarrow> Some L_skip
        | Some (nm, p) \<Rightarrow> Some (if starts_with ''is not set'' p then L_unset nm else L_skip)
      else if starts_with pre line then
        (case strchr (CHR ''='') (drop (length pre) line) of
           None \<Rightarrow> Some L_skip
         | Some (nm, p) \<Rightarrow> Some (L_set nm (line_value p)))
      else if line \<noteq> [] \<and> (hd line = CHR 0x0D \<or> hd line = CHR 0x0A) then Some L_skip
      else Some L_bad)"

text \<open>The label \<open>setsym\<close>: the state of a choice follows from its values.\<close>

definition set_choice :: "symref \<Rightarrow> s_def \<Rightarrow> kstate \<Rightarrow> kstate option" where
  "set_choice r d s =
     (if sym_is_choice_value (k_sym s r) then do {
        cs \<leftarrow> choice_of s r;
        let s = (case tri (sdef (k_sym s r) d) of
            No \<Rightarrow> s
          | Mod \<Rightarrow>
              if tri (sdef (k_sym s cs) d) = Yes
              then clear_flags cs {SYMBOL_DEF d}
                (conf_warning (print_name (k_sym s r) @ '' creates inconsistent choice state'') s)
              else s
          | Yes \<Rightarrow>
              set_sdef cs d (\<lambda>v. v\<lparr>val := VSym r\<rparr>)
                (if tri (sdef (k_sym s cs) d) \<noteq> No
                 then conf_warning (''override: '' @ print_name (k_sym s r) @ '' changes choice state'') s else s));
        Some (set_sdef cs d (\<lambda>v. v\<lparr>tri := EXPR_OR (tri v) (tri (sdef (k_sym s r) d))\<rparr>) s)
      } else Some s)"

text \<open>
  Finding the symbol of a line: in the user's configuration an unknown name is only counted as
  a change, in another one it becomes a symbol with the type \<open>t\<close>.
\<close>

definition line_symbol :: "s_def \<Rightarrow> symbol_type \<Rightarrow> string \<Rightarrow> kstate \<Rightarrow> symref option \<times> kstate" where
  "line_symbol d t nm s =
     (if d = S_DEF_USER then
        (case sym_find s (Some nm) of
           None \<Rightarrow> (None, sym_add_change_count 1 s)
         | Some r \<Rightarrow> (Some r, s))
      else
        let (r, s) = sym_lookup (Some nm) {} s
        in (Some r, if stype (k_sym s r) = S_UNKNOWN then upd_sym r (\<lambda>x. x\<lparr>stype := t\<rparr>) s else s))"

definition warn_override :: "symref \<Rightarrow> s_def \<Rightarrow> kstate \<Rightarrow> kstate" where
  "warn_override r d s =
     (if SYMBOL_DEF d \<in> flags (k_sym s r)
      then conf_warning (''override: reassigning to symbol '' @ print_name (k_sym s r)) s else s)"

definition read_unset :: "s_def \<Rightarrow> string \<Rightarrow> kstate \<Rightarrow> kstate option" where
  "read_unset d nm s =
     (let (sm, s) = line_symbol d S_BOOLEAN nm s
      in case sm of
           None \<Rightarrow> Some s
         | Some r \<Rightarrow>
             let s = warn_override r d s;
                 s = (if stype (k_sym s r) = S_BOOLEAN \<or> stype (k_sym s r) = S_TRISTATE
                   then store_tri r d No s else s)
             in set_choice r d s)"

definition read_set :: "s_def \<Rightarrow> string \<Rightarrow> string \<Rightarrow> kstate \<Rightarrow> kstate option" where
  "read_set d nm v s =
     (let (sm, s) = line_symbol d S_OTHER nm s
      in case sm of
           None \<Rightarrow> Some s
         | Some r \<Rightarrow>
             let (bad, s) = conf_set_sym_val r d v (warn_override r d s)
             in if bad then Some s else set_choice r d s)"

definition read_line :: "string \<Rightarrow> s_def \<Rightarrow> string \<Rightarrow> kstate \<Rightarrow> kstate option" where
  "read_line pre d line s = do {
     l \<leftarrow> parse_line pre line;
     case l of
       L_skip \<Rightarrow> Some s
     | L_unset nm \<Rightarrow> read_unset d nm s
     | L_set nm v \<Rightarrow> read_set d nm v s
     | L_bad \<Rightarrow> Some (conf_warning ''unexpected data'' s)
   }"

lemma add_byte_None: "add_byte c line slen = Some line' \<Longrightarrow> slen < length line'"
  by (auto simp: add_byte_def Let_def split: if_splits)

lemma getline_shorter:
  "compat_getline line slen inp = Some (Some k, line', rest) \<Longrightarrow> slen = 0 \<Longrightarrow> length rest < length inp"
proof -
  have "compat_getline line slen inp = Some (Some k, line', rest) \<Longrightarrow>
      length rest \<le> length inp \<and> (slen = 0 \<longrightarrow> length rest < length inp)" for slen
  proof (induction inp arbitrary: line slen)
    case Nil
    then show ?case by (auto split: if_splits Option.bind_splits)
  next
    case (Cons c inp)
    then show ?case by (fastforce split: if_splits Option.bind_splits)
  qed
  then show "compat_getline line slen inp = Some (Some k, line', rest) \<Longrightarrow> slen = 0 \<Longrightarrow> length rest < length inp"
    by blast
qed

function read_lines :: "string \<Rightarrow> s_def \<Rightarrow> string \<Rightarrow> string \<Rightarrow> kstate \<Rightarrow> kstate option" where
  "read_lines pre d line inp s = (case compat_getline line 0 inp of
     None \<Rightarrow> None
   | Some (None, _, _) \<Rightarrow> Some s
   | Some (Some _, line, rest) \<Rightarrow> do {
       s \<leftarrow> read_line pre d (c_string line) s;
       read_lines pre d line rest s
     })"
  by pat_completeness auto
termination
  by (relation "measure (\<lambda>(_, _, _, inp, _). length inp)") (auto intro: getline_shorter)

declare read_lines.simps [simp del]

section \<open>Configurations\<close>

definition reset_sym :: "s_def \<Rightarrow> symref \<Rightarrow> kstate \<Rightarrow> kstate" where
  "reset_sym d r s = upd_sym r (\<lambda>x. x\<lparr>flags := (insert SYMBOL_CHANGED (flags x) - {SYMBOL_DEF d, SYMBOL_VALID}) \<union>
     (if sym_is_choice x then {SYMBOL_DEF d} else {}), sdef := (sdef x)(d := null_value)\<rparr>) s"

definition conf_load :: "calc \<Rightarrow> os \<Rightarrow> string \<Rightarrow> s_def \<Rightarrow> kstate \<Rightarrow> (nat \<times> kstate) option" where
  "conf_load calc w text d s = do {
     let s = s\<lparr>k_conf_warnings := 0, k_conf_unsaved := 0\<rparr>;
     let s = fold (reset_sym d) (all_syms s) s;
     s \<leftarrow> read_lines (CONFIG_prefix w) d [] text s;
     s \<leftarrow> calc_opt calc (k_modules_sym s) s;
     Some (0, s)
   }"

text \<open>The first file of \<open>sym_defconfig_list\<close> that can be opened.\<close>

fun find_defconfig :: "zfopen \<Rightarrow> calc \<Rightarrow> nat list \<Rightarrow> kstate \<Rightarrow> ((string \<times> string) option \<times> kstate) option" where
  "find_defconfig zfopen calc [] s = Some (None, s)"
| "find_defconfig zfopen calc (p # ps) s = do {
     (v, s) \<leftarrow> expr_calc_value calc (ev_expr (p_visible (k_prop s p))) s;
     if v = No then find_defconfig zfopen calc ps s
     else do {
       e \<leftarrow> p_expr (k_prop s p);
       case e of
         E_SYMBOL r \<Rightarrow> do {
           n \<leftarrow> name (k_sym s r);
           (nm, s) \<leftarrow> conf_expand_value calc n s;
           (case zfopen nm of
              Some text \<Rightarrow> Some (Some (nm, text), s)
            | None \<Rightarrow> find_defconfig zfopen calc ps s)
         }
       | _ \<Rightarrow> find_defconfig zfopen calc ps s
     }
   }"

definition conf_read_simple :: "zfopen \<Rightarrow> calc \<Rightarrow> os \<Rightarrow> string option \<Rightarrow> s_def \<Rightarrow> kstate \<Rightarrow> (nat \<times> kstate) option" where
  "conf_read_simple zfopen calc w nm d s = (case nm of
     Some n \<Rightarrow> (case zfopen n of
       Some text \<Rightarrow> conf_load calc w text d s
     | None \<Rightarrow> Some (1, s))
   | None \<Rightarrow> (case zfopen (conf_get_configname w) of
       Some text \<Rightarrow> conf_load calc w text d s
     | None \<Rightarrow>
         let s = sym_add_change_count 1 s
         in case k_defconfig_list s of
              None \<Rightarrow> map_option (Pair 1) (calc_opt calc (k_modules_sym s) s)
            | Some r \<Rightarrow> do {
                (f, s) \<leftarrow> find_defconfig zfopen calc (props_of s r P_DEFAULT) s;
                case f of
                  None \<Rightarrow> Some (1, s)
                | Some (n, text) \<Rightarrow> conf_load calc w text d (add_log (M_message (''using defaults found in '' @ n)) s)
              }))"

text \<open>The first loop of \<open>conf_read\<close>: does the calculated value of the symbol agree with the saved one?\<close>

definition agrees :: "kstate \<Rightarrow> symref \<Rightarrow> bool option" where
  "agrees s r = (let x = k_sym s r
   in if sym_has_value x \<and> SYMBOL_WRITE \<in> flags x then
        if stype x = S_BOOLEAN \<or> stype x = S_TRISTATE
        then Some (tri (sdef x S_DEF_USER) = sym_get_tristate_value x)
        else do {
          a \<leftarrow> cstr (val (curr x));
          b \<leftarrow> cstr (val (sdef x S_DEF_USER));
          Some (a = b)
        }
      else Some (\<not> sym_has_value x \<and> SYMBOL_WRITE \<notin> flags x))"

definition count_unsaved :: "calc \<Rightarrow> symref \<Rightarrow> kstate \<Rightarrow> kstate option" where
  "count_unsaved calc r s = do {
     s \<leftarrow> calc r s;
     if sym_is_choice (k_sym s r) \<or> has_flag s r SYMBOL_AUTO then Some s
     else do {
       ok \<leftarrow> agrees s r;
       Some (if ok then s else s\<lparr>k_conf_unsaved := Suc (k_conf_unsaved s)\<rparr>)
     }
   }"

definition reset_value :: "calc \<Rightarrow> symref \<Rightarrow> kstate \<Rightarrow> kstate option" where
  "reset_value calc r s =
     (if sym_has_value (k_sym s r) \<and> \<not> sym_is_choice_value (k_sym s r) then do {
        let s = (if visible (k_sym s r) = No \<and> k_conf_unsaved s = 0
          then clear_flags r {SYMBOL_DEF S_DEF_USER} s else s);
        if stype (k_sym s r) = S_STRING \<or> stype (k_sym s r) = S_INT \<or> stype (k_sym s r) = S_HEX then do {
          str \<leftarrow> cstr (val (sdef (k_sym s r) S_DEF_USER));
          (ok, s) \<leftarrow> sym_string_within_range calc r str s;
          Some (if ok then s
            else (clear_flags r {SYMBOL_VALID, SYMBOL_DEF S_DEF_USER} s)\<lparr>k_conf_unsaved := Suc (k_conf_unsaved s)\<rparr>)
        } else Some s
      } else Some s)"

definition conf_read :: "zfopen \<Rightarrow> calc \<Rightarrow> os \<Rightarrow> string option \<Rightarrow> kstate \<Rightarrow> (nat \<times> kstate) option" where
  "conf_read zfopen calc w nm s = do {
     (res, s) \<leftarrow> conf_read_simple zfopen calc w nm S_DEF_USER (sym_set_change_count 0 s);
     if res \<noteq> 0 then Some (1, s)
     else do {
       s \<leftarrow> for_syms (count_unsaved calc) (all_syms s) s;
       s \<leftarrow> for_syms (reset_value calc) (all_syms s) s;
       Some (0, sym_add_change_count (if k_conf_warnings s \<noteq> 0 \<or> k_conf_unsaved s \<noteq> 0 then 1 else 0) s)
     }
   }"

end
