(* ===== verification/Kconfig_Menu.thy ===== *)
theory Kconfig_Menu
  imports Kconfig_Symbol
begin

text \<open>
  The menu tree of \<^verbatim>\<open>menu.c\<close>: building it while the configuration files are parsed,
  finalising it, and asking for visibility.  Menus are indices, \<open>rootmenu\<close> is the index 0, and
  \<open>last_entry_ptr\<close> is the slot it points to.  Expressions are values here: the code copies a
  dependency before it rewrites it in place, and the trees that it shares (\<open>parent->dep\<close> in
  \<open>dir_dep\<close> and \<open>prompt->visible.expr\<close> in \<open>rev_dep\<close>) are not rewritten afterwards.  File names and
  line numbers are left out of the messages.  Loops along \<open>next\<close> and \<open>parent\<close> pointers take
  fuel, which \<open>loop_fuel\<close> provides, more than there are menus.
\<close>

section \<open>Loops\<close>

abbreviation rootmenu :: nat where "rootmenu \<equiv> 0"

definition loop_fuel :: "kstate \<Rightarrow> nat" where
  "loop_fuel s = Suc (k_nmenu s)"

text \<open>\<open>for (; menu; menu = menu->next)\<close> with a body that may change the links.\<close>

fun for_menus :: "nat \<Rightarrow> (nat \<Rightarrow> kstate \<Rightarrow> kstate option) \<Rightarrow> nat option \<Rightarrow> kstate \<Rightarrow> kstate option" where
  "for_menus 0 body m s = None"
| "for_menus (Suc n) body None s = Some s"
| "for_menus (Suc n) body (Some m) s = do {
     s \<leftarrow> body m s;
     for_menus n body (m_next (k_menu s m)) s
   }"

fun siblings :: "nat \<Rightarrow> kstate \<Rightarrow> nat option \<Rightarrow> nat list option" where
  "siblings 0 s m = None"
| "siblings (Suc n) s None = Some []"
| "siblings (Suc n) s (Some m) = map_option ((#) m) (siblings n s (m_next (k_menu s m)))"

fun for_props :: "(nat \<Rightarrow> kstate \<Rightarrow> kstate option) \<Rightarrow> nat list \<Rightarrow> kstate \<Rightarrow> kstate option" where
  "for_props body [] s = Some s"
| "for_props body (p # ps) s = do {
     s \<leftarrow> body p s;
     for_props body ps s
   }"

section \<open>Building the tree\<close>

definition menu_init :: "kstate \<Rightarrow> kstate" where
  "menu_init s = s\<lparr>k_current_entry := rootmenu, k_current_menu := rootmenu, k_last_entry := Slot_list rootmenu\<rparr>"

definition new_menu :: "symref option \<Rightarrow> nat option \<Rightarrow> menu" where
  "new_menu r parent = \<lparr>m_next = None, m_parent = parent, m_list = None, m_sym = r, m_prompt = None,
     m_visibility = None, m_dep = None, m_flags = {}, m_help = None\<rparr>"

definition write_slot :: "menu_slot \<Rightarrow> nat option \<Rightarrow> kstate \<Rightarrow> kstate" where
  "write_slot l v = (case l of
     Slot_next m \<Rightarrow> upd_menu m (\<lambda>x. x\<lparr>m_next := v\<rparr>)
   | Slot_list m \<Rightarrow> upd_menu m (\<lambda>x. x\<lparr>m_list := v\<rparr>))"

text \<open>
  \<open>menu_check_dep\<close>; the symbol node for a null \<open>modules_sym\<close> has no counterpart, hence \<open>None\<close>.
\<close>

fun check_dep :: "symref option \<Rightarrow> expr \<Rightarrow> expr option" where
  "check_dep ms (E_NOT e) = map_option E_NOT (check_dep ms e)"
| "check_dep ms (E_OR l r) = do {
     l \<leftarrow> check_dep ms l;
     r \<leftarrow> check_dep ms r;
     Some (E_OR l r)
   }"
| "check_dep ms (E_AND l r) = do {
     l \<leftarrow> check_dep ms l;
     r \<leftarrow> check_dep ms r;
     Some (E_AND l r)
   }"
| "check_dep ms (E_SYMBOL r) =
     (if r = Symbol_mod then map_option (\<lambda>m. E_AND (E_SYMBOL r) (E_SYMBOL m)) ms else Some (E_SYMBOL r))"
| "check_dep ms e = Some e"

definition menu_check_dep :: "kstate \<Rightarrow> expr option \<Rightarrow> expr option option" where
  "menu_check_dep s e = (case e of
     None \<Rightarrow> Some None
   | Some e' \<Rightarrow> map_option Some (check_dep (k_modules_sym s) e'))"

definition menu_add_dep :: "expr option \<Rightarrow> kstate \<Rightarrow> kstate option" where
  "menu_add_dep dep s = do {
     d \<leftarrow> menu_check_dep s dep;
     Some (upd_menu (k_current_entry s) (\<lambda>x. x\<lparr>m_dep := expr_alloc_and (m_dep x) d\<rparr>) s)
   }"

definition shown_name :: "symbol \<Rightarrow> string" where
  "shown_name x = (case name x of Some n \<Rightarrow> n | None \<Rightarrow> ''<choice>'')"

definition set_stype :: "symref \<Rightarrow> symbol_type \<Rightarrow> kstate \<Rightarrow> kstate" where
  "set_stype r t = upd_sym r (\<lambda>x. x\<lparr>stype := t\<rparr>)"

definition menu_set_type :: "symbol_type \<Rightarrow> kstate \<Rightarrow> kstate option" where
  "menu_set_type t s = do {
     r \<leftarrow> m_sym (k_menu s (k_current_entry s));
     let x = k_sym s r;
     Some (if stype x = t then s
           else if stype x = S_UNKNOWN then set_stype r t s
           else add_log (M_menu_warn (k_current_entry s) (''ignoring type redefinition of '' @ [CHR 0x27] @ shown_name x @
             [CHR 0x27] @ '' from '' @ [CHR 0x27] @ sym_type_name (stype x) @ [CHR 0x27] @ '' to '' @ [CHR 0x27] @
             sym_type_name t @ [CHR 0x27])) s)
   }"

text \<open>The loop over the parents: a prompt is visible only if all menus around it are.\<close>

fun upper_visibility :: "nat \<Rightarrow> kstate \<Rightarrow> nat option \<Rightarrow> expr option \<Rightarrow> expr option option" where
  "upper_visibility 0 s m e = None"
| "upper_visibility (Suc n) s None e = Some e"
| "upper_visibility (Suc n) s (Some m) e =
     upper_visibility n s (m_parent (k_menu s m))
       (case m_visibility (k_menu s m) of
          None \<Rightarrow> e
        | Some v \<Rightarrow> expr_alloc_and e (expr_copy v))"

definition set_visible_expr :: "nat \<Rightarrow> expr option \<Rightarrow> kstate \<Rightarrow> kstate" where
  "set_visible_expr p e = upd_prop p (\<lambda>x. x\<lparr>p_visible := (p_visible x)\<lparr>ev_expr := e\<rparr>\<rparr>)"

definition set_prompt :: "nat \<Rightarrow> prop_type \<Rightarrow> string \<Rightarrow> kstate \<Rightarrow> kstate option" where
  "set_prompt p t text s = do {
     let cur = k_current_entry s;
     let s = (if text \<noteq> [] \<and> isspace (hd text) then add_log (M_prop_warn p ''leading whitespace ignored'') s else s);
     let s = (if m_prompt (k_menu s cur) \<noteq> None \<and> cur \<noteq> rootmenu then add_log (M_prop_warn p ''prompt redefined'') s else s);
     s \<leftarrow> (if t = P_PROMPT then do {
            e \<leftarrow> upper_visibility (loop_fuel s) s (m_parent (k_menu s cur)) (ev_expr (p_visible (k_prop s p)));
            Some (set_visible_expr p e s)
          } else Some s);
     let s = upd_menu cur (\<lambda>x. x\<lparr>m_prompt := Some p\<rparr>) s;
     Some (upd_prop p (\<lambda>x. x\<lparr>p_text := Some (dropWhile isspace text)\<rparr>) s)
   }"

definition menu_add_prop ::
    "prop_type \<Rightarrow> string option \<Rightarrow> expr option \<Rightarrow> expr option \<Rightarrow> kstate \<Rightarrow> (nat \<times> kstate) option" where
  "menu_add_prop t prompt e dep s = do {
     let cur = k_current_entry s;
     let (p, s) = prop_alloc t (m_sym (k_menu s cur)) s;
     d \<leftarrow> menu_check_dep s dep;
     let s = upd_prop p (\<lambda>x. x\<lparr>p_menu := Some cur, p_expr := e, p_visible := (p_visible x)\<lparr>ev_expr := d\<rparr>\<rparr>) s;
     s \<leftarrow> (case prompt of None \<Rightarrow> Some s | Some text \<Rightarrow> set_prompt p t text s);
     Some (p, s)
   }"

definition menu_add_prompt :: "prop_type \<Rightarrow> string \<Rightarrow> expr option \<Rightarrow> kstate \<Rightarrow> (nat \<times> kstate) option" where
  "menu_add_prompt t prompt dep s = menu_add_prop t (Some prompt) None dep s"

definition menu_add_visibility :: "expr option \<Rightarrow> kstate \<Rightarrow> kstate" where
  "menu_add_visibility e s =
     upd_menu (k_current_entry s) (\<lambda>x. x\<lparr>m_visibility := expr_alloc_and (m_visibility x) e\<rparr>) s"

definition menu_add_expr :: "prop_type \<Rightarrow> expr option \<Rightarrow> expr option \<Rightarrow> kstate \<Rightarrow> kstate option" where
  "menu_add_expr t e dep s = map_option snd (menu_add_prop t None e dep s)"

definition menu_add_symbol :: "prop_type \<Rightarrow> symref \<Rightarrow> expr option \<Rightarrow> kstate \<Rightarrow> kstate option" where
  "menu_add_symbol t r dep s = map_option snd (menu_add_prop t None (Some (expr_alloc_symbol r)) dep s)"

definition menu_add_entry :: "symref option \<Rightarrow> kstate \<Rightarrow> kstate option" where
  "menu_add_entry r s =
     (let m = k_nmenu s;
          s = s\<lparr>k_nmenu := Suc m, k_menu := (k_menu s)(m := new_menu r (Some (k_current_menu s)))\<rparr>;
          s = write_slot (k_last_entry s) (Some m) s;
          s = s\<lparr>k_last_entry := Slot_next m, k_current_entry := m\<rparr>
      in case r of None \<Rightarrow> Some s | Some q \<Rightarrow> menu_add_symbol P_SYMBOL q None s)"

definition menu_add_menu :: "kstate \<Rightarrow> kstate" where
  "menu_add_menu s = s\<lparr>k_last_entry := Slot_list (k_current_entry s), k_current_menu := k_current_entry s\<rparr>"

definition menu_end_menu :: "kstate \<Rightarrow> kstate option" where
  "menu_end_menu s = do {
     p \<leftarrow> m_parent (k_menu s (k_current_menu s));
     Some (s\<lparr>k_last_entry := Slot_next (k_current_menu s), k_current_menu := p\<rparr>)
   }"

datatype opt_token = T_OPT_MODULES | T_OPT_DEFCONFIG_LIST | T_OPT_ENV

definition printed_name :: "symbol \<Rightarrow> string" where
  "printed_name x = (case name x of Some n \<Rightarrow> n | None \<Rightarrow> ''(null)'')"

definition menu_add_option :: "(string \<Rightarrow> string option) \<Rightarrow> opt_token \<Rightarrow> string \<Rightarrow> kstate \<Rightarrow> kstate option" where
  "menu_add_option getenv token arg s = (case token of
     T_OPT_MODULES \<Rightarrow> do {
       s \<leftarrow> (case k_modules_sym s of
              None \<Rightarrow> Some s
            | Some m \<Rightarrow> do {
                r \<leftarrow> m_sym (k_menu s (k_current_entry s));
                Some (add_log (M_zconf_error (''symbol '' @ [CHR 0x27] @ printed_name (k_sym s r) @ [CHR 0x27] @
                  '' redefines option '' @ [CHR 0x27] @ ''modules'' @ [CHR 0x27] @ '' already defined by symbol '' @
                  [CHR 0x27] @ printed_name (k_sym s m) @ [CHR 0x27])) s)
              });
       Some (s\<lparr>k_modules_sym := m_sym (k_menu s (k_current_entry s))\<rparr>)
     }
   | T_OPT_DEFCONFIG_LIST \<Rightarrow>
       Some (if k_defconfig_list s = None then s\<lparr>k_defconfig_list := m_sym (k_menu s (k_current_entry s))\<rparr>
             else if k_defconfig_list s \<noteq> m_sym (k_menu s (k_current_entry s))
             then add_log (M_zconf_error ''trying to redefine defconfig symbol'') s else s)
   | T_OPT_ENV \<Rightarrow> prop_add_env getenv arg s)"

section \<open>Checking properties\<close>

definition menu_validate_number :: "kstate \<Rightarrow> symref \<Rightarrow> symref \<Rightarrow> bool option" where
  "menu_validate_number s r r2 =
     (if stype (k_sym s r2) = S_INT \<or> stype (k_sym s r2) = S_HEX then Some True
      else if stype (k_sym s r2) = S_UNKNOWN
      then map_option (sym_string_valid (stype (k_sym s r))) (name (k_sym s r2))
      else Some False)"

definition quoted :: "string \<Rightarrow> string" where
  "quoted str = [CHR 0x27] @ str @ [CHR 0x27]"

definition check_default :: "symref \<Rightarrow> nat \<Rightarrow> kstate \<Rightarrow> kstate option" where
  "check_default r p s = do {
     e \<leftarrow> p_expr (k_prop s p);
     let t = stype (k_sym s r);
     let s = (if (t = S_STRING \<or> t = S_INT \<or> t = S_HEX) \<and> etype e \<noteq> T_SYMBOL
       then add_log (M_prop_warn p (''default for config symbol '' @ quoted (printed_name (k_sym s r)) @
         '' must be a single symbol'')) s else s);
     case e of
       E_SYMBOL r2 \<Rightarrow>
         if t = S_HEX \<or> t = S_INT then do {
           ok \<leftarrow> menu_validate_number s r r2;
           Some (if ok then s else add_log (M_prop_warn p (quoted (printed_name (k_sym s r)) @ '': number is invalid'')) s)
         } else Some s
     | _ \<Rightarrow> Some s
   }"

definition check_select :: "symref \<Rightarrow> nat \<Rightarrow> kstate \<Rightarrow> kstate option" where
  "check_select r p s = do {
     d \<leftarrow> prop_get_symbol (k_prop s p);
     if stype (k_sym s r) \<noteq> S_BOOLEAN \<and> stype (k_sym s r) \<noteq> S_TRISTATE then
       Some (add_log (M_prop_warn p (''config symbol '' @ quoted (printed_name (k_sym s r)) @
         '' uses select, but is not boolean or tristate'')) s)
     else do {
       r2 \<leftarrow> d;
       let t2 = stype (k_sym s r2);
       Some (if t2 \<noteq> S_UNKNOWN \<and> t2 \<noteq> S_BOOLEAN \<and> t2 \<noteq> S_TRISTATE
         then add_log (M_prop_warn p (quoted (printed_name (k_sym s r2)) @ '' has wrong type. '' @ quoted ''select'' @
           '' only accept arguments of boolean and tristate type'')) s
         else s)
     }
   }"

definition check_range :: "symref \<Rightarrow> nat \<Rightarrow> kstate \<Rightarrow> kstate option" where
  "check_range r p s = do {
     let t = stype (k_sym s r);
     let s = (if t \<noteq> S_INT \<and> t \<noteq> S_HEX
       then add_log (M_prop_warn p ''range is only allowed for int or hex symbols'') s else s);
     (lo, hi) \<leftarrow> range_syms (k_prop s p);
     ok1 \<leftarrow> menu_validate_number s r lo;
     ok \<leftarrow> (if ok1 then menu_validate_number s r hi else Some False);
     Some (if ok then s else add_log (M_prop_warn p ''range is invalid'') s)
   }"

definition check_prop :: "symref \<Rightarrow> nat \<Rightarrow> kstate \<Rightarrow> kstate option" where
  "check_prop r p s = (case p_type (k_prop s p) of
     P_DEFAULT \<Rightarrow> check_default r p s
   | P_SELECT \<Rightarrow> check_select r p s
   | P_RANGE \<Rightarrow> check_range r p s
   | _ \<Rightarrow> Some s)"

definition sym_check_prop :: "symref \<Rightarrow> kstate \<Rightarrow> kstate option" where
  "sym_check_prop r s = for_props (check_prop r) (props (k_sym s r)) s"

section \<open>Finalising the tree\<close>

definition copy_opt :: "expr option \<Rightarrow> expr option" where
  "copy_opt e = Option.bind e expr_copy"

definition transform_opt :: "symtab \<Rightarrow> expr option \<Rightarrow> expr option" where
  "transform_opt sy e = map_option (expr_transform sy) e"

definition set_entry :: "nat \<Rightarrow> kstate \<Rightarrow> kstate" where
  "set_entry m s = s\<lparr>k_current_entry := m\<rparr>"

text \<open>The type of a choice is the one of its first typed value; untyped values get the type of the choice.\<close>

definition choice_types :: "symref \<Rightarrow> nat \<Rightarrow> kstate \<Rightarrow> kstate option" where
  "choice_types r parent s = do {
     ms \<leftarrow> siblings (loop_fuel s) s (m_list (k_menu s parent));
     s \<leftarrow> (if stype (k_sym s r) = S_UNKNOWN then
            let s = set_entry parent s;
                typed = (\<lambda>m. case m_sym (k_menu s m) of None \<Rightarrow> None
                  | Some q \<Rightarrow> if stype (k_sym s q) \<noteq> S_UNKNOWN then Some (stype (k_sym s q)) else None)
            in case List.map_filter typed ms of
                 [] \<Rightarrow> Some s
               | t # _ \<Rightarrow> menu_set_type t s
          else Some s);
     for_menus (loop_fuel s) (\<lambda>m s.
       let s = set_entry m s
       in case m_sym (k_menu s m) of
            None \<Rightarrow> Some s
          | Some q \<Rightarrow> if stype (k_sym s q) = S_UNKNOWN then menu_set_type (stype (k_sym s r)) s else Some s)
       (m_list (k_menu s parent)) s
   }"

definition reduce_dep :: "symtab \<Rightarrow> expr option \<Rightarrow> expr option \<Rightarrow> expr option" where
  "reduce_dep sy base dep = expr_eliminate_dups sy (expr_alloc_and (copy_opt base) (transform_opt sy dep))"

definition add_rev_dep :: "symref \<Rightarrow> expr option \<Rightarrow> kstate \<Rightarrow> kstate" where
  "add_rev_dep r e = upd_sym r (\<lambda>x. x\<lparr>rev_dep := (rev_dep x)\<lparr>ev_expr := expr_alloc_or (ev_expr (rev_dep x)) e\<rparr>\<rparr>)"

definition finalize_prop :: "nat \<Rightarrow> expr option \<Rightarrow> nat \<Rightarrow> kstate \<Rightarrow> kstate option" where
  "finalize_prop m basedep p s =
     (if p_menu (k_prop s p) \<noteq> Some m then Some s
      else do {
        let dep = reduce_dep (k_sym s) basedep (ev_expr (p_visible (k_prop s p)));
        let dep = (case m_sym (k_menu s m) of
            None \<Rightarrow> dep
          | Some q \<Rightarrow> if stype (k_sym s q) \<noteq> S_TRISTATE then map_option (expr_trans_bool (k_sym s)) dep else dep);
        let s = set_visible_expr p dep s;
        if p_type (k_prop s p) = P_SELECT then do {
          d \<leftarrow> prop_get_symbol (k_prop s p);
          es \<leftarrow> d;
          q \<leftarrow> m_sym (k_menu s m);
          Some (add_rev_dep es (expr_alloc_and (Some (expr_alloc_symbol q)) (copy_opt dep)) s)
        } else Some s
      })"

definition menu_props :: "kstate \<Rightarrow> nat \<Rightarrow> nat list" where
  "menu_props s m = (case m_sym (k_menu s m) of
     Some q \<Rightarrow> props (k_sym s q)
   | None \<Rightarrow> (case m_prompt (k_menu s m) of None \<Rightarrow> [] | Some p \<Rightarrow> [p]))"

definition finalize_deps :: "expr option \<Rightarrow> nat \<Rightarrow> kstate \<Rightarrow> kstate option" where
  "finalize_deps parentdep m s = do {
     let basedep = reduce_dep (k_sym s) parentdep (m_dep (k_menu s m));
     let s = upd_menu m (\<lambda>x. x\<lparr>m_dep := basedep\<rparr>) s;
     for_props (finalize_prop m basedep) (menu_props s m) s
   }"

definition menu_visible_expr :: "kstate \<Rightarrow> nat \<Rightarrow> expr option" where
  "menu_visible_expr s m = (case m_prompt (k_menu s m) of
     Some p \<Rightarrow> ev_expr (p_visible (k_prop s p))
   | None \<Rightarrow> m_dep (k_menu s m))"

definition finalize_list :: "(nat \<Rightarrow> kstate \<Rightarrow> kstate option) \<Rightarrow> nat \<Rightarrow> kstate \<Rightarrow> kstate option" where
  "finalize_list fin parent s = do {
     (parentdep, s) \<leftarrow> (case m_sym (k_menu s parent) of
         Some r \<Rightarrow>
           if sym_is_choice (k_sym s r) then do {
             s \<leftarrow> choice_types r parent s;
             Some (Some (expr_alloc_symbol r), s)
           } else Some (menu_visible_expr s parent, s)
       | None \<Rightarrow> Some (menu_visible_expr s parent, s));
     s \<leftarrow> for_menus (loop_fuel s) (finalize_deps parentdep) (m_list (k_menu s parent)) s;
     for_menus (loop_fuel s) fin (m_list (k_menu s parent)) s
   }"

definition compare_no :: "symtab \<Rightarrow> expr option \<Rightarrow> expr option" where
  "compare_no sy e = expr_eliminate_dups sy (transform_opt sy (expr_trans_compare e T_UNEQUAL Symbol_no))"

text \<open>Whether the entry belongs below the symbol: its dependency mentions and implies the one of the symbol.\<close>

definition is_submenu :: "kstate \<Rightarrow> symref \<Rightarrow> expr option \<Rightarrow> nat \<Rightarrow> bool" where
  "is_submenu s r basedep m =
     (let dep = menu_visible_expr s m
      in expr_contains_symbol dep r \<and>
         (expr_depends_symbol dep r \<or>
          (let (_, dep2) = expr_eliminate_eq (compare_no (k_sym s) dep) (copy_opt basedep) in expr_is_yes dep2)))"

fun submenu_loop :: "nat \<Rightarrow> (nat \<Rightarrow> kstate \<Rightarrow> kstate option) \<Rightarrow> symref \<Rightarrow> expr option \<Rightarrow> nat \<Rightarrow>
    nat option \<Rightarrow> nat option \<Rightarrow> kstate \<Rightarrow> (nat option \<times> kstate) option" where
  "submenu_loop 0 fin r basedep parent cur lst s = None"
| "submenu_loop (Suc n) fin r basedep parent None lst s = Some (lst, s)"
| "submenu_loop (Suc n) fin r basedep parent (Some m) lst s =
     (if is_submenu s r basedep m then do {
        s \<leftarrow> fin m s;
        let s = upd_menu m (\<lambda>x. x\<lparr>m_parent := Some parent\<rparr>) s;
        submenu_loop n fin r basedep parent (m_next (k_menu s m)) (Some m) s
      } else Some (lst, s))"

definition adopt_submenus :: "nat \<Rightarrow> nat option \<Rightarrow> kstate \<Rightarrow> kstate" where
  "adopt_submenus parent lst s = (case lst of
     None \<Rightarrow> s
   | Some l \<Rightarrow>
       let s = upd_menu parent (\<lambda>x. x\<lparr>m_list := m_next x\<rparr>) s;
           s = upd_menu parent (\<lambda>x. x\<lparr>m_next := m_next (k_menu s l)\<rparr>) s
       in upd_menu l (\<lambda>x. x\<lparr>m_next := None\<rparr>) s)"

definition finalize_leaf :: "(nat \<Rightarrow> kstate \<Rightarrow> kstate option) \<Rightarrow> nat \<Rightarrow> symref \<Rightarrow> kstate \<Rightarrow> kstate option" where
  "finalize_leaf fin parent r s = do {
     let basedep = (case m_prompt (k_menu s parent) of
         None \<Rightarrow> None
       | Some p \<Rightarrow> ev_expr (p_visible (k_prop s p)));
     let basedep = compare_no (k_sym s) basedep;
     (lst, s) \<leftarrow> submenu_loop (loop_fuel s) fin r basedep parent (m_next (k_menu s parent)) None s;
     let s = adopt_submenus parent lst s;
     Some (upd_sym r (\<lambda>x. x\<lparr>dir_dep := (dir_dep x)\<lparr>ev_expr :=
       expr_alloc_or (ev_expr (dir_dep x)) (m_dep (k_menu s parent))\<rparr>\<rparr>) s)
   }"

text \<open>Appending to the list of a choice; in another kind of node \<open>left\<close> is not a list.\<close>

fun append_list :: "expr option \<Rightarrow> symref \<Rightarrow> expr option" where
  "append_list None r = Some (E_LIST None r)"
| "append_list (Some (E_LIST l q)) r = map_option (\<lambda>l'. E_LIST (Some l') q) (append_list l r)"
| "append_list (Some _) r = None"

definition value_prop_warn :: "symref \<Rightarrow> nat \<Rightarrow> nat \<Rightarrow> kstate \<Rightarrow> kstate option" where
  "value_prop_warn r m p s =
     (let s = (if p_type (k_prop s p) = P_DEFAULT
        then add_log (M_prop_warn p ''defaults for choice values not supported'') s else s)
      in if p_menu (k_prop s p) = Some m \<or> p_type (k_prop s p) \<noteq> P_PROMPT then Some s
         else do {
           pm \<leftarrow> p_menu (k_prop s p);
           up \<leftarrow> m_parent (k_menu s pm);
           Some (if m_sym (k_menu s up) \<noteq> Some r
             then add_log (M_prop_warn p ''choice value used outside its choice group'') s else s)
         })"

definition depend_on_yes :: "symref \<Rightarrow> nat \<Rightarrow> symref \<Rightarrow> kstate \<Rightarrow> kstate option" where
  "depend_on_yes r m q s =
     (if stype (k_sym s r) = S_TRISTATE \<and> stype (k_sym s q) \<noteq> S_TRISTATE then
        let basedep = Some (expr_alloc_comp T_EQUAL r Symbol_yes);
            s = upd_menu m (\<lambda>x. x\<lparr>m_dep := expr_alloc_and basedep (m_dep x)\<rparr>) s
        in for_props (\<lambda>p s. Some (if p_menu (k_prop s p) \<noteq> Some m then s
             else set_visible_expr p (expr_alloc_and (copy_opt basedep) (ev_expr (p_visible (k_prop s p)))) s))
             (props (k_sym s q)) s
      else Some s)"

definition add_choice_value :: "symref \<Rightarrow> nat \<Rightarrow> symref \<Rightarrow> kstate \<Rightarrow> kstate option" where
  "add_choice_value r m q s = do {
     let s = set_flags q {SYMBOL_CHOICEVAL} (set_entry m s);
     let s = (if m_prompt (k_menu s m) = None then add_log (M_menu_warn m ''choice value must have a prompt'') s else s);
     s \<leftarrow> for_props (value_prop_warn r m) (props (k_sym s q)) s;
     s \<leftarrow> depend_on_yes r m q s;
     s \<leftarrow> menu_add_symbol P_CHOICE r None s;
     p \<leftarrow> sym_get_choice_prop s r;
     l \<leftarrow> append_list (p_expr (k_prop s p)) q;
     Some (upd_prop p (\<lambda>x. x\<lparr>p_expr := Some l\<rparr>) s)
   }"

text \<open>An entry without a prompt gives its children to its parent.\<close>

fun last_sibling :: "nat \<Rightarrow> nat \<Rightarrow> nat \<Rightarrow> kstate \<Rightarrow> (nat \<times> kstate) option" where
  "last_sibling 0 parent m s = None"
| "last_sibling (Suc n) parent m s =
     (let s = upd_menu m (\<lambda>x. x\<lparr>m_parent := Some parent\<rparr>) s
      in case m_next (k_menu s m) of
           None \<Rightarrow> Some (m, s)
         | Some k \<Rightarrow> last_sibling n parent k s)"

definition no_prompt_text :: "kstate \<Rightarrow> nat \<Rightarrow> bool" where
  "no_prompt_text s m = (case m_prompt (k_menu s m) of
     None \<Rightarrow> True
   | Some p \<Rightarrow> p_text (k_prop s p) = None)"

definition flatten_menu :: "nat \<Rightarrow> nat \<Rightarrow> kstate \<Rightarrow> kstate option" where
  "flatten_menu parent m s = (case m_list (k_menu s m) of
     None \<Rightarrow> Some s
   | Some c \<Rightarrow>
       if no_prompt_text s m then do {
         (l, s) \<leftarrow> last_sibling (loop_fuel s) parent c s;
         let s = upd_menu l (\<lambda>x. x\<lparr>m_next := m_next (k_menu s m)\<rparr>) s;
         Some (upd_menu m (\<lambda>x. x\<lparr>m_next := m_list x, m_list := None\<rparr>) s)
       } else Some s)"

definition finalize_child :: "nat \<Rightarrow> nat \<Rightarrow> kstate \<Rightarrow> kstate option" where
  "finalize_child parent m s = do {
     s \<leftarrow> (case (m_sym (k_menu s parent), m_sym (k_menu s m)) of
         (Some r, Some q) \<Rightarrow>
           if sym_is_choice (k_sym s r) \<and> \<not> sym_is_choice_value (k_sym s q) then add_choice_value r m q s else Some s
       | _ \<Rightarrow> Some s);
     flatten_menu parent m s
   }"

definition warn_symbol :: "nat \<Rightarrow> symref \<Rightarrow> kstate \<Rightarrow> kstate option" where
  "warn_symbol parent r s =
     (if has_flag s r SYMBOL_WARNED then Some s
      else do {
        let s = (if stype (k_sym s r) = S_UNKNOWN
          then add_log (M_menu_warn parent ''config symbol defined without type'') s else s);
        let s = (if sym_is_choice (k_sym s r) \<and> m_prompt (k_menu s parent) = None
          then add_log (M_menu_warn parent ''choice must have a prompt'') s else s);
        s \<leftarrow> sym_check_prop r s;
        Some (set_flags r {SYMBOL_WARNED} s)
      })"

definition prompt_rev_dep :: "nat \<Rightarrow> symref \<Rightarrow> kstate \<Rightarrow> kstate" where
  "prompt_rev_dep parent r s = (case m_prompt (k_menu s parent) of
     None \<Rightarrow> s
   | Some p \<Rightarrow>
       if sym_is_optional (k_sym s r) then s
       else add_rev_dep r (expr_alloc_and (ev_expr (p_visible (k_prop s p))) (Some (expr_alloc_symbol Symbol_mod))) s)"

fun menu_finalize :: "nat \<Rightarrow> nat \<Rightarrow> kstate \<Rightarrow> kstate option" where
  "menu_finalize 0 parent s = None"
| "menu_finalize (Suc n) parent s = do {
     let r = m_sym (k_menu s parent);
     s \<leftarrow> (if m_list (k_menu s parent) \<noteq> None then finalize_list (menu_finalize n) parent s
          else case r of
            None \<Rightarrow> Some s
          | Some q \<Rightarrow> finalize_leaf (menu_finalize n) parent q s);
     s \<leftarrow> for_menus (loop_fuel s) (finalize_child parent) (m_list (k_menu s parent)) s;
     case r of
       None \<Rightarrow> Some s
     | Some q \<Rightarrow> do {
         s \<leftarrow> warn_symbol parent q s;
         Some (prompt_rev_dep parent q s)
       }
   }"

section \<open>Queries\<close>

definition menu_has_prompt :: "kstate \<Rightarrow> nat \<Rightarrow> bool" where
  "menu_has_prompt s m \<longleftrightarrow> m_prompt (k_menu s m) \<noteq> None"

text \<open>The loop that asks each child with \<open>vis\<close>, the recursive call, until one is visible.\<close>

fun any_child :: "nat \<Rightarrow> (nat \<Rightarrow> kstate \<Rightarrow> (bool \<times> kstate) option) \<Rightarrow> nat option \<Rightarrow> kstate \<Rightarrow> (bool \<times> kstate) option" where
  "any_child 0 vis m s = None"
| "any_child (Suc n) vis None s = Some (False, s)"
| "any_child (Suc n) vis (Some m) s = do {
     (v, s) \<leftarrow> vis m s;
     if v then Some (True, s) else any_child n vis (m_next (k_menu s m)) s
   }"

definition menu_own_visible :: "calc \<Rightarrow> nat \<Rightarrow> nat \<Rightarrow> kstate \<Rightarrow> (tristate \<times> kstate) option" where
  "menu_own_visible calc m p s = (case m_sym (k_menu s m) of
     Some r \<Rightarrow> do {
       s \<leftarrow> calc r s;
       Some (ev_tri (p_visible (k_prop s p)), s)
     }
   | None \<Rightarrow> prop_calc_visible calc p s)"

fun menu_is_visible :: "nat \<Rightarrow> calc \<Rightarrow> nat \<Rightarrow> kstate \<Rightarrow> (bool \<times> kstate) option" where
  "menu_is_visible 0 calc m s = None"
| "menu_is_visible (Suc n) calc m s = (case m_prompt (k_menu s m) of
     None \<Rightarrow> Some (False, s)
   | Some p \<Rightarrow> do {
       (v, s) \<leftarrow> (case m_visibility (k_menu s m) of
           None \<Rightarrow> Some (Yes, s)
         | Some e \<Rightarrow> calc_expr calc e s);
       if v = No then Some (False, s)
       else do {
         (v, s) \<leftarrow> menu_own_visible calc m p s;
         if v \<noteq> No then Some (True, s)
         else case m_sym (k_menu s m) of
           None \<Rightarrow> Some (False, s)
         | Some r \<Rightarrow>
             if sym_get_tristate_value (k_sym s r) = No then Some (False, s)
             else do {
               (v, s) \<leftarrow> any_child (loop_fuel s) (menu_is_visible n calc) (m_list (k_menu s m)) s;
               Some (v, if v then set_flags r {SYMBOL_DEF S_DEF_USER} s else s)
             }
       }
     })"

definition menu_is_empty :: "nat \<Rightarrow> calc \<Rightarrow> nat \<Rightarrow> kstate \<Rightarrow> (bool \<times> kstate) option" where
  "menu_is_empty n calc m s = do {
     (v, s) \<leftarrow> any_child (loop_fuel s) (menu_is_visible n calc) (m_list (k_menu s m)) s;
     Some (\<not> v, s)
   }"

definition menu_get_prompt :: "kstate \<Rightarrow> nat \<Rightarrow> string option" where
  "menu_get_prompt s m = (case m_prompt (k_menu s m) of
     Some p \<Rightarrow> p_text (k_prop s p)
   | None \<Rightarrow> (case m_sym (k_menu s m) of Some r \<Rightarrow> name (k_sym s r) | None \<Rightarrow> None))"

definition menu_get_root_menu :: "nat \<Rightarrow> nat" where
  "menu_get_root_menu m = rootmenu"

fun menu_get_parent_menu :: "nat \<Rightarrow> kstate \<Rightarrow> nat \<Rightarrow> nat option" where
  "menu_get_parent_menu 0 s m = None"
| "menu_get_parent_menu (Suc n) s m =
     (if m = rootmenu then Some m
      else if (case m_prompt (k_menu s m) of Some p \<Rightarrow> p_type (k_prop s p) = P_MENU | None \<Rightarrow> False) then Some m
      else Option.bind (m_parent (k_menu s m)) (menu_get_parent_menu n s))"

definition menu_has_help :: "kstate \<Rightarrow> nat \<Rightarrow> bool" where
  "menu_has_help s m \<longleftrightarrow> m_help (k_menu s m) \<noteq> None"

definition menu_get_help :: "kstate \<Rightarrow> nat \<Rightarrow> string" where
  "menu_get_help s m = (case m_help (k_menu s m) of Some h \<Rightarrow> h | None \<Rightarrow> '''')"

end
