(* ===== verification/Kconfig_Conf_Write.thy ===== *)
theory Kconfig_Conf_Write
  imports Kconfig_Conf_Read Kconfig_Menu
begin

text \<open>
  Writing configurations, the second half of \<^verbatim>\<open>confdata.c\<close>: the printers, the walk over the
  menu tree that \<open>conf_write\<close> and \<open>conf_write_defconfig\<close> share, the files for the build and the
  modes that give values to new symbols.  A printer returns the text it writes.
\<close>

section \<open>Printers\<close>

definition newline :: string where "newline = [CHR 0x0A]"

type_synonym print_symbol = "symbol \<Rightarrow> string \<Rightarrow> string"

definition kconfig_print_symbol :: "string \<Rightarrow> bool \<Rightarrow> print_symbol" where
  "kconfig_print_symbol pre skip_unset x value =
     (if (stype x = S_BOOLEAN \<or> stype x = S_TRISTATE) \<and> value \<noteq> [] \<and> hd value = CHR ''n'' then
        if skip_unset then '''' else ''# '' @ pre @ print_name x @ '' is not set'' @ newline
      else pre @ print_name x @ ''='' @ value @ newline)"

function comment_lines :: "string \<Rightarrow> string \<Rightarrow> string" where
  "comment_lines lead value =
     (let l = takeWhile (\<lambda>c. c \<noteq> CHR 0x0A) value;
          text = lead @ (if l \<noteq> [] then '' '' @ l else '''') @ newline
      in case dropWhile (\<lambda>c. c \<noteq> CHR 0x0A) value of
           [] \<Rightarrow> text
         | _ # p \<Rightarrow> text @ comment_lines lead p)"
  by pat_completeness auto
termination
  by (relation "measure (\<lambda>(_, p). length p)") (auto intro: drop_shorter)

declare comment_lines.simps [simp del]

definition kconfig_print_comment :: "string \<Rightarrow> string" where
  "kconfig_print_comment value = comment_lines ''#'' value"

definition header_print_symbol :: "string \<Rightarrow> print_symbol" where
  "header_print_symbol pre x value =
     (let define = (\<lambda>suffix text. ''#define '' @ pre @ print_name x @ suffix @ '' '' @ text @ newline)
      in case stype x of
           S_BOOLEAN \<Rightarrow> if value \<noteq> [] \<and> hd value = CHR ''n'' then ''''
             else define (if value \<noteq> [] \<and> hd value = CHR ''m'' then ''_MODULE'' else '''') ''1''
         | S_TRISTATE \<Rightarrow> if value \<noteq> [] \<and> hd value = CHR ''n'' then ''''
             else define (if value \<noteq> [] \<and> hd value = CHR ''m'' then ''_MODULE'' else '''') ''1''
         | S_HEX \<Rightarrow> define '''' ((if has_0x value then '''' else ''0x'') @ value)
         | S_STRING \<Rightarrow> define '''' value
         | S_INT \<Rightarrow> define '''' value
         | _ \<Rightarrow> '''')"

definition header_print_comment :: "string \<Rightarrow> string" where
  "header_print_comment value = ''/*'' @ newline @ comment_lines '' *'' value @ '' */'' @ newline"

definition toupper :: "char \<Rightarrow> char" where
  "toupper c = (if islower c then char_of (ccode c - 32) else c)"

definition tolower :: "char \<Rightarrow> char" where
  "tolower c = (if isupper c then char_of (ccode c + 32) else c)"

text \<open>\<open>%c\<close> of a terminating zero writes a zero byte.\<close>

definition tristate_print_symbol :: "string \<Rightarrow> print_symbol" where
  "tristate_print_symbol pre x value =
     (let c = (case value of [] \<Rightarrow> CHR 0x00 | c # _ \<Rightarrow> c)
      in if stype x = S_TRISTATE \<and> c \<noteq> CHR ''n'' then pre @ print_name x @ ''='' @ [toupper c] @ newline else '''')"

definition conf_write_symbol :: "calc \<Rightarrow> print_symbol \<Rightarrow> symref \<Rightarrow> kstate \<Rightarrow> (string \<times> kstate) option" where
  "conf_write_symbol calc print r s = (case stype (k_sym s r) of
     S_OTHER \<Rightarrow> Some ('''', s)
   | S_UNKNOWN \<Rightarrow> Some ('''', s)
   | S_STRING \<Rightarrow> do {
       (str, s) \<leftarrow> sym_get_string_value calc r s;
       esc \<leftarrow> sym_escape_string_value str;
       Some (print (k_sym s r) esc, s)
     }
   | _ \<Rightarrow> do {
       (str, s) \<leftarrow> sym_get_string_value calc r s;
       Some (print (k_sym s r) str, s)
     })"

definition conf_write_heading :: "(string \<Rightarrow> string) \<Rightarrow> kstate \<Rightarrow> string option" where
  "conf_write_heading print_comment s = do {
     p \<leftarrow> m_prompt (k_menu s rootmenu);
     text \<leftarrow> p_text (k_prop s p);
     Some (print_comment (take 255 (newline @ ''Automatically generated file; DO NOT EDIT.'' @ newline @ text @ newline)))
   }"

section \<open>The walk over the menus\<close>

fun menu_climb :: "nat \<Rightarrow> kstate \<Rightarrow> nat \<Rightarrow> nat option option" where
  "menu_climb 0 s m = None"
| "menu_climb (Suc n) s m = (case m_parent (k_menu s m) of
     None \<Rightarrow> Some None
   | Some p \<Rightarrow> (case m_next (k_menu s p) of
       Some q \<Rightarrow> Some (Some q)
     | None \<Rightarrow> menu_climb n s p))"

definition menu_after :: "kstate \<Rightarrow> nat \<Rightarrow> nat option option" where
  "menu_after s m = (case m_list (k_menu s m) of
     Some c \<Rightarrow> Some (Some c)
   | None \<Rightarrow> (case m_next (k_menu s m) of
       Some q \<Rightarrow> Some (Some q)
     | None \<Rightarrow> menu_climb (loop_fuel s) s m))"

type_synonym menu_printer = "nat \<Rightarrow> kstate \<Rightarrow> (string \<times> kstate) option"

fun walk_menus :: "nat \<Rightarrow> menu_printer \<Rightarrow> nat option \<Rightarrow> kstate \<Rightarrow> (string \<times> kstate) option" where
  "walk_menus 0 body m s = None"
| "walk_menus (Suc n) body None s = Some ('''', s)"
| "walk_menus (Suc n) body (Some m) s = do {
     (t, s) \<leftarrow> body m s;
     nxt \<leftarrow> menu_after s m;
     (ts, s) \<leftarrow> walk_menus n body nxt s;
     Some (t @ ts, s)
   }"

definition write_menu :: "calc \<Rightarrow> string \<Rightarrow> menu_printer" where
  "write_menu calc pre m s = (case m_sym (k_menu s m) of
     None \<Rightarrow> do {
       (v, s) \<leftarrow> menu_is_visible (loop_fuel s) calc m s;
       if v then do {
         str \<leftarrow> menu_get_prompt s m;
         Some (newline @ ''#'' @ newline @ ''# '' @ str @ newline @ ''#'' @ newline, s)
       } else Some ('''', s)
     }
   | Some r \<Rightarrow>
       if sym_is_choice (k_sym s r) then Some ('''', s)
       else do {
         s \<leftarrow> calc r s;
         if has_flag s r SYMBOL_WRITE
         then conf_write_symbol calc (kconfig_print_symbol pre False) r (clear_flags r {SYMBOL_WRITE} s)
         else Some ('''', s)
       })"

text \<open>
  \<open>conf_write_defconfig\<close> leaves out symbols the user cannot change and those that have the
  value they would get by default.
\<close>

definition is_default :: "calc \<Rightarrow> symref \<Rightarrow> kstate \<Rightarrow> (bool \<times> kstate) option" where
  "is_default calc r s = do {
     (str, s) \<leftarrow> sym_get_string_value calc r s;
     (d, s) \<leftarrow> sym_get_string_default calc r s;
     dstr \<leftarrow> cstr d;
     Some (str = dstr, s)
   }"

definition is_choice_default :: "calc \<Rightarrow> symref \<Rightarrow> kstate \<Rightarrow> (bool \<times> kstate) option" where
  "is_choice_default calc r s =
     (if sym_is_choice_value (k_sym s r) then do {
        cs \<leftarrow> choice_of s r;
        (ds, s) \<leftarrow> sym_choice_default calc cs s;
        Some (\<not> sym_is_optional (k_sym s cs) \<and> ds = Some r \<and> stype (k_sym s r) = S_BOOLEAN \<and>
          sym_get_tristate_value (k_sym s r) = Yes, s)
      } else Some (False, s))"

definition write_defconfig_menu :: "calc \<Rightarrow> string \<Rightarrow> menu_printer" where
  "write_defconfig_menu calc pre m s = (case m_sym (k_menu s m) of
     None \<Rightarrow> do {
       (_, s) \<leftarrow> menu_is_visible (loop_fuel s) calc m s;
       Some ('''', s)
     }
   | Some r \<Rightarrow>
       if sym_is_choice (k_sym s r) then Some ('''', s)
       else do {
         s \<leftarrow> calc r s;
         if \<not> has_flag s r SYMBOL_WRITE then Some ('''', s)
         else do {
           let s = clear_flags r {SYMBOL_WRITE} s;
           if \<not> sym_is_changable (k_sym s r) then Some ('''', s)
           else do {
             (same, s) \<leftarrow> is_default calc r s;
             if same then Some ('''', s)
             else do {
               (same, s) \<leftarrow> is_choice_default calc r s;
               if same then Some ('''', s)
               else conf_write_symbol calc (kconfig_print_symbol pre False) r s
             }
           }
         }
       })"

definition conf_write_defconfig :: "calc \<Rightarrow> string \<Rightarrow> kstate \<Rightarrow> os \<Rightarrow> (nat \<times> kstate \<times> os) option" where
  "conf_write_defconfig calc filename s w =
     (if \<not> os_writable w filename then Some (1, s, w)
      else do {
        s \<leftarrow> sym_clear_all_valid calc s;
        (text, s) \<leftarrow> walk_menus (loop_fuel s) (write_defconfig_menu calc (CONFIG_prefix w)) (m_list (k_menu s rootmenu)) s;
        Some (0, s, write_file filename text w)
      })"

section \<open>Writing the configuration\<close>

text \<open>The directory and the base name of the file, from the argument of \<open>conf_write\<close>.\<close>

definition split_name :: "os \<Rightarrow> string option \<Rightarrow> (string \<times> string) option" where
  "split_name w nm =
     (let n = (case nm of Some x \<Rightarrow> x | None \<Rightarrow> conf_get_configname w)
      in if n = [] then Some ('''', conf_get_configname w)
         else if os_isdir w n then do {
           d \<leftarrow> path_buf (n @ ''/'');
           Some (d, conf_get_configname w)
         } else case strrchr (CHR ''/'') n of
           Some (pre, post) \<Rightarrow> do {
             d \<leftarrow> path_buf (pre @ ''/'');
             Some (d, if post \<noteq> [] then post else conf_get_configname w)
           }
         | None \<Rightarrow> Some ('''', n))"

definition conf_text :: "calc \<Rightarrow> os \<Rightarrow> kstate \<Rightarrow> (string \<times> kstate) option" where
  "conf_text calc w s = do {
     head \<leftarrow> conf_write_heading kconfig_print_comment s;
     s \<leftarrow> (if conf_get_changed s then Some s else sym_clear_all_valid calc s);
     (body, s) \<leftarrow> walk_menus (loop_fuel s) (write_menu calc (CONFIG_prefix w)) (m_list (k_menu s rootmenu)) s;
     Some (head @ body, s)
   }"

text \<open>With a temporary file the old configuration is kept with the suffix \<open>.old\<close>.\<close>

definition install_config :: "string \<Rightarrow> string \<Rightarrow> string \<Rightarrow> os \<Rightarrow> bool \<times> os" where
  "install_config tmpname newname oldname w =
     (if tmpname = [] then (True, w) else rename_file tmpname newname (snd (rename_file newname oldname w)))"

definition conf_write :: "calc \<Rightarrow> string option \<Rightarrow> kstate \<Rightarrow> os \<Rightarrow> (nat \<times> kstate \<times> os) option" where
  "conf_write calc nm s w = do {
     (dirname, basename) \<leftarrow> split_name w nm;
     newname \<leftarrow> path_buf (dirname @ basename);
     tmpname \<leftarrow> (case os_getenv w ''KCONFIG_OVERWRITECONFIG'' of
         Some (_ # _) \<Rightarrow> Some ''''
       | _ \<Rightarrow> path_buf (dirname @ ''.tmpconfig.'' @ fmt_lld (int (os_pid w))));
     let outname = (if tmpname = [] then newname else tmpname);
     if \<not> os_writable w outname then Some (1, s, w)
     else do {
       (text, s) \<leftarrow> conf_text calc w s;
       let w = write_file outname text w;
       oldname \<leftarrow> (if tmpname = [] then Some '''' else path_buf (dirname @ basename @ ''.old''));
       let (ok, w) = install_config tmpname newname oldname w;
       if ok then Some (0, sym_set_change_count 0 (add_log (M_message (''configuration written to '' @ newname)) s), w)
       else Some (1, s, w)
     }
   }"

section \<open>Files for the build\<close>

text \<open>
  \<open>conf_split_config\<close>: a symbol's header is touched when its value differs from the one in the
  old \<open>auto.conf\<close>.
\<close>

definition must_touch :: "calc \<Rightarrow> symref \<Rightarrow> kstate \<Rightarrow> (bool \<times> kstate) option" where
  "must_touch calc r s = do {
     s \<leftarrow> calc r s;
     let x = k_sym s r;
     let logical = (stype x = S_BOOLEAN \<or> stype x = S_TRISTATE);
     if SYMBOL_AUTO \<in> flags x \<or> name x = None then Some (False, s)
     else if SYMBOL_WRITE \<in> flags x then
       if SYMBOL_DEF S_DEF_AUTO \<in> flags x then
         if logical then Some (sym_get_tristate_value x \<noteq> tri (sdef x S_DEF_AUTO), s)
         else if stype x = S_STRING \<or> stype x = S_HEX \<or> stype x = S_INT then do {
           (str, s) \<leftarrow> sym_get_string_value calc r s;
           old \<leftarrow> cstr (val (sdef x S_DEF_AUTO));
           Some (str \<noteq> old, s)
         } else Some (True, s)
       else Some (\<not> (logical \<and> sym_get_tristate_value x = No), s)
     else Some (SYMBOL_DEF S_DEF_AUTO \<in> flags x, s)
   }"

definition header_path :: "string \<Rightarrow> string option" where
  "header_path nm = path_buf (map (\<lambda>c. if tolower c = CHR ''_'' then CHR ''/'' else tolower c) nm @ ''.h'')"

text \<open>The directories above a path, outermost first.\<close>

definition path_dirs :: "string \<Rightarrow> string list" where
  "path_dirs path = map (\<lambda>i. take i path) (filter (\<lambda>i. path ! i = CHR ''/'') [0..<length path])"

definition at_dir :: "string \<Rightarrow> string \<Rightarrow> string" where
  "at_dir dir path = (if path = [] \<or> hd path = CHR ''/'' then path else dir @ ''/'' @ path)"

definition parent_exists :: "os \<Rightarrow> string \<Rightarrow> string \<Rightarrow> bool" where
  "parent_exists w dir path \<longleftrightarrow> (case strrchr (CHR ''/'') path of
     None \<Rightarrow> True
   | Some (d, _) \<Rightarrow> os_isdir w (at_dir dir d))"

fun make_dirs :: "string \<Rightarrow> string list \<Rightarrow> os \<Rightarrow> bool \<times> os" where
  "make_dirs dir [] w = (True, w)"
| "make_dirs dir (d # ds) w =
     (let p = at_dir dir d
      in if os_isdir w p \<or> os_files w p \<noteq> None then make_dirs dir ds w
         else if os_writable w p then make_dirs dir ds (w\<lparr>os_isdir := (os_isdir w)(p := True)\<rparr>) else (False, w))"

text \<open>
  \<open>open\<close> with \<open>O_CREAT\<close>, and once more after making the directories if it fails with \<open>ENOENT\<close>; a
  file in the place of a directory is another error.
\<close>

definition touch_header :: "string \<Rightarrow> string \<Rightarrow> os \<Rightarrow> bool \<times> os" where
  "touch_header dir path w =
     (let p = at_dir dir path
      in if parent_exists w dir path then
           if os_writable w p then (True, write_file p '''' w) else (False, w)
         else if list_ex (\<lambda>d. os_files w (at_dir dir d) \<noteq> None) (path_dirs path) then (False, w)
         else
           let (ok, w) = make_dirs dir (path_dirs path) w
           in if ok \<and> parent_exists w dir path \<and> os_writable w p then (True, write_file p '''' w) else (False, w))"

fun touch_headers :: "calc \<Rightarrow> string \<Rightarrow> symref list \<Rightarrow> kstate \<Rightarrow> os \<Rightarrow> (nat \<times> kstate \<times> os) option" where
  "touch_headers calc dir [] s w = Some (0, s, w)"
| "touch_headers calc dir (r # rs) s w = do {
     (t, s) \<leftarrow> must_touch calc r s;
     if t then do {
       n \<leftarrow> name (k_sym s r);
       path \<leftarrow> header_path n;
       let (ok, w) = touch_header dir path w;
       if ok then touch_headers calc dir rs s w else Some (1, s, w)
     } else touch_headers calc dir rs s w
   }"

text \<open>\<open>dirname(3)\<close> of the name of \<open>auto.conf\<close>.\<close>

definition dir_part :: "string \<Rightarrow> string" where
  "dir_part n = (case strrchr (CHR ''/'') n of None \<Rightarrow> ''.'' | Some (d, _) \<Rightarrow> if d = [] then ''/'' else d)"

definition conf_split_config :: "zfopen \<Rightarrow> calc \<Rightarrow> kstate \<Rightarrow> os \<Rightarrow> (nat \<times> kstate \<times> os) option" where
  "conf_split_config zfopen calc s w = do {
     (_, s) \<leftarrow> conf_read_simple zfopen calc w (conf_get_autoconfig_name w) S_DEF_AUTO s;
     n \<leftarrow> conf_get_autoconfig_name w;
     if os_isdir w (dir_part n) then touch_headers calc (dir_part n) (all_syms s) s w else Some (1, s, w)
   }"

fun autoconf_texts :: "calc \<Rightarrow> string \<Rightarrow> symref list \<Rightarrow> kstate \<Rightarrow> (string \<times> string \<times> string \<times> kstate) option" where
  "autoconf_texts calc pre [] s = Some ('''', '''', '''', s)"
| "autoconf_texts calc pre (r # rs) s = do {
     s \<leftarrow> calc r s;
     (a, b, c, s) \<leftarrow>
       (if has_flag s r SYMBOL_WRITE \<and> name (k_sym s r) \<noteq> None then do {
          (a, s) \<leftarrow> conf_write_symbol calc (kconfig_print_symbol pre True) r s;
          (b, s) \<leftarrow> conf_write_symbol calc (tristate_print_symbol pre) r s;
          (c, s) \<leftarrow> conf_write_symbol calc (header_print_symbol pre) r s;
          Some (a, b, c, s)
        } else Some ('''', '''', '''', s));
     (as, bs, cs, s) \<leftarrow> autoconf_texts calc pre rs s;
     Some (a @ as, b @ bs, c @ cs, s)
   }"

definition env_or :: "os \<Rightarrow> string \<Rightarrow> string \<Rightarrow> string" where
  "env_or w v d = (case os_getenv w v of Some x \<Rightarrow> x | None \<Rightarrow> d)"

text \<open>The three renames at the end; \<open>auto.conf\<close> comes last, as the mark of success.\<close>

definition install_autoconf :: "string \<Rightarrow> os \<Rightarrow> (nat \<times> os) option" where
  "install_autoconf dir w =
     (let (ok, w) = rename_file (dir @ ''.tmpconfig.h'') (env_or w ''KCONFIG_AUTOHEADER'' ''include/generated/autoconf.h'') w
      in if \<not> ok then Some (1, w)
         else
           let (ok, w) = rename_file (dir @ ''.tmpconfig_tristate'')
                 (env_or w ''KCONFIG_TRISTATE'' ''include/config/tristate.conf'') w
           in if \<not> ok then Some (1, w)
              else do {
                n \<leftarrow> conf_get_autoconfig_name w;
                let (ok, w) = rename_file (dir @ ''.tmpconfig'') n w;
                Some (if ok then 0 else 1, w)
              })"

text \<open>Writing the three temporary files and installing them.\<close>

definition write_autoconf_files :: "calc \<Rightarrow> string \<Rightarrow> kstate \<Rightarrow> os \<Rightarrow> (nat \<times> kstate \<times> os) option" where
  "write_autoconf_files calc dir s w = do {
     out \<leftarrow> path_buf (dir @ ''.tmpconfig'');
     if \<not> os_writable w out then Some (1, s, w)
     else do {
       tristate \<leftarrow> path_buf (dir @ ''.tmpconfig_tristate'');
       let w = write_file out '''' w;
       if \<not> os_writable w tristate then Some (1, s, w)
       else do {
         out_h \<leftarrow> path_buf (dir @ ''.tmpconfig.h'');
         let w = write_file tristate '''' w;
         if \<not> os_writable w out_h then Some (1, s, w)
         else do {
           h1 \<leftarrow> conf_write_heading kconfig_print_comment s;
           h2 \<leftarrow> conf_write_heading header_print_comment s;
           (a, b, c, s) \<leftarrow> autoconf_texts calc (CONFIG_prefix w) (all_syms s) s;
           let w = write_file out_h (h2 @ c) (write_file tristate (h1 @ b) (write_file out (h1 @ a) w));
           (res, w) \<leftarrow> install_autoconf dir w;
           Some (res, s, w)
         }
       }
     }
   }"

definition conf_write_autoconf ::
    "zfopen \<Rightarrow> calc \<Rightarrow> string list \<Rightarrow> kstate \<Rightarrow> os \<Rightarrow> (nat \<times> kstate \<times> os) option" where
  "conf_write_autoconf zfopen calc files s w = do {
     dir \<leftarrow> config_dir w;
     s \<leftarrow> sym_clear_all_valid calc s;
     cmd \<leftarrow> path_buf (dir @ ''.config.cmd'');
     (_, w) \<leftarrow> file_write_dep (Some cmd) files s w;
     (res, s, w) \<leftarrow> conf_split_config zfopen calc s w;
     if res \<noteq> 0 then Some (1, s, w) else write_autoconf_files calc dir s w
   }"

section \<open>Values for new symbols\<close>

datatype conf_def_mode = def_default | def_yes | def_mod | def_no | def_random

text \<open>\<open>rand\<close> is a stream of numbers with the number of calls so far.\<close>

type_synonym rand = "nat \<Rightarrow> nat"

text \<open>\<open>strtol\<close> in base 10 with the position where it stops; a conversion without digits stops where it started.\<close>

definition strtol_end :: "string \<Rightarrow> int \<times> string" where
  "strtol_end str =
     (let (neg, t) = sign_split (dropWhile isspace str); ds = takeWhile isdigit t
      in if ds = [] then (0, str) else (strtoll 10 str, dropWhile isdigit t))"

definition as_int32 :: "int \<Rightarrow> int" where
  "as_int32 v = (v + 2 ^ 31) mod 2 ^ 32 - 2 ^ 31"

definition atoi :: "string \<Rightarrow> int" where
  "atoi str = as_int32 (strtoll 10 str)"

text \<open>
  The loop over \<open>KCONFIG_PROBABILITY\<close>, which stops after three numbers; \<open>None\<close> is \<open>exit(1)\<close> for a
  number that is not a percentage.
\<close>

fun probs :: "nat \<Rightarrow> string \<Rightarrow> int list option" where
  "probs 0 env = Some []"
| "probs (Suc n) env =
     (if env = [] then Some []
      else
        let (v, endp) = strtol_end env; tmp = as_int32 v
        in if 0 \<le> tmp \<and> tmp \<le> 100
           then map_option ((#) tmp) (probs n (case endp of c # t \<Rightarrow> if c = CHR '':'' then t else endp | [] \<Rightarrow> endp))
           else None)"

definition probabilities :: "string option \<Rightarrow> (int \<times> int \<times> int) option" where
  "probabilities env = do {
     p \<leftarrow> (case env of None \<Rightarrow> Some [] | Some e \<Rightarrow> probs 3 e);
     let (pby, pty, ptm) = (case p of
         [a] \<Rightarrow> (a, a - a div 2, a div 2)
       | [a, b] \<Rightarrow> (a + b, a, b)
       | [a, b, c] \<Rightarrow> (a, b, c)
       | _ \<Rightarrow> (50, 33, 33));
     if pty + ptm > 100 then None else Some (pby, pty, ptm)
   }"

definition random_tri :: "int \<times> int \<times> int \<Rightarrow> symbol_type \<Rightarrow> nat \<Rightarrow> tristate" where
  "random_tri = (\<lambda>(pby, pty, ptm) t n.
     let cnt = int (n mod 100)
     in if t = S_TRISTATE then if cnt < pty then Yes else if cnt < pty + ptm then Mod else No
        else if cnt < pby then Yes else No)"

definition new_value :: "conf_def_mode \<Rightarrow> int \<times> int \<times> int \<Rightarrow> rand \<Rightarrow> symbol_type \<Rightarrow> nat \<Rightarrow> (tristate \<times> nat) option" where
  "new_value mode ps rnd t k = (case mode of
     def_yes \<Rightarrow> Some (Yes, k)
   | def_mod \<Rightarrow> Some (Mod, k)
   | def_no \<Rightarrow> Some (No, k)
   | def_random \<Rightarrow> Some (random_tri ps t (rnd k), Suc k)
   | def_default \<Rightarrow> None)"

definition set_new_symbol ::
    "conf_def_mode \<Rightarrow> int \<times> int \<times> int \<Rightarrow> rand \<Rightarrow> symref \<Rightarrow> bool \<times> nat \<times> kstate \<Rightarrow> bool \<times> nat \<times> kstate" where
  "set_new_symbol mode ps rnd r = (\<lambda>(changed, k, s).
     if sym_has_value (k_sym s r) \<or> has_flag s r SYMBOL_VALID then (changed, k, s)
     else if sym_get_type s r = S_BOOLEAN \<or> sym_get_type s r = S_TRISTATE then
       (case new_value mode ps rnd (stype (k_sym s r)) k of
          None \<Rightarrow> (True, k, s)
        | Some (t, k) \<Rightarrow>
            let s = set_def_tri r t s
            in (True, k, if sym_is_choice (k_sym s r) \<and> mode = def_random then s
                 else set_flags r {SYMBOL_DEF S_DEF_USER} s))
     else (changed, k, s))"

text \<open>One value of the choice becomes \<open>y\<close>, the others \<open>n\<close>; \<open>rand() % 0\<close> for an empty choice is undefined.\<close>

fun set_members :: "nat \<Rightarrow> symref \<Rightarrow> symref list \<Rightarrow> nat \<Rightarrow> kstate \<Rightarrow> kstate" where
  "set_members d c [] i s = s"
| "set_members d c (r # rs) i s =
     (let s = (if d = i then set_def_val c (VSym r) (set_def_tri r Yes s) else set_def_tri r No s);
          s = clear_flags r {SYMBOL_VALID} (set_flags r {SYMBOL_DEF S_DEF_USER} s)
      in set_members d c rs (Suc i) s)"

definition randomize_choice_values :: "rand \<Rightarrow> symref \<Rightarrow> nat \<times> kstate \<Rightarrow> (bool \<times> nat \<times> kstate) option" where
  "randomize_choice_values rnd c = (\<lambda>(k, s).
     if tri (curr (k_sym s c)) \<noteq> Yes then Some (False, k, s)
     else do {
       members \<leftarrow> choice_members s c;
       if members = [] then None
       else
         let s = set_members (rnd k mod length members) c members 0 s;
             s = clear_flags c {SYMBOL_VALID} (set_flags c {SYMBOL_DEF S_DEF_USER} s)
         in Some (True, Suc k, s)
     })"

definition need_choice :: "symref \<Rightarrow> kstate \<Rightarrow> kstate" where
  "need_choice r s =
     (if sym_is_choice (k_sym s r) \<and> \<not> sym_has_value (k_sym s r) \<or> sym_is_choice_value (k_sym s r)
      then set_flags r {SYMBOL_NEED_SET_CHOICE_VALUES} s else s)"

fun set_new_choices ::
    "calc \<Rightarrow> conf_def_mode \<Rightarrow> rand \<Rightarrow> symref list \<Rightarrow> bool \<times> nat \<times> kstate \<Rightarrow> (bool \<times> nat \<times> kstate) option" where
  "set_new_choices calc mode rnd [] st = Some st"
| "set_new_choices calc mode rnd (c # cs) (changed, k, s) =
     (if sym_has_value (k_sym s c) \<or> \<not> sym_is_choice (k_sym s c)
      then set_new_choices calc mode rnd cs (changed, k, s)
      else do {
        s \<leftarrow> calc c s;
        st \<leftarrow> (if mode = def_random then randomize_choice_values rnd c (k, s)
              else map_option (\<lambda>s. (True, k, s)) (set_all_choice_values c s));
        set_new_choices calc mode rnd cs st
      })"

text \<open>The left result is \<open>exit(1)\<close>.\<close>

definition conf_set_all_new_symbols ::
    "calc \<Rightarrow> os \<Rightarrow> conf_def_mode \<Rightarrow> rand \<Rightarrow> kstate \<Rightarrow> (unit + bool \<times> kstate) option" where
  "conf_set_all_new_symbols calc w mode rnd s =
     (case (if mode = def_random then probabilities (os_getenv w ''KCONFIG_PROBABILITY'') else Some (50, 33, 33)) of
        None \<Rightarrow> Some (Inl ())
      | Some ps \<Rightarrow> do {
          let (changed, k, s) = fold (set_new_symbol mode ps rnd) (all_syms s) (False, 0, s);
          s \<leftarrow> sym_clear_all_valid calc s;
          let s = (if mode \<noteq> def_random then fold need_choice (all_syms s) s else s);
          (changed, k, s) \<leftarrow> set_new_choices calc mode rnd (all_syms s) (changed, k, s);
          Some (Inr (changed, s))
        })"

end
