(* ===== verification/Kconfig_Conf_Sem.thy ===== *)
theory Kconfig_Conf_Sem
  imports Kconfig_Conf_Write Kconfig_Symbol_Sem
begin

text \<open>
  What reading and writing configurations compute: the reader splits a file into its lines
  within its buffer, the line printed for a symbol reads back as its value, installing a new
  configuration keeps the old one, and random configurations respect their bounds.
\<close>

section \<open>Strings\<close>

lemma unescape_escaped: "unescape (escaped str @ CHR 0x22 # rest) = Some str"
  by (induction str) (auto simp: escaped_def esc_char_def esc_special_def)

section \<open>Lines\<close>

lemma strchr_first:
  assumes "c \<notin> set pre"
  shows "strchr c (pre @ c # rest) = Some (pre, rest)"
proof -
  have "dropWhile (\<lambda>x. x \<noteq> c) (pre @ c # rest) = c # rest" "takeWhile (\<lambda>x. x \<noteq> c) (pre @ c # rest) = pre"
    using assms by (induction pre) auto
  then show ?thesis by (simp add: strchr_def)
qed

lemma strchr_None:
  assumes "c \<notin> set str"
  shows "strchr c str = None"
proof -
  have "dropWhile (\<lambda>x. x \<noteq> c) str = []" using assms by (induction str) auto
  then show ?thesis by (simp only: strchr_def list.case)
qed

text \<open>Names as the parser of the configuration language makes them.\<close>

definition plain_name :: "string \<Rightarrow> bool" where
  "plain_name n \<longleftrightarrow> n \<noteq> [] \<and> list_all name_char n"

lemma plain_name_chars:
  assumes "plain_name n"
  shows "CHR ''='' \<notin> set n" "CHR '' '' \<notin> set n" "CHR ''#'' \<notin> set n" "CHR 0x00 \<notin> set n" "CHR 0x0A \<notin> set n"
  using assms by (auto simp: plain_name_def list_all_iff name_char_def ctype_defs dest: bspec)

definition prefix_ok :: "string \<Rightarrow> bool" where
  "prefix_ok pre \<longleftrightarrow> list_all name_char pre"

lemma starts_with_append [simp]: "starts_with pre (pre @ str)"
  by (simp add: starts_with_def)

lemma line_value_newline:
  "CHR 0x0A \<notin> set v \<Longrightarrow> v = [] \<or> List.last v \<noteq> CHR 0x0D \<Longrightarrow> line_value (v @ newline) = v"
  by (auto simp: line_value_def newline_def strchr_first)

lemma parse_set:
  assumes "plain_name n" "prefix_ok pre" "CHR 0x0A \<notin> set v" "v = [] \<or> List.last v \<noteq> CHR 0x0D"
  shows "parse_line pre (pre @ n @ ''='' @ v @ newline) = Some (L_set n v)"
proof -
  have "hd (pre @ n) \<noteq> CHR ''#''" "pre @ n \<noteq> []"
    using assms(1,2) plain_name_chars(3) [OF assms(1)]
    by (cases pre; cases n; auto simp: plain_name_def prefix_ok_def name_char_def ctype_defs)+
  then have "hd (pre @ n @ ''='' @ v @ newline) \<noteq> CHR ''#''" by (metis append_assoc hd_append2)
  then show ?thesis
    using strchr_first [OF plain_name_chars(1) [OF assms(1)]] line_value_newline [OF assms(3,4)]
    by (simp add: parse_line_def)
qed

lemma parse_unset:
  assumes "plain_name n"
  shows "parse_line pre (''# '' @ pre @ n @ '' is not set'' @ newline) = Some (L_unset n)"
  using strchr_first [OF plain_name_chars(2) [OF assms]]
  by (simp add: parse_line_def starts_with_def)

text \<open>What is printed for a symbol is parsed as its name and value.\<close>

lemma print_parse:
  assumes "name x = Some n" "plain_name n" "prefix_ok pre" "CHR 0x0A \<notin> set v" "v = [] \<or> List.last v \<noteq> CHR 0x0D"
  shows "parse_line pre (kconfig_print_symbol pre False x v) =
    Some (if (stype x = S_BOOLEAN \<or> stype x = S_TRISTATE) \<and> v \<noteq> [] \<and> hd v = CHR ''n'' then L_unset n else L_set n v)"
  using assms(1) parse_set [OF assms(2-5)] parse_unset [OF assms(2)]
  by (cases "v = []") (auto simp: kconfig_print_symbol_def print_name_def)

section \<open>The line reader\<close>

lemma add_byte_ok:
  assumes "slen \<le> length line"
  shows "\<exists>line'. add_byte c line slen = Some line' \<and> take slen line' = take slen line \<and>
    slen < length line' \<and> line' ! slen = c"
  using assms by (auto simp: add_byte_def Let_def nth_append)

lemma add_byte_prefix:
  assumes "slen \<le> length line" "take slen line = str"
  obtains line' where "add_byte c line slen = Some line'" "take (Suc slen) line' = str @ [c]" "Suc slen \<le> length line'"
proof -
  obtain line' where l: "add_byte c line slen = Some line'" "take slen line' = str" "slen < length line'" "line' ! slen = c"
    using add_byte_ok [OF assms(1), of c] assms(2) by auto
  have "take (Suc slen) line' = str @ [c]" using l by (simp add: take_Suc_conv_app_nth)
  with l show thesis by (intro that) (simp_all add: Suc_le_eq)
qed

definition split_line :: "string \<Rightarrow> string \<times> string" where
  "split_line inp = (case strchr (CHR 0x0A) inp of
     None \<Rightarrow> (inp, [])
   | Some (l, rest) \<Rightarrow> (l @ newline, rest))"

lemma strchr_Cons: "c \<noteq> d \<Longrightarrow> strchr d (c # inp) = map_option (\<lambda>(pre, rest). (c # pre, rest)) (strchr d inp)"
  by (simp add: strchr_def del: dropWhile_eq_Nil_conv split: list.split)

lemma split_line_Cons:
  "c \<noteq> CHR 0x0A \<Longrightarrow> split_line (c # inp) = (let (l, rest) = split_line inp in (c # l, rest))"
  by (auto simp: split_line_def strchr_Cons split: option.split)

lemma getline_split:
  "slen \<le> length line \<Longrightarrow> take slen line = str \<Longrightarrow> length str = slen \<Longrightarrow>
   \<exists>line'. compat_getline line slen inp =
       Some (if slen + length (fst (split_line inp)) = 0 then None else Some (slen + length (fst (split_line inp))),
             line', snd (split_line inp)) \<and>
     take (slen + length (fst (split_line inp)) + 1) line' = str @ fst (split_line inp) @ [CHR 0x00]"
proof (induction inp arbitrary: line slen str)
  case Nil
  obtain line' where "add_byte (CHR 0x00) line slen = Some line'" "take (Suc slen) line' = str @ [CHR 0x00]"
    using add_byte_prefix Nil by metis
  then show ?case by (simp add: split_line_def strchr_def)
next
  case (Cons c inp)
  obtain l1 where l1: "add_byte c line slen = Some l1" "take (Suc slen) l1 = str @ [c]" "Suc slen \<le> length l1"
    using add_byte_prefix Cons.prems by metis
  show ?case
  proof (cases "c = CHR 0x0A")
    case True
    obtain l2 where l2: "add_byte (CHR 0x00) l1 (Suc slen) = Some l2" "take (Suc (Suc slen)) l2 = (str @ [c]) @ [CHR 0x00]"
      using add_byte_prefix [OF l1(3,2)] by metis
    then show ?thesis using True l1 by (simp add: split_line_def strchr_def newline_def)
  next
    case False
    then show ?thesis
      using Cons.IH [OF l1(3,2)] Cons.prems(3) l1(1)
      by (auto simp: split_line_Cons Let_def split_def)
  qed
qed

section \<open>Files as lines\<close>

lemma split_line_shorter: "inp \<noteq> [] \<Longrightarrow> length (snd (split_line inp)) < length inp"
  by (auto simp: split_line_def dest!: strchr_split split: option.split)

function file_lines :: "string \<Rightarrow> string list" where
  "file_lines inp = (if inp = [] then [] else fst (split_line inp) # file_lines (snd (split_line inp)))"
  by pat_completeness auto
termination
  by (relation "measure length") (auto intro: split_line_shorter)

declare file_lines.simps [simp del]

fun read_all :: "string \<Rightarrow> s_def \<Rightarrow> string list \<Rightarrow> kstate \<Rightarrow> kstate option" where
  "read_all pre d [] s = Some s"
| "read_all pre d (l # ls) s = Option.bind (read_line pre d (c_string l) s) (read_all pre d ls)"

lemma c_string_take: "take (Suc k) line = str @ [CHR 0x00] \<Longrightarrow> c_string line = c_string str"
proof -
  assume "take (Suc k) line = str @ [CHR 0x00]"
  then have "line = (str @ [CHR 0x00]) @ drop (Suc k) line" by (metis append_take_drop_id)
  then obtain rest where "line = str @ CHR 0x00 # rest" by simp
  then show ?thesis by (induction str arbitrary: line) (auto simp: c_string_def)
qed

lemma read_lines_all: "read_lines pre d line inp s = read_all pre d (file_lines inp) s"
proof (induction "length inp" arbitrary: inp line s rule: less_induct)
  case less
  obtain line' where g: "compat_getline line 0 inp =
      Some (if length (fst (split_line inp)) = 0 then None else Some (length (fst (split_line inp))), line', snd (split_line inp))"
    and t: "take (Suc (length (fst (split_line inp)))) line' = fst (split_line inp) @ [CHR 0x00]"
    using getline_split [of 0 line "[]" inp] by auto
  show ?case
  proof (cases "inp = []")
    case True
    then show ?thesis using g by (subst read_lines.simps, subst file_lines.simps) (simp add: split_line_def strchr_def)
  next
    case False
    then have ne: "fst (split_line inp) \<noteq> []"
      by (auto simp: split_line_def newline_def split: option.split)
    have "read_lines pre d line inp s =
        Option.bind (read_line pre d (c_string line') s) (read_lines pre d line' (snd (split_line inp)))"
      using g ne by (subst read_lines.simps) simp
    moreover have "read_lines pre d line' (snd (split_line inp)) = read_all pre d (file_lines (snd (split_line inp)))"
      by (rule ext) (rule less [OF split_line_shorter [OF False]])
    ultimately show ?thesis
      using c_string_take [OF t] by (subst file_lines.simps) (simp add: False)
  qed
qed

lemma file_lines_append:
  assumes "CHR 0x0A \<notin> set l"
  shows "file_lines (l @ newline @ rest) = (l @ newline) # file_lines rest"
  using strchr_first [OF assms, of rest]
  by (subst file_lines.simps) (simp add: split_line_def newline_def)

section \<open>Reading a printed line\<close>

lemma upd_sym_apply [simp]: "k_sym (upd_sym r f s) = (k_sym s)(r := f (k_sym s r))"
  by (simp add: upd_sym_def)

lemma warning_syms [simp]: "k_sym (conf_warning m s) = k_sym s" "k_nstr (conf_warning m s) = k_nstr s"
  by (simp_all add: conf_warning_def add_log_def)

lemma warn_override_syms [simp]: "k_sym (warn_override r d s) = k_sym s" "k_nstr (warn_override r d s) = k_nstr s"
  by (simp_all add: warn_override_def)

lemma add_log_syms [simp]: "k_sym (add_log m s) = k_sym s"
  by (simp add: add_log_def)

text \<open>
  What the meaning of a line depends on: the table, and the name, the type and the kind of the symbols.
  \<open>stores r d s s'\<close>: a line gave symbol \<open>r\<close> a value; only \<open>r\<close> and choices have changed.
\<close>

definition same_table :: "kstate \<Rightarrow> kstate \<Rightarrow> bool" where
  "same_table s s' \<longleftrightarrow> sym_find s' = sym_find s \<and> choice_of s' = choice_of s \<and>
     (\<forall>q. name (k_sym s' q) = name (k_sym s q) \<and> stype (k_sym s' q) = stype (k_sym s q) \<and>
        sym_is_choice (k_sym s' q) = sym_is_choice (k_sym s q) \<and>
        sym_is_choice_value (k_sym s' q) = sym_is_choice_value (k_sym s q))"

definition stores :: "symref \<Rightarrow> s_def \<Rightarrow> kstate \<Rightarrow> kstate \<Rightarrow> bool" where
  "stores r d s s' \<longleftrightarrow> same_table s s' \<and> SYMBOL_DEF d \<in> flags (k_sym s' r) \<and>
     (\<forall>q. q \<noteq> r \<longrightarrow> \<not> sym_is_choice (k_sym s q) \<longrightarrow> k_sym s' q = k_sym s q)"

text \<open>A choice value belongs to a choice.\<close>

definition in_choice :: "kstate \<Rightarrow> symref \<Rightarrow> bool" where
  "in_choice s r \<longleftrightarrow> (sym_is_choice_value (k_sym s r) \<longrightarrow>
     (\<exists>cs. choice_of s r = Some cs \<and> cs \<noteq> r \<and> sym_is_choice (k_sym s cs)))"

lemma same_table_trans: "same_table s s' \<Longrightarrow> same_table s' s'' \<Longrightarrow> same_table s s''"
  by (simp add: same_table_def)

lemma in_choice_table: "same_table s s' \<Longrightarrow> in_choice s' r = in_choice s r"
  by (simp add: same_table_def in_choice_def)

definition kind_flags :: "sym_flag set" where
  "kind_flags = {SYMBOL_CONST, SYMBOL_CHOICE, SYMBOL_CHOICEVAL}"

lemma same_tableI:
  assumes "k_hash s' = k_hash s" "k_prop s' = k_prop s"
    and "\<And>q. name (k_sym s' q) = name (k_sym s q) \<and> stype (k_sym s' q) = stype (k_sym s q) \<and>
      props (k_sym s' q) = props (k_sym s q) \<and> flags (k_sym s' q) \<inter> kind_flags = flags (k_sym s q) \<inter> kind_flags"
  shows "same_table s s'"
proof -
  have f: "x \<in> flags (k_sym s' q) \<longleftrightarrow> x \<in> flags (k_sym s q)" if "x \<in> kind_flags" for x q
    using assms(3) [of q] that by blast
  have "find_match s' m = find_match s m" for m
    using assms(3) f [of SYMBOL_CONST] by (intro ext) (simp add: find_match_def kind_flags_def)
  then have "sym_find s' = sym_find s" using assms(1) by (intro ext) (simp add: sym_find_def split: option.split)
  moreover have "choice_of s' = choice_of s"
    using assms(2,3) by (intro ext) (simp add: choice_of_def sym_get_choice_prop_def props_of_def split: option.split)
  ultimately show ?thesis
    using assms(3) f [of SYMBOL_CHOICE] f [of SYMBOL_CHOICEVAL]
    by (simp add: same_table_def sym_is_choice_def sym_is_choice_value_def kind_flags_def)
qed

lemma table_prims [simp]:
  "same_table s s" "same_table s (set_sdef r d f s)" "same_table s (set_flags r {SYMBOL_DEF d} s)"
  "same_table s (clear_flags r {SYMBOL_DEF d} s)" "same_table s (conf_warning m s)" "same_table s (warn_override r d s)"
  "same_table s (s\<lparr>k_nstr := k\<rparr>)"
  by (rule same_tableI; auto simp: kind_flags_def set_sdef_def set_flags_def clear_flags_def conf_warning_def add_log_def
      warn_override_def upd_sym_def)+

lemma store_tri_stores:
  "stores r d s (store_tri r d t s)" "tri (sdef (k_sym (store_tri r d t s) r) d) = t"
proof -
  have "same_table s (store_tri r d t s)" unfolding store_tri_def by (rule same_table_trans) (rule table_prims)+
  then show "stores r d s (store_tri r d t s)" by (simp add: stores_def store_tri_def set_flags_def set_sdef_def)
qed (simp add: store_tri_def set_flags_def set_sdef_def)

lemma store_valid_stores:
  assumes "sym_string_valid (stype (k_sym s r)) p" "store_valid r d p s = (bad, s')"
  shows "\<not> bad" "stores r d s s'" "cstr (val (sdef (k_sym s' r) d)) = Some p"
proof -
  obtain v k where s': "s' = set_flags r {SYMBOL_DEF d} (set_sdef r d (\<lambda>x. x\<lparr>val := v\<rparr>) (s\<lparr>k_nstr := k\<rparr>))"
    and v: "cstr v = Some p" and b: "\<not> bad"
    using assms by (auto simp: store_valid_def alloc_str_def cstr_def)
  have "same_table s s'" unfolding s' by (rule same_table_trans, rule same_table_trans) (rule table_prims)+
  then show "stores r d s s'" by (simp add: stores_def s' set_flags_def set_sdef_def)
  show "cstr (val (sdef (k_sym s' r) d)) = Some p" using v by (simp add: s' set_flags_def set_sdef_def)
  show "\<not> bad" by (rule b)
qed

lemma stores_override: "stores r d (warn_override r d s) s' \<Longrightarrow> stores r d s s'"
  by (auto simp: stores_def intro: same_table_trans [OF table_prims(6)])

text \<open>The label \<open>setsym\<close> changes the choice of the symbol only.\<close>

lemma set_choice_stores:
  assumes "in_choice s r"
  shows "\<exists>s'. set_choice r d s = Some s' \<and> same_table s s' \<and> k_sym s' r = k_sym s r \<and>
    (\<forall>q. \<not> sym_is_choice (k_sym s q) \<longrightarrow> k_sym s' q = k_sym s q)"
proof (cases "sym_is_choice_value (k_sym s r)")
  case True
  then obtain cs where cs: "choice_of s r = Some cs" "cs \<noteq> r" "sym_is_choice (k_sym s cs)"
    using assms by (auto simp: in_choice_def)
  define s1 where "s1 = (case tri (sdef (k_sym s r) d) of
            No \<Rightarrow> s
          | Mod \<Rightarrow>
              if tri (sdef (k_sym s cs) d) = Yes
              then clear_flags cs {SYMBOL_DEF d}
                (conf_warning (print_name (k_sym s r) @ '' creates inconsistent choice state'') s)
              else s
          | Yes \<Rightarrow>
              set_sdef cs d (\<lambda>v. v\<lparr>val := VSym r\<rparr>)
                (if tri (sdef (k_sym s cs) d) \<noteq> No
                 then conf_warning (''override: '' @ print_name (k_sym s r) @ '' changes choice state'') s else s))"
  have t: "same_table s s1"
    unfolding s1_def by (auto split: tristate.split intro: same_table_trans [OF _ table_prims(2)] same_table_trans [OF _ table_prims(4)])
  have o: "k_sym s1 q = k_sym s q" if "q \<noteq> cs" for q
    using that unfolding s1_def by (auto split: tristate.split simp: set_sdef_def clear_flags_def)
  have "set_choice r d s = Some (set_sdef cs d (\<lambda>v. v\<lparr>tri := EXPR_OR (tri v) (tri (sdef (k_sym s1 r) d))\<rparr>) s1)"
    using True cs by (simp add: set_choice_def s1_def Let_def)
  then show ?thesis
    using cs o same_table_trans [OF t table_prims(2)] by (auto simp: set_sdef_def)
qed (simp add: set_choice_def)

lemma stores_set_choice:
  assumes "stores r d s s1" "in_choice s r"
  shows "\<exists>s'. set_choice r d s1 = Some s' \<and> k_sym s' r = k_sym s1 r \<and> stores r d s s'"
proof -
  have t: "same_table s s1" using assms(1) by (simp add: stores_def)
  obtain s' where s': "set_choice r d s1 = Some s'" "same_table s1 s'" "k_sym s' r = k_sym s1 r"
    "\<forall>q. \<not> sym_is_choice (k_sym s1 q) \<longrightarrow> k_sym s' q = k_sym s1 q"
    using set_choice_stores [of s1 r d] assms(2) in_choice_table [OF t] by auto
  moreover have "sym_is_choice (k_sym s1 q) = sym_is_choice (k_sym s q)" for q using t by (simp add: same_table_def)
  ultimately have "stores r d s s'" using assms(1) same_table_trans [OF t s'(2)] by (simp add: stores_def)
  then show ?thesis using s' by blast
qed

lemma read_set_user:
  assumes "sym_find s (Some n) = Some r" "in_choice s r" "stores r S_DEF_USER s s1"
    and "conf_set_sym_val r S_DEF_USER v (warn_override r S_DEF_USER s) = (False, s1)"
  shows "\<exists>s'. read_set S_DEF_USER n v s = Some s' \<and> k_sym s' r = k_sym s1 r \<and> stores r S_DEF_USER s s'"
  using stores_set_choice [OF assms(3,2)] assms(1,4) by (simp add: read_set_def line_symbol_def)

lemma c_string_id: "CHR 0x00 \<notin> set l \<Longrightarrow> c_string l = l"
  by (induction l) (auto simp: c_string_def)

lemma valid_number_chars:
  assumes "t = S_INT \<or> t = S_HEX" "sym_string_valid t str" "c \<in> set str"
  shows "isxdigit c \<or> c = CHR ''-'' \<or> c = CHR ''x'' \<or> c = CHR ''X''"
proof (cases "t = S_INT")
  case True
  with assms(2) have "\<forall>c \<in> set (drop_minus str). isdigit c"
    by (auto simp: sym_string_valid_def int_valid_def list_all_iff split: list.splits)
  moreover have "set str \<subseteq> insert (CHR ''-'') (set (drop_minus str))" by (cases str) auto
  moreover have "isdigit c \<Longrightarrow> isxdigit c" for c by (simp add: isxdigit_def)
  ultimately show ?thesis using assms(3) by blast
next
  case False
  then have h: "hex_valid str" using assms by (simp add: sym_string_valid_def)
  show ?thesis
  proof (cases "has_0x str")
    case True
    then obtain x s' where str: "str = CHR ''0'' # x # s'" "x = CHR ''x'' \<or> x = CHR ''X''"
      by (cases str rule: has_0x.cases) auto
    have "isxdigit (CHR ''0'')" by (simp add: ctype_defs)
    moreover have "\<forall>c \<in> set s'. isxdigit c" using h True str by (simp add: hex_valid_def list_all_iff)
    ultimately show ?thesis using str assms(3) by auto
  next
    case False
    then show ?thesis using h assms(3) by (auto simp: hex_valid_def list_all_iff)
  qed
qed

lemma valid_number_line:
  assumes "t = S_INT \<or> t = S_HEX" "sym_string_valid t str"
  shows "CHR 0x0A \<notin> set str" "str = [] \<or> List.last str \<noteq> CHR 0x0D"
proof -
  show "CHR 0x0A \<notin> set str" using valid_number_chars [OF assms, of "CHR 0x0A"] by (auto simp: ctype_defs)
  have "CHR 0x0D \<notin> set str" using valid_number_chars [OF assms, of "CHR 0x0D"] by (auto simp: ctype_defs)
  then show "str = [] \<or> List.last str \<noteq> CHR 0x0D" using last_in_set [of str] by metis
qed

lemma escaped_chars: "set (escaped str) \<subseteq> insert (CHR 0x5C) (set str)"
  by (auto simp: escaped_def esc_char_def split: if_splits)

text \<open>The value of a symbol as it stands in a configuration file.\<close>

definition file_value :: "symbol_type \<Rightarrow> string \<Rightarrow> string option" where
  "file_value t str = (if t = S_STRING then sym_escape_string_value str else Some str)"

lemma read_printed_string:
  assumes "sym_find s (Some n) = Some r" "name (k_sym s r) = Some n" "in_choice s r"
    and "plain_name n" "prefix_ok pre" "stype (k_sym s r) \<in> {S_STRING, S_INT, S_HEX}"
    and "sym_string_valid (stype (k_sym s r)) str" "CHR 0x0A \<notin> set str" "file_value (stype (k_sym s r)) str = Some v"
  shows "\<exists>s'. read_line pre S_DEF_USER (kconfig_print_symbol pre False (k_sym s r) v) s = Some s' \<and>
    cstr (val (sdef (k_sym s' r) S_DEF_USER)) = Some str \<and> stores r S_DEF_USER s s'"
proof -
  obtain bad s' where c: "store_valid r S_DEF_USER str (warn_override r S_DEF_USER s) = (bad, s')" by fastforce
  have valid: "sym_string_valid (stype (k_sym (warn_override r S_DEF_USER s) r)) str" using assms(7) by simp
  note st = store_valid_stores [OF valid c]
  have q: "v = CHR 0x22 # escaped str @ [CHR 0x22]" if "stype (k_sym s r) = S_STRING"
    using that assms(9) by (simp add: file_value_def escape_total)
  have v: "CHR 0x0A \<notin> set v" "v = [] \<or> List.last v \<noteq> CHR 0x0D"
  proof -
    show "CHR 0x0A \<notin> set v"
      using q assms(8,9) escaped_chars [of str] by (cases "stype (k_sym s r) = S_STRING") (auto simp: file_value_def)
    show "v = [] \<or> List.last v \<noteq> CHR 0x0D"
      using q valid_number_line(2) [OF _ assms(7)] assms(6,9)
      by (cases "stype (k_sym s r) = S_STRING") (auto simp: file_value_def)
  qed
  have "conf_set_sym_val r S_DEF_USER v (warn_override r S_DEF_USER s) = (False, s')"
    using assms(6,9) c st(1) q unescape_escaped [of str "[]"]
    by (auto simp: conf_set_sym_val_def set_quoted_def file_value_def)
  then obtain s2 where "read_set S_DEF_USER n v s = Some s2" "k_sym s2 r = k_sym s' r" "stores r S_DEF_USER s s2"
    using read_set_user [OF assms(1,3) stores_override [OF st(2)]] by blast
  moreover have "parse_line pre (kconfig_print_symbol pre False (k_sym s r) v) = Some (L_set n v)"
    using print_parse [OF assms(2,4,5) v] assms(6) by auto
  ultimately show ?thesis using st(3) by (auto simp: read_line_def)
qed

definition tri_text :: "tristate \<Rightarrow> string" where
  "tri_text t = (case t of No \<Rightarrow> ''n'' | Mod \<Rightarrow> ''m'' | Yes \<Rightarrow> ''y'')"

lemma read_printed_tri:
  assumes "sym_find s (Some n) = Some r" "name (k_sym s r) = Some n" "in_choice s r"
    and "plain_name n" "prefix_ok pre" "stype (k_sym s r) = S_TRISTATE \<or> stype (k_sym s r) = S_BOOLEAN \<and> t \<noteq> Mod"
  shows "\<exists>s'. read_line pre S_DEF_USER (kconfig_print_symbol pre False (k_sym s r) (tri_text t)) s = Some s' \<and>
    tri (sdef (k_sym s' r) S_DEF_USER) = t \<and> stores r S_DEF_USER s s'"
proof -
  define s' where "s' = store_tri r S_DEF_USER t (warn_override r S_DEF_USER s)"
  have st: "tri (sdef (k_sym s' r) S_DEF_USER) = t" "stores r S_DEF_USER s s'"
    using store_tri_stores [where s = "warn_override r S_DEF_USER s" and d = S_DEF_USER] stores_override
    by (simp_all add: s'_def)
  have p: "parse_line pre (kconfig_print_symbol pre False (k_sym s r) (tri_text t)) =
      Some (if t = No then L_unset n else L_set n (tri_text t))"
    using print_parse [OF assms(2,4,5), of "tri_text t"] assms(6) by (cases t) (auto simp: tri_text_def)
  show ?thesis
  proof (cases "t = No")
    case True
    obtain s2 where s2: "set_choice r S_DEF_USER s' = Some s2" "k_sym s2 r = k_sym s' r" "stores r S_DEF_USER s s2"
      using stores_set_choice [OF st(2) assms(3)] by blast
    then have "read_unset S_DEF_USER n s = Some s2"
      using assms(1,6) True by (auto simp: read_unset_def line_symbol_def s'_def)
    with p True st s2 show ?thesis by (auto simp: read_line_def)
  next
    case False
    then have "conf_set_sym_val r S_DEF_USER (tri_text t) (warn_override r S_DEF_USER s) = (False, s')"
      using assms(6) by (cases t) (auto simp: conf_set_sym_val_def set_bool_def tri_text_def s'_def)
    then obtain s2 where "read_set S_DEF_USER n (tri_text t) s = Some s2" "k_sym s2 r = k_sym s' r" "stores r S_DEF_USER s s2"
      using read_set_user [OF assms(1,3) st(2)] by blast
    with p False st show ?thesis by (auto simp: read_line_def)
  qed
qed

section \<open>Growable strings\<close>

definition gstr_ok :: "gstr \<Rightarrow> bool" where
  "gstr_ok gs \<longleftrightarrow> length (gs_s gs) < gs_len gs"

lemma append_ok:
  assumes "gstr_ok gs"
  shows "\<exists>gs'. str_append gs str = Some gs' \<and> gstr_ok gs' \<and>
    gs_s gs' = gs_s gs @ (case str of None \<Rightarrow> '''' | Some t \<Rightarrow> t) \<and> gs_len gs \<le> gs_len gs'"
  using assms by (auto simp: str_append_def gstr_ok_def buf_cat_def Let_def split: option.split)

section \<open>Writing the configuration\<close>

text \<open>
  The old configuration survives under its own name or the backup's, whatever the renames return,
  provided the backup can be written.
\<close>

lemma install_keeps_text:
  assumes "os_files w new = Some old" "tmp \<noteq> new" "tmp \<noteq> oldname" "new \<noteq> oldname" "tmp \<noteq> []" "os_writable w oldname"
    and "install_config tmp new oldname w = (ok, w')"
  shows "os_files w' new = Some old \<or> os_files w' oldname = Some old"
    and "ok \<Longrightarrow> os_files w' new = os_files w tmp \<and> os_files w' oldname = Some old"
  using assms by (auto simp: install_config_def rename_file_def split: option.splits if_splits)

lemma conf_write_cases:
  assumes "conf_write calc nm s w = Some (res, s', w')" "split_name w nm = Some (dir, base)"
    "os_getenv w ''KCONFIG_OVERWRITECONFIG'' = None"
    "tmp = dir @ ''.tmpconfig.'' @ fmt_lld (int (os_pid w))" "new = dir @ base"
  obtains "\<not> os_writable w tmp" "res = 1" "s' = s" "w' = w"
  | out s1 ok where "os_writable w tmp" "conf_text calc w s = Some (out, s1)"
    "install_config tmp new (new @ ''.old'') (write_file tmp out w) = (ok, w')" "res = (if ok then 0 else 1)"
    "ok \<longrightarrow> \<not> conf_get_changed s'"
proof (cases "os_writable w tmp")
  case False
  then show ?thesis using assms that(1) by (auto simp: conf_write_def path_buf_def split: if_splits)
next
  case True
  have ne: "tmp \<noteq> []" using assms(4) by simp
  from assms True obtain out s1 ok w2 where "conf_text calc w s = Some (out, s1)"
    "install_config tmp new (new @ ''.old'') (write_file tmp out w) = (ok, w2)"
    "(if ok then Some (0, sym_set_change_count 0 (add_log (M_message (''configuration written to '' @ new)) s1), w2)
       else Some (1, s1, w2)) = Some (res, s', w')"
    by (auto simp: conf_write_def path_buf_def Let_def elim!: bind_SomeE split: prod.splits if_splits)
  then show ?thesis using that(2) [OF True] by (auto simp: conf_get_changed_def sym_set_change_count_def Let_def split: if_splits)
qed

section \<open>Random configurations\<close>

lemma probs_bounds: "probs n env = Some ps \<Longrightarrow> length ps \<le> n \<and> (\<forall>p \<in> set ps. 0 \<le> p \<and> p \<le> 100)"
proof (induction n arbitrary: env ps)
  case (Suc n)
  from Suc.prems consider "ps = []" | tmp rest env' where "ps = tmp # rest" "0 \<le> tmp" "tmp \<le> 100" "probs n env' = Some rest"
    by (auto simp: Let_def split: if_splits prod.splits)
  then show ?case by cases (use Suc.IH in fastforce)+
qed auto

lemma probabilities_bounds:
  assumes "probabilities env = Some (pby, pty, ptm)"
  shows "0 \<le> pby" "0 \<le> pty" "0 \<le> ptm" "pby \<le> 100" "pty + ptm \<le> 100"
proof -
  from assms obtain p where p: "(case env of None \<Rightarrow> Some [] | Some e \<Rightarrow> probs 3 e) = Some p"
    and e: "(pby, pty, ptm) = (case p of [a] \<Rightarrow> (a, a - a div 2, a div 2) | [a, b] \<Rightarrow> (a + b, a, b)
       | [a, b, c] \<Rightarrow> (a, b, c) | _ \<Rightarrow> (50, 33, 33))"
    and l: "pty + ptm \<le> 100"
    by (auto simp: probabilities_def elim!: bind_SomeE split: prod.splits if_splits)
  have b: "\<forall>x \<in> set p. 0 \<le> x \<and> x \<le> 100" using p probs_bounds by (auto split: option.splits)
  show "pty + ptm \<le> 100" by (rule l)
  show "0 \<le> pby" "0 \<le> pty" "0 \<le> ptm" "pby \<le> 100"
    using e b l by (auto split: list.splits)
qed

lemma set_members_other:
  "q \<notin> set ms \<Longrightarrow> q \<noteq> c \<Longrightarrow> k_sym (set_members d c ms i s) q = k_sym s q"
  by (induction ms arbitrary: i s)
    (auto simp: Let_def set_def_val_def set_def_tri_def set_flags_def clear_flags_def)

abbreviation user_tri :: "kstate \<Rightarrow> symref \<Rightarrow> tristate" where
  "user_tri s r \<equiv> tri (sdef (k_sym s r) S_DEF_USER)"

lemma set_members_values:
  "distinct ms \<Longrightarrow> c \<notin> set ms \<Longrightarrow> j < length ms \<Longrightarrow>
   user_tri (set_members d c ms i s) (ms ! j) = (if i + j = d then Yes else No) \<and>
   sym_has_value (k_sym (set_members d c ms i s) (ms ! j))"
proof (induction ms arbitrary: i j s)
  case (Cons r rs)
  define s1 where "s1 = clear_flags r {SYMBOL_VALID} (set_flags r {SYMBOL_DEF S_DEF_USER}
     (if d = i then set_def_val c (VSym r) (set_def_tri r Yes s) else set_def_tri r No s))"
  have e: "set_members d c (r # rs) i s = set_members d c rs (Suc i) s1" by (simp add: s1_def Let_def)
  show ?case
  proof (cases j)
    case 0
    have "r \<notin> set rs" "r \<noteq> c" using Cons.prems by auto
    then have "k_sym (set_members d c rs (Suc i) s1) r = k_sym s1 r" by (rule set_members_other)
    moreover have "user_tri s1 r = (if i = d then Yes else No) \<and> sym_has_value (k_sym s1 r)"
      using \<open>r \<noteq> c\<close> by (auto simp: s1_def set_def_val_def set_def_tri_def set_flags_def clear_flags_def sym_has_value_def)
    ultimately show ?thesis using 0 e by simp
  next
    case (Suc k)
    then show ?thesis using Cons.IH [of k "Suc i" s1] Cons.prems e by simp
  qed
qed simp

lemma set_members_past:
  "d < i \<Longrightarrow> c \<notin> set ms \<Longrightarrow> val (sdef (k_sym (set_members d c ms i s) c) S_DEF_USER) = val (sdef (k_sym s c) S_DEF_USER)"
  by (induction ms arbitrary: i s) (auto simp: Let_def set_def_tri_def set_flags_def clear_flags_def)

lemma set_members_choice:
  "c \<notin> set ms \<Longrightarrow> i \<le> d \<Longrightarrow> d < i + length ms \<Longrightarrow>
   val (sdef (k_sym (set_members d c ms i s) c) S_DEF_USER) = VSym (ms ! (d - i))"
proof (induction ms arbitrary: i s)
  case (Cons r rs)
  show ?case
  proof (cases "d = i")
    case True
    then show ?thesis using Cons.prems set_members_past [of d "Suc i" c rs]
      by (auto simp: Let_def set_def_val_def set_def_tri_def set_flags_def clear_flags_def)
  next
    case False
    then have "d - i = Suc (d - Suc i)" using Cons.prems by simp
    then show ?thesis using Cons False by (simp add: Let_def)
  qed
qed simp

lemma set_members_invalid:
  "c \<notin> set ms \<Longrightarrow> q \<in> set ms \<Longrightarrow> SYMBOL_VALID \<notin> flags (k_sym (set_members d c ms i s) q)"
proof (induction ms arbitrary: i s)
  case (Cons r rs)
  show ?case
  proof (cases "q \<in> set rs")
    case True
    then show ?thesis using Cons by (simp add: Let_def)
  next
    case False
    then have "q = r" "q \<noteq> c" using Cons.prems by auto
    then show ?thesis using False by (simp add: Let_def set_members_other) (simp add: clear_flags_def)
  qed
qed simp

end
