(* ===== verification/Kconfig_Conf_File.thy ===== *)
theory Kconfig_Conf_File
  imports Kconfig_Conf_Sem
begin

text \<open>
  A configuration file as a list of comments and entries: what \<open>conf_read_simple\<close> stores when it reads
  the lines that \<open>conf_write\<close> prints for a list of symbols.
\<close>

section \<open>Saved values\<close>

datatype saved = Saved_tri tristate | Saved_str string

fun saved_text :: "symbol_type \<Rightarrow> saved \<Rightarrow> string option" where
  "saved_text ty (Saved_tri t) = Some (tri_text t)"
| "saved_text ty (Saved_str str) = file_value ty str"

fun has_saved :: "kstate \<Rightarrow> symref \<Rightarrow> saved \<Rightarrow> bool" where
  "has_saved s r (Saved_tri t) \<longleftrightarrow> tri (sdef (k_sym s r) S_DEF_USER) = t"
| "has_saved s r (Saved_str str) \<longleftrightarrow> cstr (val (sdef (k_sym s r) S_DEF_USER)) = Some str"

text \<open>A value of the type of the symbol; a string has no zero byte, being a C string, and no newline.\<close>

fun saved_ok :: "symbol_type \<Rightarrow> saved \<Rightarrow> bool" where
  "saved_ok ty (Saved_tri t) \<longleftrightarrow> ty = S_TRISTATE \<or> ty = S_BOOLEAN \<and> t \<noteq> Mod"
| "saved_ok ty (Saved_str str) \<longleftrightarrow> ty \<in> {S_STRING, S_INT, S_HEX} \<and> sym_string_valid ty str \<and>
     CHR 0x0A \<notin> set str \<and> CHR 0x00 \<notin> set str"

text \<open>A symbol that is found by its name; it is not a choice, which has no line, and a choice value belongs to a choice.\<close>

definition named :: "kstate \<Rightarrow> symref \<Rightarrow> string \<Rightarrow> bool" where
  "named s r n \<longleftrightarrow> sym_find s (Some n) = Some r \<and> name (k_sym s r) = Some n \<and> plain_name n \<and>
     \<not> sym_is_choice (k_sym s r) \<and> in_choice s r"

lemma saved_text_total: "saved_ok ty sv \<Longrightarrow> \<exists>v. saved_text ty sv = Some v"
  by (cases sv) (auto simp: file_value_def escape_total)

lemma read_printed:
  assumes "named s r n" "prefix_ok pre" "saved_ok (stype (k_sym s r)) sv" "saved_text (stype (k_sym s r)) sv = Some v"
  shows "\<exists>s'. read_line pre S_DEF_USER (kconfig_print_symbol pre False (k_sym s r) v) s = Some s' \<and>
    has_saved s' r sv \<and> stores r S_DEF_USER s s'"
  using assms read_printed_tri [of s n r pre] read_printed_string [of s n r pre]
  by (cases sv) (auto simp: named_def)

section \<open>Lines of a file\<close>

definition line_ok :: "string \<Rightarrow> bool" where
  "line_ok l \<longleftrightarrow> CHR 0x0A \<notin> set l \<and> CHR 0x00 \<notin> set l"

lemma prefix_chars:
  assumes "prefix_ok pre"
  shows "CHR 0x0A \<notin> set pre" "CHR 0x00 \<notin> set pre"
  using assms by (auto simp: prefix_ok_def list_all_iff name_char_def ctype_defs dest: bspec)

lemma saved_text_line:
  assumes "saved_ok ty sv" "saved_text ty sv = Some v"
  shows "line_ok v"
proof (cases sv)
  case (Saved_tri t)
  then show ?thesis using assms by (cases t) (auto simp: line_ok_def tri_text_def)
next
  case (Saved_str str)
  then show ?thesis using assms escaped_chars [of str]
    by (auto simp: line_ok_def file_value_def escape_total split: if_splits)
qed

lemma printed_line:
  assumes "named s r n" "prefix_ok pre" "line_ok v"
  obtains l where "kconfig_print_symbol pre False (k_sym s r) v = l @ newline" "line_ok l"
proof -
  let ?x = "k_sym s r"
  have n: "print_name ?x = n" "line_ok n" "line_ok pre"
    using assms(1,2) plain_name_chars [of n] prefix_chars [OF assms(2)] by (auto simp: named_def print_name_def line_ok_def)
  show thesis
  proof (cases "(stype ?x = S_BOOLEAN \<or> stype ?x = S_TRISTATE) \<and> v \<noteq> [] \<and> hd v = CHR ''n''")
    case True
    then show ?thesis using n by (intro that [of "''# '' @ pre @ n @ '' is not set''"]) (auto simp: kconfig_print_symbol_def line_ok_def)
  next
    case False
    then show ?thesis using n assms(3) by (intro that [of "pre @ n @ ''='' @ v"]) (auto simp: kconfig_print_symbol_def line_ok_def)
  qed
qed

lemma read_all_line:
  assumes "line_ok l"
  shows "read_all pre d (file_lines (l @ newline @ rest)) s =
    Option.bind (read_line pre d (l @ newline) s) (read_all pre d (file_lines rest))"
proof -
  have "c_string (l @ newline) = l @ newline" using assms by (intro c_string_id) (auto simp: line_ok_def newline_def)
  then show ?thesis using assms file_lines_append [of l rest] by (simp add: line_ok_def)
qed

section \<open>Files\<close>

datatype item = Comment string | Entry symref saved

text \<open>The text of an item, as \<open>write_menu\<close> and \<open>conf_write_symbol\<close> write it.\<close>

fun item_text :: "string \<Rightarrow> symtab \<Rightarrow> item \<Rightarrow> string" where
  "item_text pre sy (Comment l) = l @ newline"
| "item_text pre sy (Entry r sv) = (case saved_text (stype (sy r)) sv of
     None \<Rightarrow> ''''
   | Some v \<Rightarrow> kconfig_print_symbol pre False (sy r) v)"

fun item_ok :: "string \<Rightarrow> kstate \<Rightarrow> item \<Rightarrow> bool" where
  "item_ok pre s (Comment l) \<longleftrightarrow> line_ok l \<and> parse_line pre (l @ newline) = Some L_skip"
| "item_ok pre s (Entry r sv) \<longleftrightarrow> (\<exists>n. named s r n) \<and> saved_ok (stype (k_sym s r)) sv"

text \<open>Storing a value changes nothing that the other lines depend on.\<close>

lemma stores_other: "stores r d s s' \<Longrightarrow> q \<noteq> r \<Longrightarrow> \<not> sym_is_choice (k_sym s q) \<Longrightarrow> k_sym s' q = k_sym s q"
  by (simp add: stores_def)

lemma table_item:
  assumes "same_table s s'"
  shows "item_ok pre s' i = item_ok pre s i" "item_text pre (k_sym s') i = item_text pre (k_sym s) i"
proof -
  have "named s' q = named s q" for q
    using assms in_choice_table [OF assms] by (intro ext) (simp add: same_table_def named_def)
  then show "item_ok pre s' i = item_ok pre s i" using assms by (cases i) (simp_all add: same_table_def)
  show "item_text pre (k_sym s') i = item_text pre (k_sym s) i"
    using assms by (cases i) (simp_all add: same_table_def kconfig_print_symbol_def print_name_def split: option.split)
qed

lemma printed_item:
  assumes "item_ok pre s i" "prefix_ok pre"
  obtains l where "item_text pre (k_sym s) i = l @ newline" "line_ok l"
proof (cases i)
  case (Comment l)
  then show ?thesis using assms that [of l] by simp
next
  case (Entry r sv)
  then obtain n v where *: "named s r n" "saved_ok (stype (k_sym s r)) sv" "saved_text (stype (k_sym s r)) sv = Some v"
    using assms saved_text_total by fastforce
  then show ?thesis using printed_line [OF *(1) assms(2) saved_text_line [OF *(2,3)]] Entry that by auto
qed

text \<open>One item: a comment changes nothing, an entry stores its value.\<close>

lemma read_item:
  assumes "item_ok pre s i" "prefix_ok pre"
  shows "\<exists>s'. read_line pre S_DEF_USER (item_text pre (k_sym s) i) s = Some s' \<and>
    (case i of Comment l \<Rightarrow> s' = s | Entry r sv \<Rightarrow> has_saved s' r sv \<and> stores r S_DEF_USER s s')"
proof (cases i)
  case (Comment l)
  then show ?thesis using assms by (simp add: read_line_def)
next
  case (Entry r sv)
  then obtain n v where *: "named s r n" "saved_ok (stype (k_sym s r)) sv" "saved_text (stype (k_sym s r)) sv = Some v"
    using assms saved_text_total by fastforce
  show ?thesis using read_printed [OF *(1) assms(2) *(2,3)] Entry *(3) by simp
qed

text \<open>
  A whole file: every entry is stored, every other symbol is left alone.  A symbol may have several
  entries if they agree.
\<close>

definition consistent :: "item list \<Rightarrow> bool" where
  "consistent is \<longleftrightarrow> (\<forall>r sv sv'. Entry r sv \<in> set is \<longrightarrow> Entry r sv' \<in> set is \<longrightarrow> sv = sv')"

definition restored :: "item list \<Rightarrow> kstate \<Rightarrow> kstate \<Rightarrow> bool" where
  "restored is s s' \<longleftrightarrow>
     (\<forall>r sv. Entry r sv \<in> set is \<longrightarrow> has_saved s' r sv \<and> SYMBOL_DEF S_DEF_USER \<in> flags (k_sym s' r)) \<and>
     (\<forall>r. (\<forall>sv. Entry r sv \<notin> set is) \<longrightarrow> \<not> sym_is_choice (k_sym s r) \<longrightarrow> k_sym s' r = k_sym s r)"

lemma has_saved_cong: "k_sym s' r = k_sym s r \<Longrightarrow> has_saved s' r sv = has_saved s r sv"
  by (cases sv) simp_all

lemma restored_Entry:
  assumes "has_saved s1 r sv" "stores r S_DEF_USER s s1" "restored is s1 s'" "consistent (Entry r sv # is)" "\<not> sym_is_choice (k_sym s r)"
  shows "restored (Entry r sv # is) s s'"
proof -
  have c: "sym_is_choice (k_sym s1 q) = sym_is_choice (k_sym s q)" for q using assms(2) by (simp add: stores_def same_table_def)
  have "has_saved s' r sv \<and> SYMBOL_DEF S_DEF_USER \<in> flags (k_sym s' r)"
  proof (cases "\<exists>sv'. Entry r sv' \<in> set is")
    case True
    then obtain sv' where "Entry r sv' \<in> set is" by blast
    moreover from this have "sv' = sv" using assms(4) unfolding consistent_def by (meson list.set_intros)
    ultimately show ?thesis using assms(3) by (simp add: restored_def)
  next
    case False
    then have "k_sym s' r = k_sym s1 r" using assms(3,5) c by (simp add: restored_def)
    then show ?thesis using assms(1,2) has_saved_cong [of s' r s1] by (simp add: stores_def)
  qed
  then show ?thesis using assms(3) c stores_other [OF assms(2)] by (auto simp: restored_def)
qed

lemma read_file:
  assumes "prefix_ok pre" "\<forall>i \<in> set is. item_ok pre s i" "consistent is"
  shows "\<exists>s'. read_all pre S_DEF_USER (file_lines (concat (map (item_text pre (k_sym s)) is))) s = Some s' \<and> restored is s s'"
  using assms(2,3)
proof (induction "is" arbitrary: s)
  case Nil
  then show ?case by (subst file_lines.simps) (simp add: restored_def)
next
  case (Cons i js)
  obtain l where l: "item_text pre (k_sym s) i = l @ newline" "line_ok l"
    using printed_item [of pre s i] Cons.prems assms(1) by auto
  obtain s1 where s1: "read_line pre S_DEF_USER (l @ newline) s = Some s1"
    "case i of Comment l \<Rightarrow> s1 = s | Entry r sv \<Rightarrow> has_saved s1 r sv \<and> stores r S_DEF_USER s s1"
    using read_item [of pre s i] Cons.prems assms(1) l by auto
  have "same_table s s1"
    using s1(2) by (cases i) (auto simp: stores_def)
  note same = table_item [OF this]
  have "\<forall>j \<in> set js. item_ok pre s1 j" "consistent js"
    using Cons.prems same by (auto simp: consistent_def)
  from Cons.IH [OF this] obtain s' where
    s': "read_all pre S_DEF_USER (file_lines (concat (map (item_text pre (k_sym s)) js))) s1 = Some s'" "restored js s1 s'"
    unfolding same by auto
  have "read_all pre S_DEF_USER (file_lines (concat (map (item_text pre (k_sym s)) (i # js)))) s = Some s'"
    using s'(1) s1(1) l read_all_line [OF l(2)] by simp
  moreover have "restored (i # js) s s'"
  proof (cases i)
    case (Entry r sv)
    then show ?thesis using s1(2) s'(2) Cons.prems restored_Entry [of s1 r sv s js s'] by (auto simp: named_def)
  qed (use s1(2) s'(2) in \<open>auto simp: restored_def\<close>)
  ultimately show ?case by blast
qed

end
