(* ===== verification/Kconfig_Menu_Sem.thy ===== *)
theory Kconfig_Menu_Sem
  imports Kconfig_Conf_Write
begin

text \<open>
  The shape of the menu tree: what forest the \<open>list\<close>, \<open>next\<close> and \<open>parent\<close> pointers of the menus
  stand for, and that the loops of \<^verbatim>\<open>confdata.c\<close> which climb these pointers visit the forest
  in preorder.
\<close>

section \<open>Trees\<close>

datatype mtree = MNode (node: nat) (kids: "mtree list")

fun nodes :: "mtree \<Rightarrow> nat list" where
  "nodes (MNode m ts) = m # concat (map nodes ts)"

abbreviation all_nodes :: "mtree list \<Rightarrow> nat list" where
  "all_nodes ts \<equiv> concat (map nodes ts)"

text \<open>The menus from \<open>f\<close> along \<open>next\<close> to \<open>e\<close>, with the parent \<open>p\<close>, are the forest \<open>ts\<close>.\<close>

fun chain_ok :: "kstate \<Rightarrow> nat \<Rightarrow> nat option \<Rightarrow> mtree list \<Rightarrow> nat option \<Rightarrow> bool" where
  "chain_ok s p f [] e \<longleftrightarrow> f = e"
| "chain_ok s p f (MNode m cs # ts) e \<longleftrightarrow> f = Some m \<and> m_parent (k_menu s m) = Some p \<and>
     chain_ok s m (m_list (k_menu s m)) cs None \<and> chain_ok s p (m_next (k_menu s m)) ts e"

definition links :: "kstate \<Rightarrow> nat \<Rightarrow> nat option \<times> nat option \<times> nat option" where
  "links s m = (m_list (k_menu s m), m_next (k_menu s m), m_parent (k_menu s m))"

lemma links_iff:
  "links s' m = links s m \<longleftrightarrow> m_list (k_menu s' m) = m_list (k_menu s m) \<and>
     m_next (k_menu s' m) = m_next (k_menu s m) \<and> m_parent (k_menu s' m) = m_parent (k_menu s m)"
  by (auto simp: links_def)

lemma links_eq_iff:
  "links s' = links s \<longleftrightarrow> (\<forall>m. m_list (k_menu s' m) = m_list (k_menu s m) \<and>
     m_next (k_menu s' m) = m_next (k_menu s m) \<and> m_parent (k_menu s' m) = m_parent (k_menu s m))"
  by (simp add: fun_eq_iff links_iff)

lemma chain_cong:
  "(\<And>m. m \<in> set (all_nodes ts) \<Longrightarrow> links s' m = links s m) \<Longrightarrow> chain_ok s' p f ts e = chain_ok s p f ts e"
proof (induction s p f ts e rule: chain_ok.induct)
  case (2 s p f m cs ts e)
  have "links s' m = links s m" using "2.prems" by simp
  moreover have "chain_ok s' m (m_list (k_menu s m)) cs None = chain_ok s m (m_list (k_menu s m)) cs None"
    by (rule "2.IH"(1)) (rule "2.prems", simp)
  moreover have "chain_ok s' p (m_next (k_menu s m)) ts e = chain_ok s p (m_next (k_menu s m)) ts e"
    by (rule "2.IH"(2)) (rule "2.prems", simp)
  ultimately show ?case by (simp add: links_iff)
qed simp

lemma chain_links: "links s' = links s \<Longrightarrow> chain_ok s' p f ts e = chain_ok s p f ts e"
  by (rule chain_cong) simp

definition first_node :: "mtree list \<Rightarrow> nat option" where
  "first_node ts = (case ts of [] \<Rightarrow> None | t # _ \<Rightarrow> Some (node t))"

lemma chain_cases:
  obtains "ts = []" | m cs us where "ts = MNode m cs # us"
  by (cases ts) (auto intro: mtree.exhaust)

lemma chain_first: "chain_ok s p f ts None \<Longrightarrow> f = first_node ts"
  by (cases ts rule: chain_cases) (auto simp: first_node_def)

section \<open>The walk\<close>

text \<open>Parents are older than their children.\<close>

definition parents_older :: "kstate \<Rightarrow> bool" where
  "parents_older s \<longleftrightarrow> (\<forall>m p. m < k_nmenu s \<longrightarrow> m_parent (k_menu s m) = Some p \<longrightarrow> p < m)"

text \<open>\<open>pend\<close> is what remains of the walk after the menu \<open>m\<close> and everything below it.\<close>

inductive pending :: "kstate \<Rightarrow> nat \<Rightarrow> mtree list \<Rightarrow> bool" for s where
  root: "m_parent (k_menu s m) = None \<Longrightarrow> m_next (k_menu s m) = None \<Longrightarrow> pending s m []"
| child: "m_parent (k_menu s m) = Some p \<Longrightarrow> chain_ok s p (m_next (k_menu s m)) ts None \<Longrightarrow> pending s p rest \<Longrightarrow>
    pending s m (ts @ rest)"

lemma pending_first:
  assumes "chain_ok s p f (t # ts) None" "pending s p rest"
  shows "f = Some (node t)" "pending s (node t) (ts @ rest)" "chain_ok s (node t) (m_list (k_menu s (node t))) (kids t) None"
  using assms by (cases t; auto intro: pending.child)+

text \<open>A pending forest is empty, or its first tree is a child of some menu and the rest is pending there.\<close>

lemma pending_head:
  "pending s m (t # ts) \<Longrightarrow> pending s (node t) ts \<and> chain_ok s (node t) (m_list (k_menu s (node t))) (kids t) None"
proof (induction m "t # ts" arbitrary: rule: pending.induct)
  case (child m p us rest)
  show ?case
  proof (cases us)
    case Nil
    then show ?thesis using child by simp
  next
    case (Cons u us')
    then show ?thesis using child pending_first [of s p _ u us' rest] by auto
  qed
qed

lemma climb_pending:
  "pending s m pend \<Longrightarrow> parents_older s \<Longrightarrow> m_next (k_menu s m) = None \<Longrightarrow> m < n \<Longrightarrow> m < k_nmenu s \<Longrightarrow>
   menu_climb n s m = Some (first_node pend)"
proof (induction m pend arbitrary: n rule: pending.induct)
  case (root m)
  then show ?case by (cases n) (simp_all add: first_node_def)
next
  case (child m p ts rest)
  obtain k where n: "n = Suc k" using child.prems(3) by (cases n) auto
  have p: "p < m" using child.hyps(1) child.prems(1,4) by (simp add: parents_older_def)
  have ts: "ts = []"
  proof (cases ts)
    case (Cons t us)
    then show ?thesis using child.hyps(2) child.prems(2) by (cases t) auto
  qed simp
  show ?case
  proof (cases "m_next (k_menu s p)")
    case None
    then show ?thesis using child p n ts by simp
  next
    case (Some q)
    from child.hyps(3) Some have "first_node rest = Some q"
    proof cases
      case (child p' us rest')
      then show ?thesis using Some by (cases us rule: chain_cases) (auto simp: first_node_def)
    qed simp
    then show ?thesis using child.hyps(1) n ts Some by simp
  qed
qed

lemma after_pending:
  assumes "pending s m pend" "parents_older s" "chain_ok s m (m_list (k_menu s m)) cs None" "m < k_nmenu s"
  shows "menu_after s m = Some (first_node (cs @ pend))"
proof (cases cs)
  case (Cons t ts)
  then show ?thesis using assms(3) by (cases t) (auto simp: menu_after_def first_node_def)
next
  case Nil
  then have l: "m_list (k_menu s m) = None" using assms(3) by simp
  show ?thesis
  proof (cases "m_next (k_menu s m)")
    case None
    then show ?thesis using climb_pending [OF assms(1,2) None, of "loop_fuel s"] assms(4) l Nil
      by (simp add: menu_after_def loop_fuel_def del: menu_climb.simps)
  next
    case (Some q)
    from assms(1) Some have "first_node pend = Some q"
    proof cases
      case (child p us rest)
      then show ?thesis using Some by (cases us rule: chain_cases) (auto simp: first_node_def)
    qed simp
    then show ?thesis using Some l Nil by (simp add: menu_after_def)
  qed
qed

text \<open>Running a printer over a list of menus.\<close>

fun print_menus :: "menu_printer \<Rightarrow> nat list \<Rightarrow> kstate \<Rightarrow> (string \<times> kstate) option" where
  "print_menus body [] s = Some ('''', s)"
| "print_menus body (m # ms) s = do {
     (t, s) \<leftarrow> body m s;
     (ts, s) \<leftarrow> print_menus body ms s;
     Some (t @ ts, s)
   }"

text \<open>In the states that satisfy \<open>P\<close>, the printer leaves the links alone and keeps \<open>P\<close>.\<close>

definition keeps_links :: "(kstate \<Rightarrow> bool) \<Rightarrow> menu_printer \<Rightarrow> bool" where
  "keeps_links P body \<longleftrightarrow> (\<forall>m s t s'. P s \<longrightarrow> body m s = Some (t, s') \<longrightarrow>
     P s' \<and> links s' = links s \<and> k_nmenu s' = k_nmenu s)"

lemma pending_links: "pending s m pend \<Longrightarrow> links s' = links s \<Longrightarrow> pending s' m pend"
proof (induction m pend rule: pending.induct)
  case (root m)
  then show ?case by (simp add: pending.root links_eq_iff)
next
  case (child m p ts rest)
  then show ?case using chain_links [OF child.prems] by (intro pending.child) (auto simp: links_eq_iff)
qed

lemma next_ready:
  assumes "pending s q ts" "chain_ok s q (m_list (k_menu s q)) cs None" "cs @ ts = u # us"
  shows "pending s (node u) us" "chain_ok s (node u) (m_list (k_menu s (node u))) (kids u) None"
proof -
  have "pending s (node u) us \<and> chain_ok s (node u) (m_list (k_menu s (node u))) (kids u) None"
  proof (cases cs)
    case Nil
    then show ?thesis using pending_head assms(1,3) by simp
  next
    case (Cons c cs')
    then show ?thesis using pending_first(2,3) [of s q _ c cs' ts] assms by auto
  qed
  then show "pending s (node u) us" "chain_ok s (node u) (m_list (k_menu s (node u))) (kids u) None" by simp_all
qed

text \<open>The walk visits the menu, what is below it and what is pending, in order.\<close>

lemma walk_pending:
  assumes "keeps_links P body"
  shows "P s \<Longrightarrow> pending s q ts \<Longrightarrow> chain_ok s q (m_list (k_menu s q)) cs None \<Longrightarrow> parents_older s \<Longrightarrow>
    \<forall>m \<in> set (q # all_nodes (cs @ ts)). m < k_nmenu s \<Longrightarrow> length (all_nodes (cs @ ts)) + 1 < n \<Longrightarrow>
    walk_menus n body (Some q) s = print_menus body (q # all_nodes (cs @ ts)) s"
proof (induction n arbitrary: q cs ts s)
  case (Suc n)
  have next_part: "walk_menus n body (first_node (cs @ ts)) s' = print_menus body (all_nodes (cs @ ts)) s'"
    if l: "links s' = links s" "k_nmenu s' = k_nmenu s" "P s'" for s'
  proof (cases "cs @ ts")
    case Nil
    then show ?thesis using Suc.prems(6) by (cases n) (auto simp: first_node_def)
  next
    case (Cons u us)
    obtain r ks where u: "u = MNode r ks" by (cases u)
    have older: "parents_older s'" using Suc.prems(4) l by (simp add: parents_older_def links_eq_iff)
    have n: "\<forall>m \<in> set (r # all_nodes (ks @ us)). m < k_nmenu s'" "length (all_nodes (ks @ us)) + 1 < n"
      using Suc.prems(5,6) Cons u l(2) by auto
    have "pending s' r us" "chain_ok s' r (m_list (k_menu s' r)) ks None"
      using next_ready [OF Suc.prems(2,3) Cons] u pending_links [OF _ l(1)] chain_links [OF l(1)] l(1)
      by (auto simp: links_eq_iff)
    from Suc.IH [OF l(3) this older n] show ?thesis using Cons u by (simp add: first_node_def)
  qed
  have after: "menu_after s' q = Some (first_node (cs @ ts))" if l: "links s' = links s" "k_nmenu s' = k_nmenu s" for s'
  proof (rule after_pending)
    show "pending s' q ts" using pending_links Suc.prems(2) l(1) .
    show "parents_older s'" using Suc.prems(4) l by (simp add: parents_older_def links_eq_iff)
    show "chain_ok s' q (m_list (k_menu s' q)) cs None" using Suc.prems(3) chain_links [OF l(1)] l(1) by (simp add: links_eq_iff)
    show "q < k_nmenu s'" using Suc.prems(5) l(2) by simp
  qed
  show ?case
  proof (cases "body q s")
    case (Some x)
    obtain t s' where x: "x = (t, s')" by (cases x)
    have l: "links s' = links s" "k_nmenu s' = k_nmenu s" "P s'" using assms Suc.prems(1) Some x by (auto simp: keeps_links_def)
    show ?thesis using Some x after [OF l(1,2)] next_part [OF l] by simp
  qed simp
qed simp

text \<open>
  A whole tree below \<open>rootmenu\<close>: its preorder is the order in which the menus were allocated.
\<close>

definition menu_tree :: "kstate \<Rightarrow> mtree list \<Rightarrow> bool" where
  "menu_tree s ts \<longleftrightarrow> m_parent (k_menu s rootmenu) = None \<and> m_next (k_menu s rootmenu) = None \<and>
     chain_ok s rootmenu (m_list (k_menu s rootmenu)) ts None \<and> rootmenu # all_nodes ts = [0..<k_nmenu s]"

lemma chain_parents:
  "chain_ok s p f ts e \<Longrightarrow> sorted_wrt (<) (p # all_nodes ts) \<Longrightarrow> m \<in> set (all_nodes ts) \<Longrightarrow>
   \<exists>q. m_parent (k_menu s m) = Some q \<and> q < m"
proof (induction s p f ts e rule: chain_ok.induct)
  case (2 s p f n cs ts e)
  have "sorted_wrt (<) (n # all_nodes cs)" "sorted_wrt (<) (p # all_nodes ts)" "p < n"
    using "2.prems"(2) by (simp_all add: sorted_wrt_append)
  then show ?case using "2.IH" "2.prems" by auto
qed simp

lemma menu_tree_nodes:
  assumes "menu_tree s ts"
  shows "set (all_nodes ts) = {0<..<k_nmenu s}" "length (all_nodes ts) < k_nmenu s" "all_nodes ts = [1..<k_nmenu s]"
proof -
  have r: "0 # all_nodes ts = [0..<k_nmenu s]" using assms by (simp add: menu_tree_def)
  have l: "Suc (length (all_nodes ts)) = k_nmenu s" using arg_cong [OF r, of length] by simp
  show e: "all_nodes ts = [1..<k_nmenu s]" using r l by (metis One_nat_def list.inject upt_conv_Cons zero_less_Suc)
  show "length (all_nodes ts) < k_nmenu s" using l by simp
  show "set (all_nodes ts) = {0<..<k_nmenu s}" by (simp only: e set_upt) auto
qed

lemma menu_tree_older: "menu_tree s ts \<Longrightarrow> parents_older s"
proof -
  assume t: "menu_tree s ts"
  then have "sorted_wrt (<) (rootmenu # all_nodes ts)" by (simp only: menu_tree_def sorted_wrt_upt)
  then have "\<exists>q. m_parent (k_menu s m) = Some q \<and> q < m" if "m \<in> set (all_nodes ts)" for m
    using chain_parents t that unfolding menu_tree_def by blast
  moreover have "m \<in> set (all_nodes ts) \<or> m = 0" if "m < k_nmenu s" for m
    using menu_tree_nodes(1) [OF t] that by (auto simp only: greaterThanLessThan_iff)
  ultimately show ?thesis using t unfolding parents_older_def menu_tree_def by fastforce
qed

text \<open>The walk visits every menu once, in the order in which they were allocated.\<close>

lemma walk_tree:
  assumes "menu_tree s ts" "keeps_links P body" "P s"
  shows "walk_menus (loop_fuel s) body (m_list (k_menu s rootmenu)) s = print_menus body [1..<k_nmenu s] s"
proof (cases ts)
  case Nil
  then show ?thesis using assms(1) menu_tree_nodes(3) [OF assms(1)] by (simp add: menu_tree_def loop_fuel_def)
next
  case (Cons u us)
  obtain r ks where u: "u = MNode r ks" by (cases u)
  have p: "pending s rootmenu []" using assms(1) by (intro pending.root) (simp_all add: menu_tree_def)
  have c: "chain_ok s rootmenu (m_list (k_menu s rootmenu)) ts None" using assms(1) by (simp add: menu_tree_def)
  have q: "pending s r us" "chain_ok s r (m_list (k_menu s r)) ks None"
    using next_ready [OF p c] Cons u by auto
  have n: "r # all_nodes (ks @ us) = all_nodes ts" using Cons u by simp
  have "walk_menus (loop_fuel s) body (Some r) s = print_menus body (r # all_nodes (ks @ us)) s"
  proof (rule walk_pending [OF assms(2,3) q menu_tree_older [OF assms(1)]])
    show "\<forall>m \<in> set (r # all_nodes (ks @ us)). m < k_nmenu s"
      unfolding n menu_tree_nodes(1) [OF assms(1)] by simp
    show "length (all_nodes (ks @ us)) + 1 < loop_fuel s"
      using menu_tree_nodes(2) [OF assms(1)] unfolding n [symmetric] by (simp add: loop_fuel_def)
  qed
  moreover have "m_list (k_menu s rootmenu) = Some r" using c Cons u by simp
  ultimately show ?thesis by (simp only: n menu_tree_nodes(3) [OF assms(1)])
qed

end
