(* ===== verification/Kconfig_Menu_Build.thy ===== *)
theory Kconfig_Menu_Build
  imports Kconfig_Menu_Sem Kconfig_Calc_Frame
begin

text \<open>
  What the calls of the parser build.  \<open>spec_op\<close> gives the meaning of a call on the menus that are
  still open; \<open>build_rep\<close> relates these to the pointers of the menus and to the variables
  \<open>current_menu\<close>, \<open>current_entry\<close> and \<open>last_entry_ptr\<close> of \<^verbatim>\<open>menu.c\<close>; the functions of
  \<^verbatim>\<open>menu.c\<close> implement the specification.
\<close>

section \<open>Open menus\<close>

type_synonym frame = "nat \<times> mtree list"

fun frames_ok :: "kstate \<Rightarrow> nat option \<Rightarrow> frame list \<Rightarrow> bool" where
  "frames_ok s e [] \<longleftrightarrow> False"
| "frames_ok s e [(p, ts)] \<longleftrightarrow> p = rootmenu \<and> m_parent (k_menu s p) = None \<and> m_next (k_menu s p) = None \<and>
     chain_ok s p (m_list (k_menu s p)) ts e"
| "frames_ok s e ((p, ts) # (q, us) # fs) \<longleftrightarrow> m_parent (k_menu s p) = Some q \<and> m_next (k_menu s p) = None \<and>
     chain_ok s p (m_list (k_menu s p)) ts e \<and> frames_ok s (Some p) ((q, us) # fs)"

fun frame_nodes :: "frame list \<Rightarrow> nat list" where
  "frame_nodes [] = []"
| "frame_nodes ((p, ts) # fs) = frame_nodes fs @ p # all_nodes ts"

fun plug :: "frame list \<Rightarrow> mtree list" where
  "plug [] = []"
| "plug [(p, ts)] = ts"
| "plug ((p, ts) # (q, us) # fs) = plug ((q, us @ [MNode p ts]) # fs)"

lemma chain_append:
  "chain_ok s p f (ts @ us) e \<longleftrightarrow> (\<exists>m. chain_ok s p f ts m \<and> chain_ok s p m us e)"
  by (induction s p f ts e rule: chain_ok.induct) auto

lemma chain_snoc:
  "chain_ok s p f (ts @ [MNode m cs]) e \<longleftrightarrow> chain_ok s p f ts (Some m) \<and> m_parent (k_menu s m) = Some p \<and>
     chain_ok s m (m_list (k_menu s m)) cs None \<and> m_next (k_menu s m) = e"
  by (auto simp: chain_append)

lemma frames_close: "frames_ok s None ((p, ts) # (q, us) # fs) \<longleftrightarrow> frames_ok s None ((q, us @ [MNode p ts]) # fs)"
  by (cases fs) (auto simp: chain_snoc)

lemma frame_nodes_close: "frame_nodes ((q, us @ [MNode p ts]) # fs) = frame_nodes ((p, ts) # (q, us) # fs)"
  by simp

lemma plug_ok:
  "frames_ok s None fs \<Longrightarrow> frame_nodes fs = [0..<k_nmenu s] \<Longrightarrow> menu_tree s (plug fs)"
proof (induction fs rule: plug.induct)
  case (3 p ts q us fs)
  then show ?case using frames_close frame_nodes_close by (metis plug.simps(3))
qed (auto simp: menu_tree_def)

text \<open>Where \<open>last_entry_ptr\<close> points: behind the last entry of the innermost open menu.\<close>

fun frame_slot :: "frame list \<Rightarrow> menu_slot" where
  "frame_slot ((p, ts) # fs) = (if ts = [] then Slot_list p else Slot_next (node (last ts)))"
| "frame_slot [] = Slot_list rootmenu"

lemma frames_cong:
  "(\<And>m. m \<in> set (frame_nodes fs) \<Longrightarrow> links s' m = links s m) \<Longrightarrow> frames_ok s' e fs = frames_ok s e fs"
proof (induction s e fs rule: frames_ok.induct)
  case (2 s e p ts)
  then have "links s' p = links s p" "chain_ok s' p f ts e = chain_ok s p f ts e" for f
    by (auto intro!: chain_cong)
  then show ?case by (simp add: links_iff)
next
  case (3 s e p ts q us fs)
  have "links s' p = links s p" "chain_ok s' p f ts e = chain_ok s p f ts e" for f
    using "3.prems" by (auto intro!: chain_cong)
  moreover have "frames_ok s' (Some p) ((q, us) # fs) = frames_ok s (Some p) ((q, us) # fs)"
    by (rule "3.IH") (rule "3.prems", auto)
  ultimately show ?case by (simp add: links_iff)
qed simp

lemma upd_menu_apply [simp]: "k_menu (upd_menu m f s) x = (if x = m then f (k_menu s m) else k_menu s x)"
  by (simp add: upd_menu_def)

lemma upd_menu_nmenu [simp]: "k_nmenu (upd_menu m f s) = k_nmenu s"
  by (simp add: upd_menu_def)

lemma node_nodes: "node t \<in> set (nodes t)"
  by (cases t) simp

lemma chain_extend:
  assumes "chain_ok s p f ts e" "ts \<noteq> []" "distinct (all_nodes ts)"
  shows "chain_ok (upd_menu (node (last ts)) (\<lambda>x. x\<lparr>m_next := v\<rparr>) s) p f ts v"
proof -
  obtain us m cs where ts: "ts = us @ [MNode m cs]"
    using assms(2) by (metis append_butlast_last_id mtree.exhaust)
  have d: "m \<notin> set (all_nodes us)" "m \<notin> set (all_nodes cs)" using assms(3) ts by auto
  let ?s = "upd_menu m (\<lambda>x. x\<lparr>m_next := v\<rparr>) s"
  have "chain_ok ?s p f us (Some m) = chain_ok s p f us (Some m)"
    "chain_ok ?s m (m_list (k_menu s m)) cs None = chain_ok s m (m_list (k_menu s m)) cs None"
    using d by (auto intro!: chain_cong simp: links_iff)
  then show ?thesis using assms(1) ts by (simp add: chain_snoc)
qed

section \<open>The other operations of the builder\<close>

definition same_tree :: "kstate \<Rightarrow> kstate \<Rightarrow> bool" where
  "same_tree s s' \<longleftrightarrow> links s' = links s \<and> k_nmenu s' = k_nmenu s \<and> k_current_menu s' = k_current_menu s \<and>
     k_last_entry s' = k_last_entry s \<and> k_current_entry s' = k_current_entry s"

lemma same_tree_refl [simp]: "same_tree s s"
  by (simp add: same_tree_def)

lemma same_tree_trans [trans]: "same_tree s s' \<Longrightarrow> same_tree s' s'' \<Longrightarrow> same_tree s s''"
  by (simp add: same_tree_def)

lemma upd_sym_tree [simp]: "same_tree s (upd_sym r f s') \<longleftrightarrow> same_tree s s'"
  by (simp add: same_tree_def upd_sym_def links_eq_iff)

lemma set_flags_tree [simp]: "same_tree s (set_flags r fs s') \<longleftrightarrow> same_tree s s'"
  by (simp add: set_flags_def)

lemma upd_prop_tree [simp]: "same_tree s (upd_prop p f s') \<longleftrightarrow> same_tree s s'"
  by (simp add: same_tree_def upd_prop_def links_eq_iff)

lemma add_log_tree [simp]: "same_tree s (add_log msg s') \<longleftrightarrow> same_tree s s'"
  by (simp add: same_tree_def add_log_def links_eq_iff)

lemma upd_prop_tree2 [simp]: "same_tree (upd_prop p f s) s' \<longleftrightarrow> same_tree s s'"
  by (simp add: same_tree_def upd_prop_def links_eq_iff)

lemma variables_tree [simp]:
  "same_tree s (s'\<lparr>k_modules_sym := r\<rparr>) \<longleftrightarrow> same_tree s s'"
  "same_tree s (s'\<lparr>k_defconfig_list := r\<rparr>) \<longleftrightarrow> same_tree s s'"
  "same_tree s (s'\<lparr>k_env_list := e\<rparr>) \<longleftrightarrow> same_tree s s'"
  by (simp_all add: same_tree_def links_eq_iff)

lemma upd_menu_tree:
  assumes "\<And>x. m_list (f x) = m_list x \<and> m_next (f x) = m_next x \<and> m_parent (f x) = m_parent x"
  shows "same_tree s (upd_menu m f s)"
  using assms by (simp add: same_tree_def upd_menu_def links_eq_iff)

lemma prop_alloc_tree: "prop_alloc t r s = (p, s') \<Longrightarrow> same_tree s s'"
  by (auto simp: prop_alloc_def Let_def same_tree_def upd_sym_def links_eq_iff split: option.splits)

lemma set_prompt_tree: "set_prompt p t str s = Some s' \<Longrightarrow> same_tree s s'"
  by (auto simp: set_prompt_def Let_def same_tree_def upd_prop_def upd_menu_def add_log_def set_visible_expr_def
      links_eq_iff elim!: bind_SomeE if_SomeE split: if_splits)

lemma menu_add_prop_tree:
  assumes "menu_add_prop t prompt e dep s = Some (p, s')"
  shows "same_tree s s'"
proof -
  obtain q s1 where a: "prop_alloc t (m_sym (k_menu s (k_current_entry s))) s = (q, s1)"
    by (cases "prop_alloc t (m_sym (k_menu s (k_current_entry s))) s")
  obtain d where d: "menu_check_dep s1 dep = Some d"
    and r: "(case prompt of None \<Rightarrow> Some (upd_prop q (\<lambda>x. x\<lparr>p_menu := Some (k_current_entry s), p_expr := e,
        p_visible := (p_visible x)\<lparr>ev_expr := d\<rparr>\<rparr>) s1)
      | Some txt \<Rightarrow> set_prompt q t txt (upd_prop q (\<lambda>x. x\<lparr>p_menu := Some (k_current_entry s), p_expr := e,
        p_visible := (p_visible x)\<lparr>ev_expr := d\<rparr>\<rparr>) s1)) = Some s'"
    using assms a by (auto simp: menu_add_prop_def Let_def elim!: bind_SomeE)
  have "same_tree s s1" using prop_alloc_tree [OF a] .
  also have "same_tree s1 s'"
    using r by (auto split: option.splits dest!: set_prompt_tree intro: same_tree_trans )
  finally show ?thesis .
qed

lemma menu_add_symbol_tree: "menu_add_symbol t r dep s = Some s' \<Longrightarrow> same_tree s s'"
  by (auto simp: menu_add_symbol_def dest: menu_add_prop_tree)

lemma menu_add_expr_tree: "menu_add_expr t e dep s = Some s' \<Longrightarrow> same_tree s s'"
  by (auto simp: menu_add_expr_def dest: menu_add_prop_tree)

lemma menu_add_dep_tree: "menu_add_dep dep s = Some s' \<Longrightarrow> same_tree s s'"
  by (auto simp: menu_add_dep_def upd_menu_tree elim!: bind_SomeE)

lemma menu_set_type_tree: "menu_set_type t s = Some s' \<Longrightarrow> same_tree s s'"
  by (auto simp: menu_set_type_def set_stype_def Let_def elim!: bind_SomeE if_SomeE)

lemma menu_add_visibility_tree: "same_tree s (menu_add_visibility e s)"
  by (simp add: menu_add_visibility_def upd_menu_tree)

lemma sym_lookup_tree: "sym_lookup n fl s = (r, s') \<Longrightarrow> same_tree s s'"
  by (auto simp: sym_lookup_def new_symbol_def Let_def same_tree_def links_eq_iff split: option.splits if_splits)

lemma sym_add_default_tree: "same_tree s (sym_add_default r str s)"
  by (auto simp: sym_add_default_def Let_def split: prod.splits dest!: prop_alloc_tree sym_lookup_tree
      intro: same_tree_trans)

lemma prop_add_env_tree:
  assumes "prop_add_env getenv env s = Some s'"
  shows "same_tree s s'"
proof -
  obtain r where r: "m_sym (k_menu s (k_current_entry s)) = Some r" using assms by (auto simp: prop_add_env_def elim: bind_SomeE)
  let ?s = "set_flags r {SYMBOL_AUTO} s"
  show ?thesis
  proof (cases "props_of ?s r P_ENV")
    case (Cons p ps)
    then show ?thesis using assms r
      by (auto simp: prop_add_env_def Let_def elim!: bind_SomeE intro: same_tree_trans )
  next
    case Nil
    obtain p s1 c s2 where a: "prop_alloc P_ENV (Some r) ?s = (p, s1)" "sym_lookup (Some env) {SYMBOL_CONST} s1 = (c, s2)"
      by fastforce
    let ?t = "(upd_prop p (\<lambda>x. x\<lparr>p_expr := Some (E_SYMBOL c)\<rparr>) s2)"
    let ?u = "?t\<lparr>k_env_list := Some (E_LIST (k_env_list ?t) r)\<rparr>"
    have "same_tree s ?s" by simp
    also have "same_tree ?s s1" using prop_alloc_tree [OF a(1)] .
    also have "same_tree s1 s2" using sym_lookup_tree [OF a(2)] .
    also have "same_tree s2 ?t" by simp
    also have "same_tree ?t ?u" by simp
    also have "same_tree ?u s'" using assms r Nil a
      by (auto simp: prop_add_env_def Let_def sym_add_default_tree split: option.splits)
    finally show ?thesis .
  qed
qed

lemma menu_add_option_tree: "menu_add_option getenv token arg s = Some s' \<Longrightarrow> same_tree s s'"
  by (cases token) (auto simp: menu_add_option_def prop_add_env_tree
      elim!: bind_SomeE split: option.splits if_splits)

section \<open>The builder\<close>

text \<open>The calls that the parser makes.\<close>

datatype build_op =
    B_entry "symref option"
  | B_menu
  | B_end
  | B_dep "expr option"
  | B_type symbol_type
  | B_visibility "expr option"
  | B_prompt prop_type string "expr option"
  | B_expr prop_type "expr option" "expr option"
  | B_symbol prop_type symref "expr option"
  | B_option opt_token string

fun run_op :: "(string \<Rightarrow> string option) \<Rightarrow> build_op \<Rightarrow> kstate \<Rightarrow> kstate option" where
  "run_op getenv (B_entry r) s = menu_add_entry r s"
| "run_op getenv B_menu s = Some (menu_add_menu s)"
| "run_op getenv B_end s = menu_end_menu s"
| "run_op getenv (B_dep e) s = menu_add_dep e s"
| "run_op getenv (B_type t) s = menu_set_type t s"
| "run_op getenv (B_visibility e) s = Some (menu_add_visibility e s)"
| "run_op getenv (B_prompt t str e) s = map_option snd (menu_add_prompt t str e s)"
| "run_op getenv (B_expr t e dep) s = menu_add_expr t e dep s"
| "run_op getenv (B_symbol t r dep) s = menu_add_symbol t r dep s"
| "run_op getenv (B_option t arg) s = menu_add_option getenv t arg s"

fun run_ops :: "(string \<Rightarrow> string option) \<Rightarrow> build_op list \<Rightarrow> kstate \<Rightarrow> kstate option" where
  "run_ops getenv [] s = Some s"
| "run_ops getenv (b # bs) s = do {
     s \<leftarrow> run_op getenv b s;
     run_ops getenv bs s
   }"

text \<open>
  What the calls mean on the tree: the menus still open, the innermost first, each with the entries
  already in it; the next free menu; and whether the last entry is new, so that it may be opened.
\<close>

record builder =
  fresh :: bool
  next_menu :: nat
  open_menus :: "frame list"

definition start :: builder where
  "start = \<lparr>fresh = False, next_menu = 1, open_menus = [(rootmenu, [])]\<rparr>"

fun spec_op :: "build_op \<Rightarrow> builder \<Rightarrow> builder option" where
  "spec_op (B_entry r) b = (case open_menus b of
     [] \<Rightarrow> None
   | (p, ts) # fs \<Rightarrow> Some \<lparr>fresh = True, next_menu = Suc (next_menu b),
       open_menus = (p, ts @ [MNode (next_menu b) []]) # fs\<rparr>)"
| "spec_op B_menu b = (case open_menus b of
     [] \<Rightarrow> None
   | (p, ts) # fs \<Rightarrow> if fresh b
       then Some (b\<lparr>fresh := False, open_menus := (node (last ts), []) # (p, butlast ts) # fs\<rparr>) else None)"
| "spec_op B_end b = (case open_menus b of
     (p, ts) # (q, us) # fs \<Rightarrow> Some (b\<lparr>fresh := False, open_menus := (q, us @ [MNode p ts]) # fs\<rparr>)
   | _ \<Rightarrow> None)"
| "spec_op _ b = Some b"

fun spec_ops :: "build_op list \<Rightarrow> builder \<Rightarrow> builder option" where
  "spec_ops [] b = Some b"
| "spec_ops (x # xs) b = do {
     b \<leftarrow> spec_op x b;
     spec_ops xs b
   }"

definition build_rep :: "kstate \<Rightarrow> builder \<Rightarrow> bool" where
  "build_rep s b \<longleftrightarrow> frames_ok s None (open_menus b) \<and> frame_nodes (open_menus b) = [0..<k_nmenu s] \<and>
     next_menu b = k_nmenu s \<and> k_current_menu s = fst (hd (open_menus b)) \<and> k_last_entry s = frame_slot (open_menus b) \<and>
     (fresh b \<longrightarrow> snd (hd (open_menus b)) \<noteq> [] \<and> last (snd (hd (open_menus b))) = MNode (k_current_entry s) [])"

lemma build_rep_same: "same_tree s s' \<Longrightarrow> build_rep s b \<Longrightarrow> build_rep s' b"
  using frames_cong [of "open_menus b" s' s None] by (simp add: build_rep_def same_tree_def)

lemma build_rep_Cons:
  assumes "build_rep s b"
  obtains p ts fs where "open_menus b = (p, ts) # fs"
  using assms by (cases "open_menus b") (auto simp: build_rep_def)

lemma frames_replace:
  assumes "frames_ok s None ((p, ts) # fs)" "m_parent (k_menu s' p) = m_parent (k_menu s p)"
    "m_next (k_menu s' p) = m_next (k_menu s p)" "\<And>x. x \<in> set (frame_nodes fs) \<Longrightarrow> links s' x = links s x"
    "chain_ok s' p (m_list (k_menu s' p)) us None"
  shows "frames_ok s' None ((p, us) # fs)"
proof (cases fs)
  case Nil
  then show ?thesis using assms by auto
next
  case (Cons g gs)
  obtain q vs where g: "g = (q, vs)" by (cases g)
  have "frames_ok s' (Some p) fs = frames_ok s (Some p) fs" by (rule frames_cong) (rule assms(4))
  then show ?thesis using assms Cons g by simp
qed

text \<open>The state in which \<open>menu_add_entry\<close> has linked the new menu.\<close>

definition add_leaf :: "symref option \<Rightarrow> kstate \<Rightarrow> kstate" where
  "add_leaf r s =
     (let m = k_nmenu s;
          s = s\<lparr>k_nmenu := Suc m, k_menu := (k_menu s)(m := new_menu r (Some (k_current_menu s)))\<rparr>;
          s = write_slot (k_last_entry s) (Some m) s
      in s\<lparr>k_last_entry := Slot_next m, k_current_entry := m\<rparr>)"

lemma add_entry_leaf: "\<exists>s'. menu_add_entry r s = Some s' \<and> same_tree (add_leaf r s) s'"
proof (cases r)
  case None
  then show ?thesis by (simp add: menu_add_entry_def add_leaf_def Let_def)
next
  case (Some q)
  have "\<exists>s'. menu_add_symbol P_SYMBOL q None (add_leaf r s) = Some s'"
    by (simp add: menu_add_symbol_def menu_add_prop_def menu_check_dep_def Let_def split: prod.splits)
  then show ?thesis using Some menu_add_symbol_tree [of P_SYMBOL q None "add_leaf r s"]
    by (auto simp: menu_add_entry_def add_leaf_def Let_def)
qed

lemma add_leaf_fields:
  "k_nmenu (add_leaf r s) = Suc (k_nmenu s)" "k_current_menu (add_leaf r s) = k_current_menu s"
  "k_last_entry (add_leaf r s) = Slot_next (k_nmenu s)" "k_current_entry (add_leaf r s) = k_nmenu s"
  by (auto simp: add_leaf_def write_slot_def upd_menu_def Let_def split: menu_slot.split)

lemma add_leaf_menu:
  "k_menu (add_leaf r s) x = (let k = (k_menu s)(k_nmenu s := new_menu r (Some (k_current_menu s))) in case k_last_entry s of
     Slot_next m \<Rightarrow> if x = m then (k m)\<lparr>m_next := Some (k_nmenu s)\<rparr> else k x
   | Slot_list m \<Rightarrow> if x = m then (k m)\<lparr>m_list := Some (k_nmenu s)\<rparr> else k x)"
  by (auto simp: add_leaf_def write_slot_def upd_menu_def Let_def split: menu_slot.split)

lemma add_leaf_other:
  "k_last_entry s = frame_slot ((p, ts) # fs) \<Longrightarrow> x \<noteq> k_nmenu s \<Longrightarrow> (ts = [] \<Longrightarrow> x \<noteq> p) \<Longrightarrow> (ts \<noteq> [] \<Longrightarrow> x \<noteq> node (last ts)) \<Longrightarrow>
   k_menu (add_leaf r s) x = k_menu s x"
  by (cases "ts = []") (simp_all add: add_leaf_menu Let_def)

lemma leaf_chain:
  assumes "chain_ok s p (m_list (k_menu s p)) ts None" "distinct (p # all_nodes ts)"
    "m = k_nmenu s" "m \<notin> set (p # all_nodes ts)" "k_current_menu s = p" "k_last_entry s = frame_slot ((p, ts) # fs)"
  shows "chain_ok (add_leaf r s) p (m_list (k_menu (add_leaf r s) p)) (ts @ [MNode m []]) None"
proof (cases "ts = []")
  case True
  then show ?thesis using assms by (auto simp: add_leaf_menu new_menu_def Let_def)
next
  case False
  let ?l = "node (last ts)"
  let ?s = "upd_menu ?l (\<lambda>x. x\<lparr>m_next := Some m\<rparr>) s"
  have l: "?l \<in> set (all_nodes ts)" using False node_nodes by (auto intro!: bexI [of _ "last ts"])
  have "chain_ok (add_leaf r s) p f ts (Some m) = chain_ok ?s p f ts (Some m)" for f
    by (rule chain_cong) (use assms(3,4,6) False in \<open>auto simp: links_iff add_leaf_menu Let_def\<close>)
  then have "chain_ok (add_leaf r s) p (m_list (k_menu s p)) ts (Some m)"
    using chain_extend [OF assms(1) False, of "Some m"] assms(2) by simp
  moreover have "m_list (k_menu (add_leaf r s) p) = m_list (k_menu s p)"
    using assms(3,4,6) False by (auto simp: add_leaf_menu Let_def)
  moreover have "?l \<noteq> m" using l assms(4) by auto
  ultimately show ?thesis using assms(5,6) False assms(3) by (simp add: chain_snoc add_leaf_menu new_menu_def Let_def)
qed

lemma entry_rep:
  assumes b: "build_rep s b" "open_menus b = (p, ts) # fs"
  shows "\<exists>s'. menu_add_entry r s = Some s' \<and>
    build_rep s' \<lparr>fresh = True, next_menu = Suc (next_menu b), open_menus = (p, ts @ [MNode (next_menu b) []]) # fs\<rparr>"
proof -
  define m where "m = k_nmenu s"
  have n: "frame_nodes fs @ p # all_nodes ts = [0..<m]" and nm: "next_menu b = m" using b by (simp_all add: build_rep_def m_def)
  have d: "distinct (frame_nodes fs @ p # all_nodes ts)" unfolding n by simp
  have m: "m \<notin> set (frame_nodes fs @ p # all_nodes ts)" unfolding n by simp
  have f: "frames_ok s None ((p, ts) # fs)" using b by (simp add: build_rep_def)
  then have c: "chain_ok s p (m_list (k_menu s p)) ts None" by (cases fs) auto
  have slot: "k_last_entry s = frame_slot ((p, ts) # fs)" "k_current_menu s = p" using b by (simp_all add: build_rep_def)
  have l: "node (last ts) \<in> set (all_nodes ts)" if "ts \<noteq> []"
    using that node_nodes by (auto intro!: bexI [of _ "last ts"])
  have "frames_ok (add_leaf r s) None ((p, ts @ [MNode m []]) # fs)"
  proof (rule frames_replace [OF f])
    show "m_parent (k_menu (add_leaf r s) p) = m_parent (k_menu s p)"
      "m_next (k_menu (add_leaf r s) p) = m_next (k_menu s p)"
      using slot d m l by (auto simp: add_leaf_menu m_def Let_def)
    show "links (add_leaf r s) x = links s x" if "x \<in> set (frame_nodes fs)" for x
    proof -
      have "x \<noteq> m" "x \<noteq> p" "x \<notin> set (all_nodes ts)" using that d m by auto
      then have "k_menu (add_leaf r s) x = k_menu s x" using add_leaf_other [OF slot(1)] l m_def by metis
      then show ?thesis by (simp add: links_def)
    qed
    show "chain_ok (add_leaf r s) p (m_list (k_menu (add_leaf r s) p)) (ts @ [MNode m []]) None"
      using leaf_chain [OF c _ _ _ slot(2,1)] d m by (simp add: m_def)
  qed
  then have "build_rep (add_leaf r s) \<lparr>fresh = True, next_menu = Suc m, open_menus = (p, ts @ [MNode m []]) # fs\<rparr>"
    using n slot by (simp add: build_rep_def add_leaf_fields m_def)
  then show ?thesis using add_entry_leaf [of r s] build_rep_same nm by auto
qed

lemma menu_rep:
  assumes "build_rep s b" "open_menus b = (p, ts) # fs" "fresh b"
  shows "build_rep (menu_add_menu s) (b\<lparr>fresh := False, open_menus := (node (last ts), []) # (p, butlast ts) # fs\<rparr>)"
proof -
  obtain us m where ts: "ts = us @ [MNode m []]" "m = k_current_entry s"
    using assms by (metis append_butlast_last_id build_rep_def fst_conv list.sel(1) snd_conv)
  have "links (menu_add_menu s) = links s" by (simp add: menu_add_menu_def links_eq_iff)
  then have "frames_ok (menu_add_menu s) None ((p, ts) # fs)"
    using frames_cong [of "(p, ts) # fs" "menu_add_menu s" s] assms by (simp add: build_rep_def)
  then show ?thesis using assms ts frames_close [of "menu_add_menu s" m "[]" p us fs]
    by (simp add: build_rep_def menu_add_menu_def)
qed

lemma end_rep:
  assumes "build_rep s b" "open_menus b = (p, ts) # (q, us) # fs"
  shows "\<exists>s'. menu_end_menu s = Some s' \<and> build_rep s' (b\<lparr>fresh := False, open_menus := (q, us @ [MNode p ts]) # fs\<rparr>)"
proof -
  have q: "m_parent (k_menu s (k_current_menu s)) = Some q" "k_current_menu s = p" using assms by (auto simp: build_rep_def)
  let ?s = "s\<lparr>k_last_entry := Slot_next p, k_current_menu := q\<rparr>"
  have "links ?s = links s" by (simp add: links_eq_iff)
  then have "frames_ok ?s None ((p, ts) # (q, us) # fs)"
    using frames_cong [of "(p, ts) # (q, us) # fs" ?s s] assms by (simp add: build_rep_def del: frames_ok.simps)
  then have "frames_ok ?s None ((q, us @ [MNode p ts]) # fs)" unfolding frames_close .
  then have "build_rep ?s (b\<lparr>fresh := False, open_menus := (q, us @ [MNode p ts]) # fs\<rparr>)"
    using assms by (simp add: build_rep_def)
  then show ?thesis using q by (simp add: menu_end_menu_def)
qed

text \<open>Every call that the specification allows has the meaning it gives, if it returns; the three
  that change the tree do return.\<close>

fun changes_tree :: "build_op \<Rightarrow> bool" where
  "changes_tree (B_entry r) = True"
| "changes_tree B_menu = True"
| "changes_tree B_end = True"
| "changes_tree b = False"

lemma tree_op_rep:
  assumes "build_rep s b" "spec_op x b = Some b'" "changes_tree x"
  shows "\<exists>s'. run_op getenv x s = Some s' \<and> build_rep s' b'"
  using assms
proof (cases x)
  case (B_entry r)
  then show ?thesis using entry_rep [OF assms(1), of _ _ _ r] assms(2) by (auto split: list.splits)
next
  case B_menu
  then show ?thesis using menu_rep [OF assms(1)] assms(2) by (auto split: list.splits if_splits)
next
  case B_end
  then show ?thesis using end_rep [OF assms(1)] assms(2) by (auto split: list.splits)
qed simp_all

lemma op_rep:
  assumes "build_rep s b" "spec_op x b = Some b'" "run_op getenv x s = Some s'"
  shows "build_rep s' b'"
proof (cases "changes_tree x")
  case True
  then show ?thesis using tree_op_rep [OF assms(1,2) True, of getenv] assms(3) by simp
next
  case False
  then have "b' = b" using assms(2) by (cases x) auto
  moreover have "same_tree s s'" using False assms(3)
    by (cases x) (auto simp: menu_add_prompt_def menu_add_visibility_tree menu_add_prop_tree menu_add_symbol_tree
      menu_add_expr_tree menu_add_dep_tree menu_set_type_tree menu_add_option_tree)
  ultimately show ?thesis using build_rep_same assms(1) by simp
qed

lemma ops_rep:
  "build_rep s b \<Longrightarrow> spec_ops xs b = Some b' \<Longrightarrow> run_ops getenv xs s = Some s' \<Longrightarrow> build_rep s' b'"
  by (induction xs arbitrary: s b) (auto elim!: bind_SomeE dest: op_rep)

lemma tree_ops_rep:
  "build_rep s b \<Longrightarrow> spec_ops xs b = Some b' \<Longrightarrow> \<forall>x \<in> set xs. changes_tree x \<Longrightarrow>
   \<exists>s'. run_ops getenv xs s = Some s' \<and> build_rep s' b'"
proof (induction xs arbitrary: s b)
  case (Cons x xs)
  obtain b1 where b: "spec_op x b = Some b1" "spec_ops xs b1 = Some b'" using Cons.prems(2) by (auto elim: bind_SomeE)
  obtain s1 where "run_op getenv x s = Some s1" "build_rep s1 b1"
    using tree_op_rep [OF Cons.prems(1) b(1)] Cons.prems(3) by auto
  then show ?case using Cons.IH [OF _ b(2)] Cons.prems(3) by simp
qed simp

definition no_menus :: "kstate \<Rightarrow> bool" where
  "no_menus s \<longleftrightarrow> k_nmenu s = 1 \<and> links s rootmenu = (None, None, None)"

lemma start_rep: "no_menus s \<Longrightarrow> build_rep (menu_init s) start"
  by (simp add: no_menus_def build_rep_def menu_init_def start_def links_def)

lemma build_rep_tree: "build_rep s b \<Longrightarrow> menu_tree s (plug (open_menus b))"
  by (rule plug_ok) (simp_all add: build_rep_def)

end
