(* ===== verification/Kconfig_Menu_Final.thy ===== *)
theory Kconfig_Menu_Final
  imports Kconfig_Menu_Build
begin

text \<open>
  What \<open>menu_finalize\<close> does to the tree.  It gives an entry the later siblings that depend on it as
  children, and it gives the children of an entry without a prompt to the parent; both moves leave
  the preorder of the tree as it was.  All the other work of the function leaves the links alone.
\<close>


lemma last_node: "us \<noteq> [] \<Longrightarrow> node (last us) \<in> set (all_nodes us)"
  using node_nodes by (auto intro!: bexI [of _ "last us"])

section \<open>Reshaping\<close>

definition same_links :: "nat set \<Rightarrow> kstate \<Rightarrow> kstate \<Rightarrow> bool" where
  "same_links X s s' \<longleftrightarrow> (\<forall>x. x \<notin> X \<longrightarrow> links s' x = links s x) \<and> k_nmenu s' = k_nmenu s"

lemma same_links_refl [simp]: "same_links X s s"
  by (simp add: same_links_def)

lemma same_links_trans: "same_links X s s' \<Longrightarrow> same_links Y s' s'' \<Longrightarrow> X \<subseteq> Z \<Longrightarrow> Y \<subseteq> Z \<Longrightarrow> same_links Z s s''"
  unfolding same_links_def by (metis subsetD)

lemma same_links_chain: "same_links X s s' \<Longrightarrow> X \<inter> set (all_nodes ts) = {} \<Longrightarrow> chain_ok s' p f ts e = chain_ok s p f ts e"
  by (rule chain_cong) (auto simp: same_links_def)

lemma same_links_at:
  assumes "same_links X s s'" "m \<notin> X"
  shows "m_list (k_menu s' m) = m_list (k_menu s m)" "m_next (k_menu s' m) = m_next (k_menu s m)"
    "m_parent (k_menu s' m) = m_parent (k_menu s m)"
  using assms by (auto simp: same_links_def links_def)

text \<open>
  \<open>m\<close> has the children \<open>cs\<close> and, in the list of \<open>q\<close>, the later siblings \<open>ts\<close>.
\<close>

definition at_menu :: "kstate \<Rightarrow> nat \<Rightarrow> nat \<Rightarrow> mtree list \<Rightarrow> mtree list \<Rightarrow> bool" where
  "at_menu s q m cs ts \<longleftrightarrow> chain_ok s m (m_list (k_menu s m)) cs None \<and> chain_ok s q (m_next (k_menu s m)) ts None \<and>
     distinct (m # all_nodes (cs @ ts))"

text \<open>
  The step moves menus between the children of \<open>m\<close> and the siblings after it, without changing the
  preorder.
\<close>

definition reshapes :: "nat \<Rightarrow> (nat \<Rightarrow> kstate \<Rightarrow> kstate option) \<Rightarrow> bool" where
  "reshapes q body \<longleftrightarrow> (\<forall>s m cs ts s'. at_menu s q m cs ts \<longrightarrow> body m s = Some s' \<longrightarrow>
     m_parent (k_menu s' m) = m_parent (k_menu s m) \<and> same_links (set (m # all_nodes (cs @ ts))) s s' \<and>
     (\<exists>cs' ts'. at_menu s' q m cs' ts' \<and> all_nodes (cs' @ ts') = all_nodes (cs @ ts)))"

lemma reshapesE:
  assumes "reshapes q body" "at_menu s q m cs ts" "body m s = Some s'"
  obtains cs' ts' where "at_menu s' q m cs' ts'" "all_nodes (cs' @ ts') = all_nodes (cs @ ts)"
    "m_parent (k_menu s' m) = m_parent (k_menu s m)" "same_links (set (m # all_nodes (cs @ ts))) s s'"
  using assms unfolding reshapes_def by meson

lemma for_menus_reshape:
  assumes "reshapes p body"
  shows "chain_ok s p f ts None \<Longrightarrow> distinct (all_nodes ts) \<Longrightarrow> for_menus n body f s = Some s' \<Longrightarrow>
    \<exists>ts'. chain_ok s' p f ts' None \<and> all_nodes ts' = all_nodes ts \<and> same_links (set (all_nodes ts)) s s'"
proof (induction n arbitrary: f ts s)
  case (Suc n)
  show ?case
  proof (cases ts rule: chain_cases)
    case 1
    then show ?thesis using Suc.prems by (auto intro!: exI [of _ "[]"])
  next
    case (2 m cs us)
    have f: "f = Some m" "m_parent (k_menu s m) = Some p" using Suc.prems(1) 2 by auto
    obtain s1 where s1: "body m s = Some s1" "for_menus n body (m_next (k_menu s1 m)) s1 = Some s'"
      using Suc.prems(3) f by (auto elim: bind_SomeE)
    have "at_menu s p m cs us" using Suc.prems 2 by (simp add: at_menu_def)
    from reshapesE [OF assms this s1(1)] obtain cs1 us1 where
      a: "at_menu s1 p m cs1 us1" and n: "all_nodes (cs1 @ us1) = all_nodes (cs @ us)" and
      p: "m_parent (k_menu s1 m) = Some p" and k: "same_links (set (m # all_nodes (cs @ us))) s s1"
      using f(2) by metis
    have c: "chain_ok s1 m (m_list (k_menu s1 m)) cs1 None" "chain_ok s1 p (m_next (k_menu s1 m)) us1 None"
      "distinct (all_nodes us1)" "m \<notin> set (all_nodes us1)" "set (all_nodes us1) \<inter> set (all_nodes cs1) = {}"
      using a by (auto simp: at_menu_def)
    from Suc.IH [OF c(2,3) s1(2)] obtain us2 where
      u: "chain_ok s' p (m_next (k_menu s1 m)) us2 None" "all_nodes us2 = all_nodes us1"
      "same_links (set (all_nodes us1)) s1 s'" by blast
    have "chain_ok s' p (Some m) (MNode m cs1 # us2) None"
      using same_links_at [OF u(3) c(4)] same_links_chain [OF u(3) c(5)] c(1) u(1) p by simp
    moreover have "all_nodes (MNode m cs1 # us2) = all_nodes ts" using n u(2) 2 by simp
    moreover have "same_links (set (all_nodes ts)) s s'"
    proof (rule same_links_trans [OF k u(3)])
      have "set (all_nodes cs1) \<union> set (all_nodes us1) = set (all_nodes cs) \<union> set (all_nodes us)"
        using arg_cong [OF n, of set] by simp
      then show "set (all_nodes us1) \<subseteq> set (all_nodes ts)" using 2 by auto
    qed (use 2 in auto)
    ultimately show ?thesis using f(1) by blast
  qed
qed simp

section \<open>Steps that leave the links alone\<close>

abbreviation keeps_all :: "kstate \<Rightarrow> kstate \<Rightarrow> bool" where
  "keeps_all \<equiv> same_links {}"

lemma keeps_all_trans [trans]: "keeps_all s s' \<Longrightarrow> keeps_all s' s'' \<Longrightarrow> keeps_all s s''"
  by (simp add: same_links_def)

lemma links_prims [simp]:
  "same_links X s (upd_sym r f s') \<longleftrightarrow> same_links X s s'" "same_links X s (set_flags r fs s') \<longleftrightarrow> same_links X s s'"
  "same_links X s (upd_prop p g s') \<longleftrightarrow> same_links X s s'" "same_links X s (add_log msg s') \<longleftrightarrow> same_links X s s'"
  "same_links X s (set_entry m s') \<longleftrightarrow> same_links X s s'" "same_links X s (add_rev_dep r e s') \<longleftrightarrow> same_links X s s'"
  "same_links X s (set_visible_expr p e s') \<longleftrightarrow> same_links X s s'"
  by (simp_all add: same_links_def links_def upd_sym_def set_flags_def upd_prop_def add_log_def set_entry_def
      add_rev_dep_def set_visible_expr_def)

lemma keeps_upd_menu:
  assumes "\<And>x. m_list (f x) = m_list x \<and> m_next (f x) = m_next x \<and> m_parent (f x) = m_parent x"
  shows "same_links X s (upd_menu m f s') \<longleftrightarrow> same_links X s s'"
proof -
  have "links (upd_menu m f s') = links s'" using assms by (simp add: links_def fun_eq_iff)
  then show ?thesis by (simp add: same_links_def)
qed

lemma keeps_same_tree: "same_tree s s' \<Longrightarrow> keeps_all s s'"
  by (simp add: same_tree_def same_links_def)

lemma keeps_reshapes:
  assumes "\<And>m s s'. body m s = Some s' \<Longrightarrow> keeps_all s s'"
  shows "reshapes q body"
proof -
  have "m_parent (k_menu s' m) = m_parent (k_menu s m) \<and> same_links (set (m # all_nodes (cs @ ts))) s s' \<and>
     at_menu s' q m cs ts" if "at_menu s q m cs ts" "body m s = Some s'" for s m cs ts s'
    using assms [OF that(2)] that(1) same_links_at [OF assms [OF that(2)], of m]
      same_links_chain [OF assms [OF that(2)]] by (simp add: at_menu_def) (simp add: same_links_def)
  then show ?thesis unfolding reshapes_def by blast
qed

lemma for_menus_keeps:
  assumes "\<And>m s s'. body m s = Some s' \<Longrightarrow> keeps_all s s'"
  shows "for_menus n body f s = Some s' \<Longrightarrow> keeps_all s s'"
proof (induction n arbitrary: f s)
  case (Suc n)
  then show ?case by (cases f) (auto elim!: bind_SomeE dest: assms intro: keeps_all_trans)
qed simp

lemma for_props_keeps:
  assumes "\<And>p s s'. body p s = Some s' \<Longrightarrow> keeps_all s s'"
  shows "for_props body ps s = Some s' \<Longrightarrow> keeps_all s s'"
  by (induction ps arbitrary: s) (auto elim!: bind_SomeE dest: assms intro: keeps_all_trans)

lemma menu_set_type_keeps: "menu_set_type t s = Some s' \<Longrightarrow> keeps_all s s'"
  by (rule keeps_same_tree) (rule menu_set_type_tree)

lemma links_back [simp]:
  "same_links X (set_entry m s) s' \<longleftrightarrow> same_links X s s'" "same_links X (set_flags r fs s) s' \<longleftrightarrow> same_links X s s'"
  "same_links X (add_log msg s) s' \<longleftrightarrow> same_links X s s'"
  by (simp_all add: same_links_def links_def set_entry_def set_flags_def upd_sym_def add_log_def)

lemma choice_types_keeps:
  assumes "choice_types r parent s = Some s'"
  shows "keeps_all s s'"
proof -
  let ?body = "\<lambda>m s. case m_sym (k_menu (set_entry m s) m) of None \<Rightarrow> Some (set_entry m s)
    | Some q \<Rightarrow> if stype (k_sym (set_entry m s) q) = S_UNKNOWN then menu_set_type (stype (k_sym (set_entry m s) r)) (set_entry m s)
        else Some (set_entry m s)"
  have body: "keeps_all x x'" if "?body m x = Some x'" for m x x'
    using that by (auto split: option.splits if_splits dest!: menu_set_type_keeps)
  have loop: "keeps_all x x'" if "for_menus n ?body f x = Some x'" for n f x x'
    using for_menus_keeps [of ?body, OF body that] .
  show ?thesis using assms unfolding choice_types_def Let_def
    by (auto elim!: bind_SomeE if_SomeE split: list.splits dest!: menu_set_type_keeps loop) (metis keeps_all_trans)
qed

lemma finalize_prop_keeps: "finalize_prop m b p s = Some s' \<Longrightarrow> keeps_all s s'"
  by (auto simp: finalize_prop_def Let_def elim!: bind_SomeE if_SomeE)

lemma finalize_deps_keeps: "finalize_deps b m s = Some s' \<Longrightarrow> keeps_all s s'"
proof -
  assume a: "finalize_deps b m s = Some s'"
  let ?s = "upd_menu m (\<lambda>x. x\<lparr>m_dep := reduce_dep (k_sym s) b (m_dep (k_menu s m))\<rparr>) s"
  have "keeps_all s ?s" by (simp add: keeps_upd_menu)
  also have "keeps_all ?s s'"
    using for_props_keeps [OF finalize_prop_keeps a [unfolded finalize_deps_def Let_def]] .
  finally show ?thesis .
qed

lemma check_default_keeps: "check_default r p s = Some s' \<Longrightarrow> keeps_all s s'"
  by (auto simp: check_default_def Let_def elim!: bind_SomeE if_SomeE split: expr.splits if_splits)

lemma check_prop_keeps: "check_prop r p s = Some s' \<Longrightarrow> keeps_all s s'"
  by (auto simp: check_prop_def check_select_def check_range_def Let_def elim!: bind_SomeE if_SomeE
      split: prop_type.splits if_splits dest: check_default_keeps)

lemma warn_symbol_keeps: "warn_symbol m r s = Some s' \<Longrightarrow> keeps_all s s'"
  by (auto simp: warn_symbol_def sym_check_prop_def Let_def elim!: bind_SomeE if_SomeE split: if_splits
      dest!: for_props_keeps [OF check_prop_keeps, rotated])

lemma prompt_rev_dep_keeps: "keeps_all s (prompt_rev_dep m r s)"
  by (simp add: prompt_rev_dep_def split: option.split)

lemma value_prop_warn_keeps: "value_prop_warn r m p s = Some s' \<Longrightarrow> keeps_all s s'"
  by (auto simp: value_prop_warn_def Let_def elim!: bind_SomeE if_SomeE split: if_splits)

lemma value_props_keeps: "for_props (value_prop_warn r m) ps s = Some s' \<Longrightarrow> keeps_all s s'"
  by (rule for_props_keeps [of "value_prop_warn r m"]) (rule value_prop_warn_keeps)

lemma depend_on_yes_keeps:
  assumes "depend_on_yes r m q s = Some s'"
  shows "keeps_all s s'"
proof (cases "stype (k_sym s r) = S_TRISTATE \<and> stype (k_sym s q) \<noteq> S_TRISTATE")
  case True
  let ?b = "Some (expr_alloc_comp T_EQUAL r Symbol_yes)"
  let ?s = "upd_menu m (\<lambda>x. x\<lparr>m_dep := expr_alloc_and ?b (m_dep x)\<rparr>) s"
  let ?body = "\<lambda>p s. Some (if p_menu (k_prop s p) \<noteq> Some m then s
     else set_visible_expr p (expr_alloc_and (copy_opt ?b) (ev_expr (p_visible (k_prop s p)))) s)"
  have "keeps_all s ?s" by (simp add: keeps_upd_menu)
  also have "for_props ?body (props (k_sym ?s q)) ?s = Some s'"
    using assms True unfolding depend_on_yes_def Let_def by (simp only: if_True simp_thms)
  then have "keeps_all ?s s'" by (rule for_props_keeps [rotated]) (auto split: if_splits)
  finally show ?thesis .
qed (use assms in \<open>simp add: depend_on_yes_def split: if_splits\<close>)

lemma add_choice_value_keeps: "add_choice_value r m q s = Some s' \<Longrightarrow> keeps_all s s'"
proof -
  assume "add_choice_value r m q s = Some s'"
  then obtain s1 s2 s3 where "keeps_all s s1" "depend_on_yes r m q s1 = Some s2" "menu_add_symbol P_CHOICE r None s2 = Some s3"
    "keeps_all s3 s'"
    unfolding add_choice_value_def Let_def
    by (elim bind_SomeE) (drule value_props_keeps, auto split: if_splits)
  then show ?thesis using depend_on_yes_keeps menu_add_symbol_tree [THEN keeps_same_tree] keeps_all_trans by meson
qed

section \<open>Moving menus\<close>

lemma at_menu_chain: "chain_ok s q (Some m) (MNode m cs # ts) None \<Longrightarrow> distinct (all_nodes (MNode m cs # ts)) \<Longrightarrow> at_menu s q m cs ts"
  by (simp add: at_menu_def)

lemma same_links_upd: "x \<in> X \<Longrightarrow> same_links X s (upd_menu x f s') \<longleftrightarrow> same_links X s s'"
  by (auto simp: same_links_def links_def)

lemma set_parent_chain:
  "m \<notin> set (all_nodes ts) \<Longrightarrow> chain_ok (upd_menu m f s) p g ts e = chain_ok s p g ts e"
  by (rule chain_cong) (auto simp: links_iff)

lemma submenu_loop_moves:
  assumes "reshapes q fin"
  shows "chain_ok s q f ts None \<Longrightarrow> distinct (all_nodes ts) \<Longrightarrow>
    submenu_loop n fin r basedep parent f lst s = Some (lst', s') \<Longrightarrow>
    \<exists>us vs. chain_ok s' parent f us (first_node vs) \<and> chain_ok s' q (first_node vs) vs None \<and>
      all_nodes (us @ vs) = all_nodes ts \<and> lst' = (if us = [] then lst else Some (node (last us))) \<and>
      same_links (set (all_nodes ts)) s s'"
proof (induction n arbitrary: f ts lst s)
  case (Suc n)
  show ?case
  proof (cases ts rule: chain_cases)
    case 1
    then show ?thesis using Suc.prems by (auto simp: first_node_def intro!: exI [of _ "[]"])
  next
    case (2 m cs us)
    have f: "f = Some m" using Suc.prems(1) 2 by simp
    show ?thesis
    proof (cases "is_submenu s r basedep m")
      case False
      then show ?thesis using Suc.prems f chain_first [OF Suc.prems(1)] 
        by (intro exI [of _ "[]"] exI [of _ ts]) auto
    next
      case True
      obtain s1 where s1: "fin m s = Some s1"
        "submenu_loop n fin r basedep parent (m_next (k_menu s1 m)) (Some m) (upd_menu m (\<lambda>x. x\<lparr>m_parent := Some parent\<rparr>) s1) = Some (lst', s')"
        using Suc.prems(3) f True by (auto simp: Let_def elim: bind_SomeE)
      let ?s = "upd_menu m (\<lambda>x. x\<lparr>m_parent := Some parent\<rparr>) s1"
      have "at_menu s q m cs us" using Suc.prems 2 f by (simp add: at_menu_def)
      from reshapesE [OF assms this s1(1)] obtain cs1 us1 where
        a: "at_menu s1 q m cs1 us1" and n: "all_nodes (cs1 @ us1) = all_nodes (cs @ us)" and
        k: "same_links (set (m # all_nodes (cs @ us))) s s1" by metis
      have c: "chain_ok ?s m (m_list (k_menu ?s m)) cs1 None" "chain_ok ?s q (m_next (k_menu s1 m)) us1 None"
        "distinct (all_nodes us1)" "m \<notin> set (all_nodes us1)" "set (all_nodes us1) \<inter> set (all_nodes cs1) = {}"
        using a by (auto simp: at_menu_def set_parent_chain)
      from Suc.IH [OF c(2,3) s1(2)] obtain us2 vs where
        u: "chain_ok s' parent (m_next (k_menu s1 m)) us2 (first_node vs)" "chain_ok s' q (first_node vs) vs None"
        "all_nodes (us2 @ vs) = all_nodes us1" "lst' = (if us2 = [] then Some m else Some (node (last us2)))"
        "same_links (set (all_nodes us1)) ?s s'" by blast
      have "chain_ok s' parent (Some m) (MNode m cs1 # us2) (first_node vs)"
        using same_links_at [OF u(5) c(4)] same_links_chain [OF u(5) c(5)] c(1) u(1) by simp
      moreover have n2: "all_nodes ((MNode m cs1 # us2) @ vs) = all_nodes ts" using n u(3) 2 by simp
      moreover have "same_links (set (all_nodes ts)) s s'"
      proof (rule same_links_trans [OF _ u(5)])
        show "same_links (set (m # all_nodes (cs @ us))) s ?s" using k by (simp add: same_links_upd)
        have "set (all_nodes us1) \<subseteq> set (all_nodes (cs @ us))" using arg_cong [OF n, of set] by auto
        then show "set (all_nodes us1) \<subseteq> set (all_nodes ts)" using 2 by auto
      qed (use 2 in auto)
      ultimately show ?thesis using u(2,4) f by (intro exI [of _ "MNode m cs1 # us2"] exI [of _ vs]) auto
    qed
  qed
qed simp

lemma adopt_parent: "m_parent (k_menu (adopt_submenus p l s) x) = m_parent (k_menu s x)"
  by (auto simp: adopt_submenus_def Let_def split: option.split)

lemma adopt_chains:
  assumes c: "chain_ok s parent (m_next (k_menu s parent)) us (first_node vs)" "chain_ok s q (first_node vs) vs None"
    and d: "distinct (parent # all_nodes (us @ vs))" and n: "us \<noteq> []"
  shows "at_menu (adopt_submenus parent (Some (node (last us))) s) q parent us vs"
proof -
  let ?l = "node (last us)" and ?s = "adopt_submenus parent (Some (node (last us))) s"
  have l: "?l \<in> set (all_nodes us)" using n by (rule last_node)
  then have lp: "?l \<noteq> parent" "?l \<notin> set (all_nodes vs)" using d by auto
  obtain ys m cs where us: "us = ys @ [MNode m cs]" using n by (metis append_butlast_last_id mtree.exhaust)
  have e: "m_next (k_menu s ?l) = first_node vs" using c(1) us by (simp add: chain_snoc)
  have o: "links ?s x = links (upd_menu ?l (\<lambda>x. x\<lparr>m_next := None\<rparr>) s) x" if "x \<noteq> parent" for x
    using that lp by (auto simp: adopt_submenus_def Let_def links_def)
  have "chain_ok ?s parent f us None = chain_ok (upd_menu ?l (\<lambda>x. x\<lparr>m_next := None\<rparr>) s) parent f us None" for f
    by (rule chain_cong, rule o) (use d in auto)
  then have "chain_ok ?s parent (m_next (k_menu s parent)) us None"
    using chain_extend [OF c(1) n, of None] d by simp
  moreover have "chain_ok ?s q (first_node vs) vs None = chain_ok s q (first_node vs) vs None"
    using lp d by (intro chain_cong) (auto simp: adopt_submenus_def Let_def links_def)
  moreover have "m_list (k_menu ?s parent) = m_next (k_menu s parent)" "m_next (k_menu ?s parent) = first_node vs"
    using lp e by (auto simp: adopt_submenus_def Let_def)
  ultimately show ?thesis using c(2) d by (simp add: at_menu_def)
qed

lemma last_sibling_moves:
  "chain_ok s m (Some c) cs None \<Longrightarrow> distinct (all_nodes cs) \<Longrightarrow> last_sibling n parent c s = Some (l, s') \<Longrightarrow>
   cs \<noteq> [] \<and> l = node (last cs) \<and> chain_ok s' parent (Some c) cs None \<and> same_links (set (all_nodes cs)) s s'"
proof (induction n arbitrary: c cs s)
  case (Suc n)
  obtain ds us where cs: "cs = MNode c ds # us" using Suc.prems(1) by (cases cs rule: chain_cases) auto
  let ?s = "upd_menu c (\<lambda>x. x\<lparr>m_parent := Some parent\<rparr>) s"
  have d: "c \<notin> set (all_nodes ds)" "c \<notin> set (all_nodes us)" "set (all_nodes us) \<inter> set (all_nodes ds) = {}"
    using Suc.prems(2) cs by auto
  have ch: "chain_ok ?s c (m_list (k_menu s c)) ds None" "chain_ok ?s m (m_next (k_menu s c)) us None"
    using Suc.prems(1) cs d by (simp_all add: set_parent_chain)
  show ?case
  proof (cases "m_next (k_menu s c)")
    case None
    then have "us = []" "l = c" "s' = ?s" using Suc.prems(1,3) cs by (auto simp: Let_def) (cases us rule: chain_cases; simp)
    then show ?thesis using cs ch None by (simp add: same_links_upd)
  next
    case (Some k)
    have "last_sibling n parent k ?s = Some (l, s')" using Suc.prems(3) Some by (simp add: Let_def)
    then have i: "us \<noteq> [] \<and> l = node (last us) \<and> chain_ok s' parent (Some k) us None \<and> same_links (set (all_nodes us)) ?s s'"
      using Suc.IH [of ?s k us] ch(2) Some Suc.prems(2) cs by simp
    have "same_links (set (all_nodes cs)) s s'"
      by (rule same_links_trans [of "{c}" s ?s]) (use i cs in \<open>auto simp: same_links_upd\<close>)
    then show ?thesis using i cs Some same_links_at [of _ ?s s' c] d(2) same_links_chain [of _ ?s s' ds] d(3) ch(1) by auto
  qed
qed simp

lemma flatten_reshapes: "reshapes parent (flatten_menu parent)"
  unfolding reshapes_def
proof (intro allI impI)
  fix s m cs ts s'
  assume a: "at_menu s parent m cs ts" and f: "flatten_menu parent m s = Some s'"
  have ch: "chain_ok s m (m_list (k_menu s m)) cs None" "chain_ok s parent (m_next (k_menu s m)) ts None"
    and d: "m \<notin> set (all_nodes cs)" "m \<notin> set (all_nodes ts)" "distinct (all_nodes cs)" "distinct (all_nodes ts)"
      "set (all_nodes cs) \<inter> set (all_nodes ts) = {}"
    using a by (auto simp: at_menu_def)
  show "m_parent (k_menu s' m) = m_parent (k_menu s m) \<and> same_links (set (m # all_nodes (cs @ ts))) s s' \<and>
     (\<exists>cs' ts'. at_menu s' parent m cs' ts' \<and> all_nodes (cs' @ ts') = all_nodes (cs @ ts))"
  proof (cases "s' = s")
    case True
    then show ?thesis using a by auto
  next
    case False
    then obtain c l s1 where c: "m_list (k_menu s m) = Some c" "last_sibling (loop_fuel s) parent c s = Some (l, s1)"
      "s' = upd_menu m (\<lambda>x. x\<lparr>m_next := m_list x, m_list := None\<rparr>) (upd_menu l (\<lambda>x. x\<lparr>m_next := m_next (k_menu s1 m)\<rparr>) s1)"
      using f by (auto simp: flatten_menu_def Let_def elim!: bind_SomeE split: option.splits if_splits)
    have l: "cs \<noteq> []" "l = node (last cs)" "chain_ok s1 parent (Some c) cs None" "same_links (set (all_nodes cs)) s s1"
      using last_sibling_moves [OF _ d(3) c(2)] ch(1) c(1) by auto
    have lc: "l \<in> set (all_nodes cs)" using l(1,2) last_node by simp
    have lm: "l \<noteq> m" "l \<notin> set (all_nodes ts)" using lc d by auto
    note m = same_links_at [OF l(4) d(1)]
    have "chain_ok s' parent (Some c) cs (m_next (k_menu s m))"
      using chain_extend [OF l(3,1) d(3)] d(1) l(2) c(3) m by (simp add: set_parent_chain)
    moreover have "chain_ok s' parent (m_next (k_menu s m)) ts None"
      using ch(2) same_links_chain [OF l(4) d(5)] lm d c(3) by (simp add: set_parent_chain)
    moreover have "k_menu s' m = (k_menu s1 m)\<lparr>m_next := m_list (k_menu s1 m), m_list := None\<rparr>" using c(3) lm by simp
    ultimately have "at_menu s' parent m [] (cs @ ts)" using c(1) a m
      by (auto simp: at_menu_def chain_append)
    moreover have "same_links (set (m # all_nodes (cs @ ts))) s s'"
      using same_links_trans [OF l(4), of _ s1] lc c(3) by (simp add: same_links_upd) (auto intro: same_links_trans [OF l(4)])
    moreover have "m_parent (k_menu s' m) = m_parent (k_menu s m)" using c(3) lm m by simp
    ultimately show ?thesis by (intro conjI exI [of _ "[]"] exI [of _ "cs @ ts"]) simp_all
  qed
qed

lemma reshapes_after:
  assumes "reshapes q body" "\<And>m s s'. pre m s = Some s' \<Longrightarrow> keeps_all s s'"
  shows "reshapes q (\<lambda>m s. do { s \<leftarrow> pre m s; body m s })"
  unfolding reshapes_def
proof (intro allI impI)
  fix s m cs ts s'
  assume a: "at_menu s q m cs ts" and b: "do { s \<leftarrow> pre m s; body m s } = Some s'"
  then obtain s1 where s1: "pre m s = Some s1" "body m s1 = Some s'" by (auto elim: bind_SomeE)
  have k: "keeps_all s s1" using assms(2) s1(1) .
  then have "at_menu s1 q m cs ts" using a same_links_at [OF k, of m] same_links_chain [OF k] by (simp add: at_menu_def)
  from reshapesE [OF assms(1) this s1(2)]
  show "m_parent (k_menu s' m) = m_parent (k_menu s m) \<and> same_links (set (m # all_nodes (cs @ ts))) s s' \<and>
     (\<exists>cs' ts'. at_menu s' q m cs' ts' \<and> all_nodes (cs' @ ts') = all_nodes (cs @ ts))"
    using same_links_at(3) [OF k, of m] same_links_trans [OF k] by (metis empty_iff empty_subsetI subset_refl)
qed

lemma finalize_child_reshapes: "reshapes parent (finalize_child parent)"
proof -
  let ?pre = "\<lambda>m s. case (m_sym (k_menu s parent), m_sym (k_menu s m)) of
         (Some r, Some q) \<Rightarrow>
           if sym_is_choice (k_sym s r) \<and> \<not> sym_is_choice_value (k_sym s q) then add_choice_value r m q s else Some s
       | _ \<Rightarrow> Some s"
  have "finalize_child parent = (\<lambda>m s. do { s \<leftarrow> ?pre m s; flatten_menu parent m s })"
    by (intro ext) (simp add: finalize_child_def)
  moreover have "keeps_all s s'" if "?pre m s = Some s'" for m s s'
    using that by (auto split: option.splits if_splits dest: add_choice_value_keeps)
  ultimately show ?thesis using reshapes_after [OF flatten_reshapes] by presburger
qed

section \<open>The finalised tree\<close>

lemma finalize_list_moves:
  assumes "\<And>q. reshapes q fin" "at_menu s q m cs ts" "finalize_list fin m s = Some s'"
  shows "\<exists>cs'. at_menu s' q m cs' ts \<and> all_nodes cs' = all_nodes cs \<and> same_links (set (all_nodes cs)) s s'"
proof -
  obtain dep s1 s2 where p: "(case m_sym (k_menu s m) of
         Some r \<Rightarrow>
           if sym_is_choice (k_sym s r) then do {
             s \<leftarrow> choice_types r m s;
             Some (Some (expr_alloc_symbol r), s)
           } else Some (menu_visible_expr s m, s)
       | None \<Rightarrow> Some (menu_visible_expr s m, s)) = Some (dep, s1)"
    and s: "for_menus (loop_fuel s1) (finalize_deps dep) (m_list (k_menu s1 m)) s1 = Some s2"
    "for_menus (loop_fuel s2) fin (m_list (k_menu s2 m)) s2 = Some s'"
    using assms(3) unfolding finalize_list_def by (elim bind_SomeE) (auto elim!: bind_SomeE)
  have "keeps_all s s1" using p
    by (auto elim!: bind_SomeE split: option.splits if_splits dest!: choice_types_keeps)
  also have "keeps_all s1 s2" using for_menus_keeps [of "finalize_deps dep", OF finalize_deps_keeps s(1)] .
  finally have k: "keeps_all s s2" .
  have ch: "chain_ok s2 m (m_list (k_menu s2 m)) cs None" "chain_ok s2 q (m_next (k_menu s2 m)) ts None"
    and d: "m \<notin> set (all_nodes cs)" "distinct (all_nodes cs)" "set (all_nodes cs) \<inter> set (all_nodes ts) = {}"
    using assms(2) same_links_at [OF k, of m] same_links_chain [OF k] by (auto simp: at_menu_def)
  from for_menus_reshape [OF assms(1) ch(1) d(2) s(2)] obtain cs' where
    c: "chain_ok s' m (m_list (k_menu s2 m)) cs' None" "all_nodes cs' = all_nodes cs" "same_links (set (all_nodes cs)) s2 s'"
    by blast
  have "at_menu s' q m cs' ts"
    using assms(2) c ch(2) same_links_at [OF c(3) d(1)] same_links_chain [OF c(3) d(3)] by (simp add: at_menu_def)
  then show ?thesis using c(2) same_links_trans [OF k c(3)] by blast
qed

lemma finalize_leaf_moves:
  assumes "\<And>q. reshapes q fin" "at_menu s q m [] ts" "finalize_leaf fin m r s = Some s'"
  shows "\<exists>us vs. at_menu s' q m us vs \<and> all_nodes (us @ vs) = all_nodes ts \<and> same_links (set (m # all_nodes ts)) s s' \<and>
    m_parent (k_menu s' m) = m_parent (k_menu s m)"
proof -
  obtain dep lst s1 where s: "submenu_loop (loop_fuel s) fin r dep m (m_next (k_menu s m)) None s = Some (lst, s1)"
    "s' = upd_sym r (\<lambda>x. x\<lparr>dir_dep := (dir_dep x)\<lparr>ev_expr := expr_alloc_or (ev_expr (dir_dep x))
      (m_dep (k_menu (adopt_submenus m lst s1) m))\<rparr>\<rparr>) (adopt_submenus m lst s1)"
    using assms(3) unfolding finalize_leaf_def Let_def by (auto elim!: bind_SomeE)
  let ?t = "adopt_submenus m lst s1"
  have links: "links s' = links ?t" "k_nmenu s' = k_nmenu ?t" using s(2) by (simp_all add: upd_sym_def links_eq_iff)
  have ch: "chain_ok s q (m_next (k_menu s m)) ts None" "distinct (all_nodes ts)" "m \<notin> set (all_nodes ts)"
    "m_list (k_menu s m) = None"
    using assms(2) by (auto simp: at_menu_def)
  from submenu_loop_moves [OF assms(1) ch(1,2) s(1)] obtain us vs where
    u: "chain_ok s1 m (m_next (k_menu s m)) us (first_node vs)" "chain_ok s1 q (first_node vs) vs None"
      "all_nodes (us @ vs) = all_nodes ts" "lst = (if us = [] then None else Some (node (last us)))"
      "same_links (set (all_nodes ts)) s s1" by blast
  note m = same_links_at [OF u(5) ch(3)]
  have d: "distinct (m # all_nodes (us @ vs))" using ch(2,3) u(3) by simp
  have "at_menu ?t q m us vs"
  proof (cases "us = []")
    case True
    then show ?thesis using u d ch(4) m by (simp add: at_menu_def adopt_submenus_def)
  next
    case False
    then show ?thesis using adopt_chains [OF _ u(2) d] u(1,4) m by simp
  qed
  then have "at_menu s' q m us vs" using chain_links [OF links(1)] links(1) by (simp add: at_menu_def links_eq_iff)
  moreover have "node (last us) \<in> set (all_nodes ts)" if "us \<noteq> []"
    using last_node [OF that] arg_cong [OF u(3), of set] by auto
  then have "same_links (set (m # all_nodes ts)) s ?t"
    using same_links_trans [OF u(5) same_links_refl, of "set (m # all_nodes ts)"]
    by (auto simp: u(4) adopt_submenus_def Let_def same_links_upd)
  then have "same_links (set (m # all_nodes ts)) s s'" using links by (simp add: same_links_def)
  moreover have "m_parent (k_menu s' m) = m_parent (k_menu s m)"
    using links(1) m(3) by (simp add: links_eq_iff adopt_parent)
  ultimately show ?thesis using u(3) by blast
qed

lemma all_nodes_Nil: "all_nodes ts = [] \<longleftrightarrow> ts = []"
proof (cases ts)
  case (Cons t us)
  then show ?thesis by (cases t) simp
qed simp

lemma finalize_children_moves:
  assumes "at_menu s q m cs ts" "for_menus n (finalize_child m) (m_list (k_menu s m)) s = Some s'"
  shows "\<exists>cs'. at_menu s' q m cs' ts \<and> all_nodes cs' = all_nodes cs \<and> same_links (set (all_nodes cs)) s s'"
proof -
  have ch: "chain_ok s m (m_list (k_menu s m)) cs None" "chain_ok s q (m_next (k_menu s m)) ts None"
    and d: "m \<notin> set (all_nodes cs)" "distinct (all_nodes cs)" "set (all_nodes cs) \<inter> set (all_nodes ts) = {}"
    using assms(1) by (auto simp: at_menu_def)
  from for_menus_reshape [OF finalize_child_reshapes ch(1) d(2) assms(2)] obtain cs' where
    c: "chain_ok s' m (m_list (k_menu s m)) cs' None" "all_nodes cs' = all_nodes cs" "same_links (set (all_nodes cs)) s s'"
    by blast
  then have "at_menu s' q m cs' ts"
    using assms(1) ch(2) same_links_at [OF c(3) d(1)] same_links_chain [OF c(3) d(3)] by (simp add: at_menu_def)
  then show ?thesis using c by blast
qed

lemma menu_finalize_cases:
  assumes "menu_finalize (Suc n) m s = Some s'"
  obtains s1 s2 k where
    "m_list (k_menu s m) \<noteq> None \<longrightarrow> finalize_list (menu_finalize n) m s = Some s1"
    "m_list (k_menu s m) = None \<longrightarrow> s1 = s \<or> (\<exists>r. finalize_leaf (menu_finalize n) m r s = Some s1)"
    "for_menus k (finalize_child m) (m_list (k_menu s1 m)) s1 = Some s2" "keeps_all s2 s'"
proof -
  obtain s1 s2 where
    a: "(if m_list (k_menu s m) \<noteq> None then finalize_list (menu_finalize n) m s
       else case m_sym (k_menu s m) of None \<Rightarrow> Some s | Some q \<Rightarrow> finalize_leaf (menu_finalize n) m q s) = Some s1"
    and b: "for_menus (loop_fuel s1) (finalize_child m) (m_list (k_menu s1 m)) s1 = Some s2"
    and c: "(case m_sym (k_menu s m) of None \<Rightarrow> Some s2 | Some q \<Rightarrow> do {
         s \<leftarrow> warn_symbol m q s2;
         Some (prompt_rev_dep m q s)
       }) = Some s'"
    using assms by (auto simp only: menu_finalize.simps Let_def elim!: bind_SomeE)
  have "keeps_all s2 s'" using c
    by (auto split: option.splits elim!: bind_SomeE dest!: warn_symbol_keeps intro: keeps_all_trans [OF _ prompt_rev_dep_keeps])
  then show thesis using that [of s1 "loop_fuel s1" s2] a b by (auto split: if_splits option.splits)
qed

lemma menu_finalize_moves:
  "at_menu s q m cs ts \<Longrightarrow> menu_finalize n m s = Some s' \<Longrightarrow>
   m_parent (k_menu s' m) = m_parent (k_menu s m) \<and> same_links (set (m # all_nodes (cs @ ts))) s s' \<and>
   (\<exists>cs' ts'. at_menu s' q m cs' ts' \<and> all_nodes (cs' @ ts') = all_nodes (cs @ ts) \<and> (ts = [] \<longrightarrow> ts' = []))"
proof (induction n arbitrary: s q m cs ts s')
  case (Suc n)
  have fin: "reshapes q (menu_finalize n)" for q using Suc.IH unfolding reshapes_def by meson
  from Suc.prems(2) obtain s1 s2 k where
    s: "m_list (k_menu s m) \<noteq> None \<longrightarrow> finalize_list (menu_finalize n) m s = Some s1"
    "m_list (k_menu s m) = None \<longrightarrow> s1 = s \<or> (\<exists>r. finalize_leaf (menu_finalize n) m r s = Some s1)"
    "for_menus k (finalize_child m) (m_list (k_menu s1 m)) s1 = Some s2" "keeps_all s2 s'"
    by (rule menu_finalize_cases)
  have "\<exists>cs1 ts1. at_menu s1 q m cs1 ts1 \<and> all_nodes (cs1 @ ts1) = all_nodes (cs @ ts) \<and> (ts = [] \<longrightarrow> ts1 = []) \<and>
      same_links (set (m # all_nodes (cs @ ts))) s s1 \<and> m_parent (k_menu s1 m) = m_parent (k_menu s m)"
  proof (cases "m_list (k_menu s m)")
    case (Some c)
    from finalize_list_moves [OF fin Suc.prems(1)] s(1) Some obtain cs1 where
      c: "at_menu s1 q m cs1 ts" "all_nodes cs1 = all_nodes cs" "same_links (set (all_nodes cs)) s s1" by auto
    have "m \<notin> set (all_nodes cs)" using Suc.prems(1) by (simp add: at_menu_def)
    moreover have "same_links (set (m # all_nodes (cs @ ts))) s s1"
      by (rule same_links_trans [OF c(3) same_links_refl [of "{}"]]) auto
    ultimately show ?thesis using c(1,2) same_links_at(3) [OF c(3)]
      by (metis concat_append map_append)
  next
    case None
    then have cs: "cs = []" using Suc.prems(1) by (cases cs rule: chain_cases) (auto simp: at_menu_def)
    show ?thesis
    proof (cases "s1 = s")
      case True
      then show ?thesis using Suc.prems(1) by auto
    next
      case False
      then obtain r where "finalize_leaf (menu_finalize n) m r s = Some s1" using s(2) None by blast
      from finalize_leaf_moves [OF fin _ this] Suc.prems(1) cs obtain us vs where
        u: "at_menu s1 q m us vs" "all_nodes (us @ vs) = all_nodes ts" "same_links (set (m # all_nodes ts)) s s1"
        "m_parent (k_menu s1 m) = m_parent (k_menu s m)" by blast
      have "vs = []" if "ts = []" using u(2) that all_nodes_Nil [of "us @ vs"] by simp
      then show ?thesis using u cs by (intro exI [of _ us] exI [of _ vs]) simp
    qed
  qed
  then obtain cs1 ts1 where c: "at_menu s1 q m cs1 ts1" "all_nodes (cs1 @ ts1) = all_nodes (cs @ ts)" "ts = [] \<longrightarrow> ts1 = []"
    "same_links (set (m # all_nodes (cs @ ts))) s s1" "m_parent (k_menu s1 m) = m_parent (k_menu s m)" by blast
  from finalize_children_moves [OF c(1) s(3)] obtain cs2 where
    d: "at_menu s2 q m cs2 ts1" "all_nodes cs2 = all_nodes cs1" "same_links (set (all_nodes cs1)) s1 s2" by blast
  have m: "m \<notin> set (all_nodes cs1)" using c(1) by (simp add: at_menu_def)
  have "at_menu s' q m cs2 ts1"
    using d(1) same_links_at [OF s(4), of m] same_links_chain [OF s(4)] by (simp add: at_menu_def)
  moreover have "same_links (set (m # all_nodes (cs @ ts))) s s'"
  proof (rule same_links_trans [OF c(4) same_links_trans [OF d(3) s(4) subset_refl]])
    show "set (all_nodes cs1) \<subseteq> set (m # all_nodes (cs @ ts))" using arg_cong [OF c(2), of set] by auto
  qed auto
  moreover have "m_parent (k_menu s' m) = m_parent (k_menu s m)"
    using same_links_at(3) [OF s(4), of m] same_links_at(3) [OF d(3) m] c(5) by simp
  ultimately show ?case using c(2,3) d(2) by (intro conjI exI [of _ cs2] exI [of _ ts1]) auto
qed simp

lemma menu_finalize_tree:
  assumes "menu_tree s ts" "menu_finalize n rootmenu s = Some s'"
  shows "\<exists>ts'. menu_tree s' ts' \<and> all_nodes ts' = all_nodes ts \<and> k_nmenu s' = k_nmenu s"
proof -
  have r: "rootmenu # all_nodes ts = [0..<k_nmenu s]" using assms(1) by (simp add: menu_tree_def)
  then have d: "distinct (rootmenu # all_nodes ts)" by (metis distinct_upt)
  have "at_menu s rootmenu rootmenu ts []" using assms(1) d by (simp add: at_menu_def menu_tree_def)
  from menu_finalize_moves [OF this assms(2)] obtain ts' where
    "at_menu s' rootmenu rootmenu ts' []" "all_nodes ts' = all_nodes ts" "m_parent (k_menu s' rootmenu) = m_parent (k_menu s rootmenu)"
    "k_nmenu s' = k_nmenu s" by (auto simp: same_links_def)
  then show ?thesis using assms(1) by (auto simp: menu_tree_def at_menu_def)
qed

end
