(* ===== verification/Kconfig_Conf_Walk.thy ===== *)
theory Kconfig_Conf_Walk
  imports Kconfig_Menu_Final Kconfig_Calc_Sem
begin

text \<open>
  Writing a configuration.  The printers of \<^verbatim>\<open>confdata.c\<close> evaluate symbols while they walk over
  the menus; evaluation leaves the links alone, so the file holds what every menu prints, in the
  order in which the menus were created.
\<close>

text \<open>Evaluation keeps the static part of the state, and so the links of the menus.\<close>

definition same_static :: "kstate \<Rightarrow> kstate \<Rightarrow> bool" where
  "same_static s s' \<longleftrightarrow> (choices_wf s \<longrightarrow> erase s' = erase s)"

lemma same_static_refl [simp]: "same_static s s"
  by (simp add: same_static_def)

lemma same_static_trans [trans]: "same_static s s' \<Longrightarrow> same_static s' s'' \<Longrightarrow> same_static s s''"
  using choices_wf_erase unfolding same_static_def by metis

lemma keeps_static: "keeps X s s' \<Longrightarrow> same_static s s'"
  by (simp add: keeps_def same_static_def frame_def)

lemma erase_links: "erase s' = erase s \<Longrightarrow> links s' = links s \<and> k_nmenu s' = k_nmenu s"
proof -
  assume e: "erase s' = erase s"
  have "links (erase x) = links x \<and> k_nmenu (erase x) = k_nmenu x" for x
    by (simp add: links_def fun_eq_iff erase_def erase_menu_def)
  then show ?thesis using e by metis
qed

lemma static_links: "same_static s s' \<Longrightarrow> choices_wf s \<Longrightarrow> choices_wf s' \<and> links s' = links s \<and> k_nmenu s' = k_nmenu s"
  using choices_wf_erase erase_links unfolding same_static_def by blast

lemma static_flags [simp]:
  "fs \<subseteq> dyn_flags \<Longrightarrow> same_static s (set_flags r fs s') \<longleftrightarrow> same_static s s'"
  "fs \<subseteq> dyn_flags \<Longrightarrow> same_static s (clear_flags r fs s') \<longleftrightarrow> same_static s s'"
  by (simp_all add: same_static_def erase_set_flags erase_clear_flags)

lemma static_back [simp]: "fs \<subseteq> dyn_flags \<Longrightarrow> same_static (clear_flags r fs s) s' \<longleftrightarrow> same_static s s'"
  using choices_wf_erase [OF erase_clear_flags] by (simp add: same_static_def erase_clear_flags)

lemma erase_prop_tri [simp]:
  "erase (upd_prop p (\<lambda>x. x\<lparr>p_visible := (p_visible x)\<lparr>ev_tri := v\<rparr>\<rparr>) s) = erase s"
  by (auto simp: upd_prop_def erase_def erase_prop_def fun_eq_iff)

text \<open>
  What the printers preserve: a relation on states that evaluation and the bookkeeping of the
  printers, the flags \<open>SYMBOL_DEF_USER\<close> and \<open>SYMBOL_WRITE\<close> and the visibility of a prompt, respect.
\<close>

locale printing = evaluator +
  fixes R :: "kstate \<Rightarrow> kstate \<Rightarrow> bool"
  assumes R_refl [simp]: "R s s"
    and R_trans: "R s s' \<Longrightarrow> R s' s'' \<Longrightarrow> R s s''"
    and keeps_R: "keeps {} s s' \<Longrightarrow> R s s'"
    and R_def_user: "R s (set_flags r {SYMBOL_DEF S_DEF_USER} s)"
    and R_write: "R s (clear_flags r {SYMBOL_WRITE} s)"
    and R_prop_tri: "R s (upd_prop p (\<lambda>x. x\<lparr>p_visible := (p_visible x)\<lparr>ev_tri := v\<rparr>\<rparr>) s)"
begin

lemma any_child_R:
  assumes "\<And>m s v s'. vis m s = Some (v, s') \<Longrightarrow> R s s'"
  shows "any_child n vis f s = Some (v, s') \<Longrightarrow> R s s'"
proof (induction n arbitrary: f s)
  case (Suc n)
  then show ?case
    by (cases f) (auto elim!: bind_SomeE if_SomeE dest!: assms intro: R_trans split: if_splits)
qed simp

lemma prop_visible_R: "prop_calc_visible calc p s = Some (v, s') \<Longrightarrow> R s s'"
  unfolding prop_calc_visible_def
  by (auto elim!: bind_SomeE dest!: expr_calc_value_keeps [THEN keeps_R] intro: R_trans R_prop_tri)

lemma menu_is_visible_R: "menu_is_visible n calc m s = Some (v, s') \<Longrightarrow> R s s'"
proof (induction n arbitrary: m s v s')
  case (Suc n)
  have own: "R s s'" if "menu_own_visible calc m p s = Some (v, s')" for p s v s'
    using that unfolding menu_own_visible_def
    by (auto split: option.splits elim!: bind_SomeE dest!: calc_keeps [THEN keeps_R] prop_visible_R)
  have vis: "R s s'" if "(case m_visibility (k_menu s m) of None \<Rightarrow> Some (Yes, s) | Some e \<Rightarrow> calc_expr calc e s) = Some (v, s')" for v s'
    using that by (auto split: option.splits dest!: calc_expr_keeps [THEN keeps_R])
  have child: "R s s'" if "any_child k (menu_is_visible n calc) f s = Some (v, s')" for k f s v s'
    by (rule any_child_R [OF _ that]) (rule Suc.IH)
  show ?case
  proof (cases "m_prompt (k_menu s m)")
    case None
    then show ?thesis using Suc.prems by simp
  next
    case (Some p)
    then obtain s1 where v1: "R s s1" and r1: "s' = s1 \<or> (do {
         (v, s) \<leftarrow> menu_own_visible calc m p s1;
         if v \<noteq> No then Some (True, s)
         else case m_sym (k_menu s m) of
           None \<Rightarrow> Some (False, s)
         | Some r \<Rightarrow>
             if sym_get_tristate_value (k_sym s r) = No then Some (False, s)
             else do {
               (v, s) \<leftarrow> any_child (loop_fuel s) (menu_is_visible n calc) (m_list (k_menu s m)) s;
               Some (v, if v then set_flags r {SYMBOL_DEF S_DEF_USER} s else s)
             }
       }) = Some (v, s')"
      using Suc.prems by (auto elim!: bind_SomeE dest!: vis split: if_splits)
    have "R s1 s'" using r1
      by (auto elim!: bind_SomeE split: if_splits option.split_asm dest!: own child intro: R_def_user) (metis R_trans R_def_user)+
    with v1 show ?thesis by (rule R_trans)
  qed
qed simp

lemma conf_write_symbol_R: "conf_write_symbol calc print r s = Some (t, s') \<Longrightarrow> R s s'"
  unfolding conf_write_symbol_def
  by (auto elim!: bind_SomeE dest!: string_value_keeps [THEN keeps_R] split: symbol_type.splits)

lemma write_menu_R: "write_menu calc pre m s = Some (t, s') \<Longrightarrow> R s s'"
  unfolding write_menu_def
  by (auto split: option.splits elim!: bind_SomeE if_SomeE
    dest!: menu_is_visible_R calc_keeps [THEN keeps_R] conf_write_symbol_R) (metis R_trans R_write)

end

sublocale evaluator \<subseteq> static: printing calc same_static
proof unfold_locales
  show "same_static s s" for s by simp
  show "same_static s s''" if "same_static s s'" "same_static s' s''" for s s' s'' using that by (rule same_static_trans)
  show "same_static s s'" if "keeps {} s s'" for s s' using that by (rule keeps_static)
  show "same_static s (set_flags r {SYMBOL_DEF S_DEF_USER} s)" "same_static s (clear_flags r {SYMBOL_WRITE} s)" for s r
    by (simp_all add: dyn_flags_def)
  show "same_static s (upd_prop p (\<lambda>x. x\<lparr>p_visible := (p_visible x)\<lparr>ev_tri := v\<rparr>\<rparr>) s)" for s p v
    by (simp add: same_static_def)
qed

context evaluator
begin

lemma write_menu_links: "keeps_links choices_wf (write_menu calc pre)"
  using static.write_menu_R static_links unfolding keeps_links_def by blast

lemma string_default_static: "string_default_value calc r p s = Some (v, str, s') \<Longrightarrow> same_static s s'"
  unfolding string_default_value_def Let_def
  by (auto elim!: bind_SomeE split: option.splits if_splits
      dest!: calc_default_keeps [THEN keeps_static] calc_keeps [THEN keeps_static])

lemma get_string_default_static: "sym_get_string_default calc r s = Some (v, s') \<Longrightarrow> same_static s s'"
  unfolding sym_get_string_default_def Let_def
  by (elim bind_SomeE)
    (auto elim!: bind_SomeE if_SomeE dest!: visibility_keeps [THEN keeps_static] calc_opt_keeps [THEN keeps_static]
      default_prop_keeps [THEN keeps_static] string_default_static; metis same_static_trans)

lemma is_default_static: "is_default calc r s = Some (v, s') \<Longrightarrow> same_static s s'"
  unfolding is_default_def
  by (auto elim!: bind_SomeE dest!: string_value_keeps [THEN keeps_static] get_string_default_static)
    (metis same_static_trans)+

lemma is_choice_default_static: "is_choice_default calc r s = Some (v, s') \<Longrightarrow> same_static s s'"
  unfolding is_choice_default_def
  by (auto elim!: bind_SomeE if_SomeE dest!: sym_choice_default_keeps [THEN keeps_static])

lemma write_defconfig_static: "write_defconfig_menu calc pre m s = Some (t, s') \<Longrightarrow> same_static s s'"
  unfolding write_defconfig_menu_def
  by (auto split: option.splits elim!: bind_SomeE if_SomeE simp: dyn_flags_def Let_def
    dest!: static.menu_is_visible_R calc_keeps [THEN keeps_static] static.conf_write_symbol_R
      is_default_static is_choice_default_static; metis same_static_trans)

lemma write_defconfig_links: "keeps_links choices_wf (write_defconfig_menu calc pre)"
  using write_defconfig_static static_links unfolding keeps_links_def by blast

end

lemma clear_valid_wf:
  "choices_wf (fold (\<lambda>r. clear_flags r {SYMBOL_VALID}) rs s) = choices_wf s"
  "links (fold (\<lambda>r. clear_flags r {SYMBOL_VALID}) rs s) = links s"
  "k_nmenu (fold (\<lambda>r. clear_flags r {SYMBOL_VALID}) rs s) = k_nmenu s"
proof -
  have "erase (fold (\<lambda>r. clear_flags r {SYMBOL_VALID}) rs s) = erase s"
    by (induction rs arbitrary: s) (simp_all add: erase_clear_flags dyn_flags_def)
  then show "choices_wf (fold (\<lambda>r. clear_flags r {SYMBOL_VALID}) rs s) = choices_wf s"
    "links (fold (\<lambda>r. clear_flags r {SYMBOL_VALID}) rs s) = links s"
    "k_nmenu (fold (\<lambda>r. clear_flags r {SYMBOL_VALID}) rs s) = k_nmenu s"
    using choices_wf_erase erase_links by blast+
qed

lemma change_count_wf:
  "choices_wf (sym_set_change_count c s) = choices_wf s" "links (sym_set_change_count c s) = links s"
  "k_nmenu (sym_set_change_count c s) = k_nmenu s"
  by (auto intro!: choices_wf_cong simp: sym_set_change_count_def Let_def links_def fun_eq_iff)

lemma clear_all_valid_wf:
  assumes "sym_clear_all_valid (sym_calc_value n) s = Some s'" "choices_wf s"
  shows "choices_wf s'" "links s' = links s" "k_nmenu s' = k_nmenu s"
proof -
  let ?s = "sym_add_change_count 1 (fold (\<lambda>r. clear_flags r {SYMBOL_VALID}) (all_syms s) s)"
  have w: "choices_wf ?s" "links ?s = links s" "k_nmenu ?s = k_nmenu s"
    using assms(2) by (simp_all add: sym_add_change_count_def change_count_wf clear_valid_wf)
  have "calc_opt (sym_calc_value n) (k_modules_sym ?s) ?s = Some s'"
    using assms(1) by (simp add: sym_clear_all_valid_def Let_def)
  from static_links [OF keeps_static [OF ev.calc_opt_keeps [OF this]] w(1)] w(2,3)
  show "choices_wf s'" "links s' = links s" "k_nmenu s' = k_nmenu s" by simp_all
qed

lemma menu_tree_links:
  assumes "menu_tree s ts" "links s' = links s" "k_nmenu s' = k_nmenu s"
  shows "menu_tree s' ts"
  using assms chain_links [OF assms(2)] by (simp add: menu_tree_def links_eq_iff)

text \<open>The text of a configuration: the heading, and what each menu prints, in the order of creation.\<close>

lemma conf_text_walk:
  assumes "menu_tree s ts" "choices_wf s"
  shows "conf_text (sym_calc_value n) w s = do {
     head \<leftarrow> conf_write_heading kconfig_print_comment s;
     s \<leftarrow> (if conf_get_changed s then Some s else sym_clear_all_valid (sym_calc_value n) s);
     (body, s) \<leftarrow> print_menus (write_menu (sym_calc_value n) (CONFIG_prefix w)) [1..<k_nmenu s] s;
     Some (head @ body, s)
   }"
proof -
  have walk: "walk_menus (loop_fuel x) (write_menu (sym_calc_value n) pre) (m_list (k_menu x rootmenu)) x =
      print_menus (write_menu (sym_calc_value n) pre) [1..<k_nmenu x] x"
    if "links x = links s" "k_nmenu x = k_nmenu s" "choices_wf x" for x pre
    using walk_tree [OF menu_tree_links [OF assms(1) that(1,2)] ev.write_menu_links that(3)] .
  show ?thesis
  proof (cases "conf_get_changed s")
    case True
    then show ?thesis using walk [of s] assms(2) by (simp add: conf_text_def)
  next
    case False
    then show ?thesis using walk clear_all_valid_wf [OF _ assms(2)]
      by (cases "sym_clear_all_valid (sym_calc_value n) s") (simp_all add: conf_text_def)
  qed
qed

end
