(* ===== verification/Kconfig_Conf_Trip.thy ===== *)
theory Kconfig_Conf_Trip
  imports Kconfig_Conf_File Kconfig_Conf_Walk
begin

text \<open>
  From the state to the file and back: the text that \<open>conf_write\<close> produces is a list of comments and
  entries, one entry with the calculated value for every symbol it writes, so \<open>conf_read_simple\<close> stores
  these values again.
\<close>

section \<open>Values that stay\<close>

definition kept :: "kstate \<Rightarrow> kstate \<Rightarrow> bool" where
  "kept s s' \<longleftrightarrow> (ready s \<longrightarrow> ready s' \<and> erase s' = erase s \<and>
     (\<forall>q. is_valid s q \<longrightarrow> is_valid s' q \<and> curr (k_sym s' q) = curr (k_sym s q)))"

lemma keptI:
  assumes "erase s' = erase s" "\<And>q. is_valid s' q = is_valid s q" "\<And>q. needs_set s' q = needs_set s q"
    "\<And>q. curr (k_sym s' q) = curr (k_sym s q)"
  shows "kept s s'"
  using assms choices_wf_erase [OF assms(1)] eraseD(4) [OF assms(1)] by (simp add: kept_def ready_def tri_env_def)

lemma flag_update [simp]:
  "f \<notin> fs \<Longrightarrow> has_flag (set_flags r fs s) q f = has_flag s q f" "f \<notin> fs \<Longrightarrow> has_flag (clear_flags r fs s) q f = has_flag s q f"
  "curr (k_sym (set_flags r fs s) q) = curr (k_sym s q)" "curr (k_sym (clear_flags r fs s) q) = curr (k_sym s q)"
  by (auto simp: has_flag_def set_flags_def clear_flags_def)

lemma kept_trans: "kept s s' \<Longrightarrow> kept s' s'' \<Longrightarrow> kept s s''"
  by (auto simp: kept_def)

sublocale evaluator \<subseteq> kept: printing calc kept
proof unfold_locales
  show "kept s s" for s by (simp add: kept_def)
  show "kept s s''" if "kept s s'" "kept s' s''" for s s' s'' using that by (rule kept_trans)
  show "kept s s'" if "keeps {} s s'" for s s'
    using that ready_keeps [OF _ that] by (auto simp: kept_def keeps_def frame_def ready_def)
  show "kept s (set_flags r {SYMBOL_DEF S_DEF_USER} s)" "kept s (clear_flags r {SYMBOL_WRITE} s)" for s r
    by (rule keptI; simp add: erase_set_flags erase_clear_flags dyn_flags_def)+
  show "kept s (upd_prop p (\<lambda>x. x\<lparr>p_visible := (p_visible x)\<lparr>ev_tri := v\<rparr>\<rparr>) s)" for s p v
    by (rule keptI, rule erase_prop_tri) (simp_all add: upd_prop_def has_flag_def)
qed

lemma erase_table:
  assumes "erase s' = erase s"
  shows "same_table s s'"
proof -
  note e = erase_symD [OF eraseD(1) [OF assms]]
  have "k_hash (erase s') = k_hash (erase s)" using assms by simp
  then have h: "k_hash s' = k_hash s" by (simp add: erase_def)
  have "find_match s' m = find_match s m" for m
    using e(1) erase_flag [OF assms, of SYMBOL_CONST] by (intro ext) (simp add: find_match_def dyn_flags_def)
  then have "sym_find s' = sym_find s" using h by (intro ext) (simp add: sym_find_def split: option.split)
  moreover have "choice_of s' = choice_of s"
    using e(3) erase_propD [OF eraseD(2) [OF assms]]
    by (intro ext) (simp add: choice_of_def sym_get_choice_prop_def props_of_def prop_get_symbol_def split: option.split)
  ultimately show ?thesis using e(1,2) erase_choice(1,2) [OF assms] by (simp add: same_table_def)
qed

section \<open>Written values\<close>

text \<open>The value of a symbol in the file; \<open>m\<close> is written as \<open>n\<close> while modules are off.\<close>

definition written :: "kstate \<Rightarrow> symref \<Rightarrow> saved" where
  "written s r =
     (if stype (k_sym s r) = S_BOOLEAN \<or> stype (k_sym s r) = S_TRISTATE
      then Saved_tri (if tri_env s r = Mod \<and> \<not> modules_on s then No else tri_env s r)
      else Saved_str (str_env s r))"

definition has_line :: "kstate \<Rightarrow> symref \<Rightarrow> bool" where
  "has_line s r \<longleftrightarrow> \<not> sym_is_choice (k_sym s r) \<and> stype (k_sym s r) \<notin> {S_OTHER, S_UNKNOWN}"

lemma written_text: "saved_text (stype (k_sym s r)) (written s r) = file_value (stype (k_sym s r)) (str_env s r)"
  by (cases "tri_env s r") (auto simp: written_def tri_text_def file_value_def str_env_def)

lemma kept_env:
  assumes "kept s s'" "ready s" "is_valid s r"
  shows "tri_env s' r = tri_env s r" "modules_on s' = modules_on s" "str_env s' r = str_env s r" "written s' r = written s r"
proof -
  have e: "erase s' = erase s" and c: "\<And>q. is_valid s q \<Longrightarrow> curr (k_sym s' q) = curr (k_sym s q)"
    using assms(1,2) by (auto simp: kept_def)
  show t: "tri_env s' r = tri_env s r" using c [OF assms(3)] by (simp add: tri_env_def)
  show m: "modules_on s' = modules_on s"
    using assms(2) c eraseD(4) [OF e] by (auto simp: modules_on_def tri_env_def ready_def split: option.splits)
  show g: "str_env s' r = str_env s r" using t m c [OF assms(3)] erase_choice(3) [OF e] by (simp add: str_env_def)
  show "written s' r = written s r" using t m g erase_choice(3) [OF e] by (simp add: written_def)
qed

section \<open>What a menu prints\<close>

text \<open>The items of a menu: the four lines of the comment with its prompt, or the entry of its symbol.\<close>

fun menu_item :: "kstate \<Rightarrow> nat \<Rightarrow> item \<Rightarrow> bool" where
  "menu_item s m (Comment l) \<longleftrightarrow> l = '''' \<or> l = ''#'' \<or>
     (\<exists>str. m_sym (k_menu s m) = None \<and> menu_get_prompt s m = Some str \<and> l = ''# '' @ str)"
| "menu_item s m (Entry r sv) \<longleftrightarrow> m_sym (k_menu s m) = Some r \<and> has_line s r \<and> is_valid s r \<and> sv = written s r"

lemma erase_menus:
  assumes "erase s' = erase s"
  shows "m_sym (k_menu s' m) = m_sym (k_menu s m)" "menu_get_prompt s' m = menu_get_prompt s m" "has_line s' r = has_line s r"
proof -
  have "k_menu (erase s') m = k_menu (erase s) m" using assms by simp
  then have e: "erase_menu (k_menu s' m) = erase_menu (k_menu s m)" by (simp add: erase_def)
  have "m_sym (erase_menu (k_menu s' m)) = m_sym (erase_menu (k_menu s m))"
    "m_prompt (erase_menu (k_menu s' m)) = m_prompt (erase_menu (k_menu s m))" by (simp_all add: e)
  then have q: "m_sym (k_menu s' m) = m_sym (k_menu s m)" "m_prompt (k_menu s' m) = m_prompt (k_menu s m)"
    by (simp_all add: erase_menu_def)
  show "m_sym (k_menu s' m) = m_sym (k_menu s m)" by (rule q)
  show "menu_get_prompt s' m = menu_get_prompt s m"
    using q erase_symD(1) [OF eraseD(1) [OF assms]] erase_propD [OF eraseD(2) [OF assms]]
    by (simp add: menu_get_prompt_def split: option.split)
  show "has_line s' r = has_line s r" using erase_choice [OF assms] by (simp add: has_line_def)
qed

lemma kept_item:
  assumes "kept s s'" "ready s" "menu_item s m i"
  shows "menu_item s' m i" "item_text pre (k_sym s') i = item_text pre (k_sym s) i"
proof -
  have e: "erase s' = erase s" using assms(1,2) by (simp add: kept_def)
  show "item_text pre (k_sym s') i = item_text pre (k_sym s) i" by (rule table_item [OF erase_table [OF e]])
  show "menu_item s' m i"
    using assms erase_menus [OF e] kept_env(4) [OF assms(1,2)] by (cases i) (auto simp: kept_def)
qed

context full_evaluator
begin

lemma write_symbol_entry:
  assumes "conf_write_symbol calc (kconfig_print_symbol pre False) r s = Some (t, s')" "ready s" "is_valid s r" "has_line s r"
  shows "t = item_text pre (k_sym s') (Entry r (written s' r))"
proof -
  from assms(1,4) obtain str v where g: "sym_get_string_value calc r s = Some (str, s')"
    and v: "file_value (stype (k_sym s r)) str = Some v" and t: "t = kconfig_print_symbol pre False (k_sym s' r) v"
    by (auto simp: conf_write_symbol_def has_line_def file_value_def elim!: bind_SomeE split: symbol_type.splits)
  note sv = string_value [OF g assms(2,3)]
  have "stype (k_sym s' r) = stype (k_sym s r)" by (rule erase_choice(3) [OF frame_erase [OF sv(3)]])
  then show ?thesis using v t sv(1) written_text [of s' r] by simp
qed

lemma write_menu_comment:
  assumes "write_menu calc pre m s = Some (t, s')" "ready s" "m_sym (k_menu s m) = None"
  shows "\<exists>is. t = concat (map (item_text pre (k_sym s')) is) \<and> (\<forall>i \<in> set is. menu_item s' m i)"
proof -
  from assms(1,3) obtain v where v: "menu_is_visible (loop_fuel s) calc m s = Some (v, s')"
    and t: "if v then \<exists>str. menu_get_prompt s' m = Some str \<and> t = newline @ ''#'' @ newline @ ''# '' @ str @ newline @ ''#'' @ newline
      else t = ''''"
    by (auto simp: write_menu_def elim!: bind_SomeE split: if_splits)
  have "kept s s'" by (rule kept.menu_is_visible_R [OF v])
  then have n: "m_sym (k_menu s' m) = None" using assms(2,3) erase_menus(1) [of s' s m] by (simp add: kept_def)
  show ?thesis
  proof (cases v)
    case True
    with t obtain str where "menu_get_prompt s' m = Some str"
      "t = newline @ ''#'' @ newline @ ''# '' @ str @ newline @ ''#'' @ newline" by auto
    with n show ?thesis by (intro exI [of _ "[Comment '''', Comment ''#'', Comment (''# '' @ str), Comment ''#'']"]) simp
  next
    case False
    with t show ?thesis by (intro exI [of _ "[]"]) simp
  qed
qed

lemma write_menu_entry:
  assumes "write_menu calc pre m s = Some (t, s')" "ready s" "m_sym (k_menu s m) = Some r"
  shows "\<exists>is. t = concat (map (item_text pre (k_sym s')) is) \<and> (\<forall>i \<in> set is. menu_item s' m i)"
proof (cases "t = ''''")
  case True
  then show ?thesis by (intro exI [of _ "[]"]) simp
next
  case False
  with assms(1,3) obtain s1 where c: "\<not> sym_is_choice (k_sym s r)" and s1: "calc r s = Some s1"
    and w: "conf_write_symbol calc (kconfig_print_symbol pre False) r (clear_flags r {SYMBOL_WRITE} s1) = Some (t, s')"
    by (auto simp: write_menu_def elim!: bind_SomeE split: if_splits)
  let ?s = "clear_flags r {SYMBOL_WRITE} s1"
  have k: "kept s ?s" using kept.keeps_R [OF calc_keeps [OF s1]] kept.R_write by (rule kept_trans)
  have r: "ready ?s" using k assms(2) by (simp add: kept_def)
  have valid: "is_valid ?s r" using calc_valid [OF s1 assms(2)] by simp
  have "sym_is_choice (k_sym ?s r) = sym_is_choice (k_sym s r)" using k assms(2) erase_choice(1) [of ?s s r] by (simp add: kept_def)
  moreover have "stype (k_sym ?s r) \<notin> {S_OTHER, S_UNKNOWN}" using w False by (auto simp: conf_write_symbol_def)
  ultimately have l: "has_line ?s r" using c by (simp add: has_line_def)
  have k': "kept ?s s'" by (rule kept.conf_write_symbol_R [OF w])
  have e: "erase s' = erase s" using k k' assms(2) by (simp add: kept_def)
  have "is_valid s' r" using k' r valid by (simp add: kept_def)
  moreover have "has_line s' r" using erase_menus(3) [of s' ?s r] l k' r by (simp add: kept_def)
  moreover have "m_sym (k_menu s' m) = Some r" using assms(3) erase_menus(1) [OF e] by simp
  ultimately show ?thesis
    using write_symbol_entry [OF w r valid l] by (intro exI [of _ "[Entry r (written s' r)]"]) simp
qed

lemma print_menus_items:
  "print_menus (write_menu calc pre) ms s = Some (t, s') \<Longrightarrow> ready s \<Longrightarrow>
   kept s s' \<and> (\<exists>is. t = concat (map (item_text pre (k_sym s')) is) \<and> (\<forall>i \<in> set is. \<exists>m \<in> set ms. menu_item s' m i))"
proof (induction ms arbitrary: s t)
  case Nil
  then show ?case by (intro conjI exI [of _ "[]"]) auto
next
  case (Cons m ms)
  then obtain t1 s1 t2 where 1: "write_menu calc pre m s = Some (t1, s1)" and 2: "print_menus (write_menu calc pre) ms s1 = Some (t2, s')"
    and t: "t = t1 @ t2" by (auto elim!: bind_SomeE)
  have k: "kept s s1" by (rule kept.write_menu_R [OF 1])
  then have r: "ready s1" using Cons.prems(2) by (simp add: kept_def)
  obtain is1 where i1: "t1 = concat (map (item_text pre (k_sym s1)) is1)" "\<forall>i \<in> set is1. menu_item s1 m i"
    using write_menu_comment [OF 1 Cons.prems(2)] write_menu_entry [OF 1 Cons.prems(2)] by (cases "m_sym (k_menu s m)") blast+
  obtain is2 where i2: "kept s1 s'" "t2 = concat (map (item_text pre (k_sym s')) is2)"
    "\<forall>i \<in> set is2. \<exists>m \<in> set ms. menu_item s' m i"
    using Cons.IH [OF 2 r] by blast
  have "map (item_text pre (k_sym s1)) is1 = map (item_text pre (k_sym s')) is1" and m: "\<forall>i \<in> set is1. menu_item s' m i"
    using i1(2) kept_item [OF i2(1) r] by auto
  then have "t1 = concat (map (item_text pre (k_sym s')) is1)" using i1(1) by metis
  then show ?case using m i2 t kept_trans [OF k i2(1)] by (intro conjI exI [of _ "is1 @ is2"]) auto
qed

end

section \<open>Reading it back\<close>

text \<open>The menus whose text is read back: comments do not look like an entry, and values have a form that can be read.\<close>

definition skipped :: "string \<Rightarrow> string \<Rightarrow> bool" where
  "skipped pre l \<longleftrightarrow> CHR 0x00 \<notin> set l \<and> parse_line pre l = Some L_skip"

definition readable :: "string \<Rightarrow> kstate \<Rightarrow> nat \<Rightarrow> bool" where
  "readable pre s m \<longleftrightarrow> (case m_sym (k_menu s m) of
     None \<Rightarrow> (\<forall>str. menu_get_prompt s m = Some str \<longrightarrow> CHR 0x0A \<notin> set str \<and> skipped pre (''# '' @ str @ newline))
   | Some r \<Rightarrow> has_line s r \<longrightarrow> (\<exists>n. named s r n) \<and> saved_ok (stype (k_sym s r)) (written s r))"

lemma skip_marks: "parse_line pre newline = Some L_skip" "parse_line pre (''#'' @ newline) = Some L_skip"
  by (cases "length pre"; auto simp: parse_line_def newline_def starts_with_def strchr_def)+

lemma readable_item:
  assumes "readable pre s m" "menu_item s m i"
  shows "item_ok pre s i"
  using assms skip_marks
  by (cases i) (auto simp: readable_def skipped_def line_ok_def newline_def)

lemma file_lines_concat: "x = [] \<or> List.last x = CHR 0x0A \<Longrightarrow> file_lines (x @ y) = file_lines x @ file_lines y"
proof (induction "length x" arbitrary: x rule: less_induct)
  case less
  show ?case
  proof (cases "x = []")
    case True
    then show ?thesis by (simp add: file_lines.simps [of "[]"])
  next
    case False
    then have "CHR 0x0A \<in> set x" using less.prems last_in_set [of x] by auto
    then obtain l z where x: "x = l @ newline @ z" "CHR 0x0A \<notin> set l"
      using split_list_first [of "CHR 0x0A" x] by (auto simp: newline_def)
    have "z = [] \<or> List.last z = CHR 0x0A" using less.prems False x by (auto simp: newline_def split: if_splits)
    then have "file_lines (z @ y) = file_lines z @ file_lines y" using less.hyps [of z] x by (simp add: newline_def)
    then show ?thesis using x file_lines_append [of l] by simp
  qed
qed

lemma read_skipped:
  "\<forall>l \<in> set ls. skipped pre l \<Longrightarrow> read_all pre d (ls @ ls') s = read_all pre d ls' s"
  by (induction ls) (simp_all add: skipped_def c_string_id read_line_def)

lemma comment_ends: "comment_lines lead v \<noteq> [] \<and> List.last (comment_lines lead v) = CHR 0x0A"
proof (induction lead v rule: comment_lines.induct)
  case (1 lead v)
  then show ?case by (subst (1 2) comment_lines.simps) (auto simp only: Let_def newline_def split: list.split, auto)
qed

lemma reset_table: "same_table s (fold (reset_sym d) rs s)"
proof (induction rs arbitrary: s)
  case (Cons r rs)
  have "same_table s (reset_sym d r s)"
    by (rule same_tableI) (auto simp: reset_sym_def upd_sym_def kind_flags_def)
  then show ?case using Cons.IH [of "reset_sym d r s"] same_table_trans by (simp only: fold_simps)
qed simp

lemma read_back:
  assumes "prefix_ok pre" "ready s" "print_menus (write_menu (sym_calc_value n) pre) ms s = Some (body, s')"
    and "\<forall>m \<in> set ms. readable pre s' m" "\<forall>l \<in> set (file_lines head). skipped pre l" "List.last head = CHR 0x0A"
  shows "\<exists>is s''. body = concat (map (item_text pre (k_sym s')) is) \<and>
    (\<forall>i \<in> set is. \<exists>m \<in> set ms. menu_item s' m i) \<and>
    read_lines pre S_DEF_USER [] (head @ body) (fold (reset_sym S_DEF_USER) (all_syms s') s') = Some s'' \<and>
    restored is (fold (reset_sym S_DEF_USER) (all_syms s') s') s''"
proof -
  let ?s = "fold (reset_sym S_DEF_USER) (all_syms s') s'"
  obtain "is" where i: "body = concat (map (item_text pre (k_sym s')) is)" "\<forall>i \<in> set is. \<exists>m \<in> set ms. menu_item s' m i"
    using fev.print_menus_items [OF assms(3,2)] by blast
  note same = table_item [OF reset_table [of s' S_DEF_USER "all_syms s'"]]
  have "\<forall>i \<in> set is. item_ok pre ?s i" using i(2) assms(4) readable_item unfolding same by blast
  moreover have "consistent is"
    unfolding consistent_def
  proof (intro allI impI)
    fix r sv sv' assume "Entry r sv \<in> set is" "Entry r sv' \<in> set is"
    then have "sv = written s' r" "sv' = written s' r" using i(2) by fastforce+
    then show "sv = sv'" by simp
  qed
  ultimately obtain s'' where
    s'': "read_all pre S_DEF_USER (file_lines (concat (map (item_text pre (k_sym ?s)) is))) ?s = Some s''" "restored is ?s s''"
    using read_file [OF assms(1)] by blast
  then have "read_lines pre S_DEF_USER [] (head @ body) ?s = Some s''"
    using assms(5,6) i(1) unfolding same by (simp add: read_lines_all file_lines_concat read_skipped)
  then show ?thesis using i s''(2) by blast
qed

section \<open>The lines of a text\<close>

lemma split_line_shape:
  assumes "inp \<noteq> []"
  shows "fst (split_line inp) @ snd (split_line inp) = inp" "fst (split_line inp) \<noteq> []"
    "CHR 0x0A \<notin> set (butlast (fst (split_line inp)))"
  using assms strchr_split [of "CHR 0x0A" inp]
  by (auto simp: split_line_def newline_def strchr_def butlast_append dest: set_takeWhileD in_set_butlastD
      split: option.splits list.splits)

lemma lines_concat: "concat (file_lines inp) = inp"
  by (induction inp rule: file_lines.induct) (subst file_lines.simps, simp add: split_line_shape)

lemma lines_shape: "l \<in> set (file_lines inp) \<Longrightarrow> l \<noteq> [] \<and> CHR 0x0A \<notin> set (butlast l)"
proof (induction inp rule: file_lines.induct)
  case (1 inp)
  then show ?case using split_line_shape [of inp] by (subst (asm) (2) file_lines.simps) (auto split: if_splits)
qed

lemma conf_text_kept:
  assumes "menu_tree s ts" "conf_get_changed s" "ready s" "conf_text (sym_calc_value n) w s = Some (out, s')"
  shows "kept s s'"
proof -
  have "choices_wf s" using assms(3) by (rule readyD)
  then obtain body where "print_menus (write_menu (sym_calc_value n) (CONFIG_prefix w)) [1..<k_nmenu s] s = Some (body, s')"
    using assms conf_text_walk [OF assms(1), of n w] by (auto elim!: bind_SomeE)
  then show ?thesis using fev.print_menus_items [OF _ assms(3)] by blast
qed

end
