(* ===== verification/Kconfig_Conf_Props.thy ===== *)
theory Kconfig_Conf_Props
  imports Kconfig_Conf_Trip Kconfig_Calc_Props
begin

text \<open>The properties of configuration files, with a sample configuration that has a menu tree in their witnesses.\<close>

section \<open>The sample files\<close>

definition sample_menu :: "nat \<Rightarrow> menu" where
  "sample_menu m =
     (if m = 0 then empty_menu\<lparr>m_list := Some 1, m_prompt := Some 4\<rparr>
      else if m = 1 then empty_menu\<lparr>m_parent := Some 0, m_next := Some 2, m_prompt := Some 5\<rparr>
      else empty_menu\<lparr>m_parent := Some 0, m_sym := Some sA, m_prompt := Some 0\<rparr>)"

definition sample_hash :: "nat \<Rightarrow> symref list" where
  "sample_hash b = (if b = 3066 then [sA] else if b = 2192 then [sB] else if b = 9132 then [sC]
     else if b = 7795 then [sS] else if b = 7384 then [sI] else [])"

definition file_state :: kstate where
  "file_state = sample_state\<lparr>
     k_hash := sample_hash,
     k_prop := (\<lambda>p. if p = 4 then (mk_prop sA P_MENU (Some ''Sample'') None None)\<lparr>p_sym := None\<rparr>
       else if p = 5 then (mk_prop sA P_COMMENT (Some ''Options'') None None)\<lparr>p_sym := None\<rparr> else sample_k_prop p),
     k_nprop := 6, k_menu := sample_menu, k_nmenu := 3, k_change_count := 1\<rparr>"

definition sample_os :: os where
  "sample_os = \<lparr>os_getenv = (\<lambda>_. None), os_files = [''.config'' \<mapsto> ''old''], os_isdir = (\<lambda>_. False),
     os_writable = (\<lambda>_. True), os_pid = 7\<rparr>"



abbreviation "file_out \<equiv> conf_text (sym_calc_value 5) sample_os file_state"


section \<open>Lines\<close>

text \<open>
  C10: the line reader of \<open>conf_read_simple\<close> never writes behind its buffer and handles exactly the
  lines of the file, each up to and with its newline, in order: the loop with the growing buffer
  equals the recursion over the lines.
\<close>

theorem read_lines_correct:
  "read_lines pre d [] inp s = read_all pre d (file_lines inp) s \<and> concat (file_lines inp) = inp \<and>
   (\<forall>l \<in> set (file_lines inp). l \<noteq> [] \<and> CHR 0x0A \<notin> set (butlast l))"
  using read_lines_all lines_concat lines_shape by blast

theorem read_lines_correct_witness:
  "read_lines ''CONFIG_'' S_DEF_USER [] (''# a'' @ CHR 0x0A # ''CONFIG_A=y'') sample_state =
     read_all ''CONFIG_'' S_DEF_USER [''# a'' @ [CHR 0x0A], ''CONFIG_A=y''] sample_state \<and>
   CHR 0x0A \<notin> set (butlast (''# a'' @ [CHR 0x0A]))"
proof -
  have l: "file_lines (''# a'' @ CHR 0x0A # ''CONFIG_A=y'') = [''# a'' @ [CHR 0x0A], ''CONFIG_A=y'']" by code_simp
  show ?thesis
    using read_lines_correct [of "''CONFIG_''" S_DEF_USER "''# a'' @ CHR 0x0A # ''CONFIG_A=y''" sample_state]
    unfolding l by simp
qed

section \<open>Writing and reading back\<close>












section \<open>Installing the file\<close>






section \<open>Random configurations\<close>

text \<open>
  C33: every setting of \<open>KCONFIG_PROBABILITY\<close> that \<open>conf_set_all_new_symbols\<close> accepts gives percentages:
  none is negative, that of a boolean is at most 100 and those of \<open>y\<close> and \<open>m\<close> for a tristate
  together are at most 100; a boolean is never drawn as \<open>m\<close>, a probability of 100 always gives \<open>y\<close> and
  one of 0 never does.
\<close>

theorem probabilities_sound:
  assumes "probabilities env = Some (pby, pty, ptm)"
  shows "0 \<le> pby \<and> pby \<le> 100 \<and> 0 \<le> pty \<and> 0 \<le> ptm \<and> pty + ptm \<le> 100 \<and>
    (t \<noteq> S_TRISTATE \<longrightarrow> random_tri (pby, pty, ptm) t k \<noteq> Mod) \<and>
    (t \<noteq> S_TRISTATE \<and> pby = 100 \<or> t = S_TRISTATE \<and> pty = 100 \<longrightarrow> random_tri (pby, pty, ptm) t k = Yes) \<and>
    (t \<noteq> S_TRISTATE \<and> pby = 0 \<or> t = S_TRISTATE \<and> pty = 0 \<longrightarrow> random_tri (pby, pty, ptm) t k \<noteq> Yes)"
  using probabilities_bounds [OF assms] by (auto simp: random_tri_def Let_def)

theorem probabilities_sound_witness:
  "probabilities (Some ''100:0:40'') = Some (100, 0, 40) \<and> random_tri (100, 0, 40) S_BOOLEAN 99 = Yes"
proof -
  have p: "probabilities (Some ''100:0:40'') = Some (100, 0, 40)" by code_simp
  show ?thesis using probabilities_sound [OF p, of S_BOOLEAN 99] p by simp
qed

text \<open>
  C25: \<open>randomize_choice_values\<close> gives an active choice exactly one \<open>y\<close>: one value of the choice becomes \<open>y\<close> and the
  value of the choice, all others become \<open>n\<close>, all of them count as set by the user and are to be
  evaluated again, and no symbol outside the choice changes.
\<close>

theorem randomize_choice_one:
  assumes "choice_members s c = Some ms" "distinct ms" "c \<notin> set ms" "ms \<noteq> []" "tri (curr (k_sym s c)) = Yes"
  shows "\<exists>s' r. randomize_choice_values rnd c (k, s) = Some (True, Suc k, s') \<and> r \<in> set ms \<and>
    user_tri s' r = Yes \<and> (\<forall>q \<in> set ms. q \<noteq> r \<longrightarrow> user_tri s' q = No) \<and>
    val (sdef (k_sym s' c) S_DEF_USER) = VSym r \<and> (\<forall>q \<in> set (c # ms). sym_has_value (k_sym s' q) \<and> \<not> is_valid s' q) \<and>
    (\<forall>q. q \<notin> set (c # ms) \<longrightarrow> k_sym s' q = k_sym s q)"
proof -
  define d where "d = rnd k mod length ms"
  define s1 where "s1 = set_members d c ms 0 s"
  define s' where "s' = clear_flags c {SYMBOL_VALID} (set_flags c {SYMBOL_DEF S_DEF_USER} s1)"
  have d: "d < length ms" using assms(4) by (simp add: d_def)
  have e: "randomize_choice_values rnd c (k, s) = Some (True, Suc k, s')"
    using assms(1,4,5) by (simp add: randomize_choice_values_def s'_def s1_def d_def Let_def)
  have o: "k_sym s' q = k_sym s1 q" if "q \<noteq> c" for q using that by (simp add: s'_def set_flags_def clear_flags_def)
  have c: "sdef (k_sym s' c) = sdef (k_sym s1 c)" "sym_has_value (k_sym s' c)" "\<not> is_valid s' c"
    by (simp_all add: s'_def set_flags_def clear_flags_def sym_has_value_def has_flag_def)
  have v: "user_tri s' (ms ! j) = (if j = d then Yes else No) \<and> sym_has_value (k_sym s' (ms ! j)) \<and> \<not> is_valid s' (ms ! j)"
    if j: "j < length ms" for j
  proof -
    have "ms ! j \<noteq> c" using j assms(3) by auto
    then show ?thesis
      using o set_members_values [OF assms(2,3) j, of d 0 s] set_members_invalid [OF assms(3), of "ms ! j" d 0 s] j
      by (simp add: s1_def has_flag_def)
  qed
  have "\<forall>q \<in> set ms. (user_tri s' q = (if q = ms ! d then Yes else No)) \<and> sym_has_value (k_sym s' q) \<and> \<not> is_valid s' q"
    using v assms(2) d by (auto simp: in_set_conv_nth nth_eq_iff_index_eq)
  moreover have "val (sdef (k_sym s' c) S_DEF_USER) = VSym (ms ! d)"
    using set_members_choice [OF assms(3), of 0 d s] d c(1) by (simp add: s1_def)
  moreover have "k_sym s' q = k_sym s q" if "q \<notin> set (c # ms)" for q
    using that o set_members_other [of q ms c d 0 s] by (simp add: s1_def)
  ultimately show ?thesis using e c(2,3) d nth_mem [OF d] by (intro exI [of _ s'] exI [of _ "ms ! d"]) auto
qed

definition choice_state :: kstate where
  "choice_state = sample_state\<lparr>
     k_sym := (k_sym sample_state)(sA := (mk_symbol None {SYMBOL_CHOICE})\<lparr>stype := S_BOOLEAN, props := [0], curr := \<lparr>val = VNull, tri = Yes\<rparr>\<rparr>),
     k_prop := (\<lambda>_. mk_prop sA P_CHOICE None None (Some (E_LIST (Some (E_LIST None sB)) sC)))\<rparr>"

theorem randomize_choice_one_witness:
  "\<exists>s' r. randomize_choice_values (\<lambda>_. 5) sA (0, choice_state) = Some (True, 1, s') \<and> r \<in> {sB, sC} \<and> user_tri s' r = Yes"
proof -
  have "choice_members choice_state sA = Some [sC, sB]" "tri (curr (k_sym choice_state sA)) = Yes"
    by (simp_all add: choice_state_def choice_members_def sym_get_choice_prop_def props_of_def first_of_def mk_symbol_def mk_prop_def)
  then show ?thesis using randomize_choice_one [of choice_state sA "[sC, sB]" "\<lambda>_. 5" 0] by auto
qed

end
