(* ===== verification/Kconfig_Util_Props.thy ===== *)
theory Kconfig_Util_Props
  imports Kconfig_Conf_Sem Kconfig_Sample
begin

text \<open>The properties of the growable strings and of the files for the build.\<close>

section \<open>Growable strings\<close>

fun append_all :: "gstr \<Rightarrow> string option list \<Rightarrow> gstr option" where
  "append_all gs [] = Some gs"
| "append_all gs (t # ts) = Option.bind (str_append gs t) (\<lambda>gs. append_all gs ts)"

lemma append_all_ok:
  "gstr_ok gs \<Longrightarrow> \<exists>gs'. append_all gs ts = Some gs' \<and> gstr_ok gs' \<and>
     gs_s gs' = gs_s gs @ concat (map (\<lambda>t. case t of None \<Rightarrow> '''' | Some x \<Rightarrow> x) ts) \<and> gs_len gs \<le> gs_len gs'"
proof (induction ts arbitrary: gs)
  case (Cons t ts)
  obtain gs1 where "str_append gs t = Some gs1" "gstr_ok gs1" "gs_len gs \<le> gs_len gs1"
    "gs_s gs1 = gs_s gs @ (case t of None \<Rightarrow> '''' | Some x \<Rightarrow> x)" using append_ok [OF Cons.prems, of t] by blast
  then show ?case using Cons.IH [of gs1] by fastforce
qed simp

text \<open>
  C31: any sequence of \<open>str_append\<close> on a new string or on an assigned one succeeds, never writes behind the
  allocated buffer, whose size never shrinks, and results in the concatenation of the strings,
  null pointers being skipped.
\<close>

theorem str_append_correct:
  "(\<exists>gs. append_all str_new ts = Some gs \<and> length (gs_s gs) < gs_len gs \<and> 64 \<le> gs_len gs \<and>
      gs_s gs = concat (map (\<lambda>t. case t of None \<Rightarrow> '''' | Some x \<Rightarrow> x) ts)) \<and>
   (\<exists>gs. append_all (str_assign str) ts = Some gs \<and> length (gs_s gs) < gs_len gs \<and>
      gs_s gs = str @ concat (map (\<lambda>t. case t of None \<Rightarrow> '''' | Some x \<Rightarrow> x) ts))"
  using append_all_ok [of str_new ts] append_all_ok [of "str_assign str" ts]
  by (auto simp: gstr_ok_def str_new_def str_assign_def)

section \<open>The files for the build\<close>

text \<open>Names that the steps before the last rename touch.\<close>

definition headers_only :: "string \<Rightarrow> bool" where
  "headers_only n \<longleftrightarrow> (\<forall>p. n \<noteq> p @ ''.h'')"

lemma header_path_suffix: "header_path nm = Some p \<Longrightarrow> \<exists>q. p = q @ ''.h''"
  by (auto simp: header_path_def path_buf_def split: if_splits)

lemma make_dirs_files: "make_dirs dir ds w = (ok, w') \<Longrightarrow> os_files w' = os_files w \<and> os_getenv w' = os_getenv w"
  by (induction dir ds w rule: make_dirs.induct) (auto simp: Let_def split: if_splits)

lemma touch_header_files:
  assumes "touch_header dir path w = (ok, w')" "n \<noteq> at_dir dir path"
  shows "os_files w' n = os_files w n" "os_getenv w' = os_getenv w"
  using assms by (auto simp: touch_header_def write_file_def Let_def split: if_splits prod.splits dest!: make_dirs_files)

lemma at_dir_suffix: "\<exists>q. at_dir dir (p @ ''.h'') = q @ ''.h''"
  by (cases "hd (p @ ''.h'') = CHR ''/''") (auto simp: at_dir_def intro: exI [of _ "dir @ ''/'' @ p"])

lemma touch_headers_files:
  "touch_headers calc dir rs s w = Some (res, s', w') \<Longrightarrow> headers_only n \<Longrightarrow> os_files w' n = os_files w n \<and> os_getenv w' = os_getenv w"
proof (induction rs arbitrary: s w)
  case (Cons r rs)
  from Cons.prems(1) obtain t s1 where m: "must_touch calc r s = Some (t, s1)"
    and rest: "if t then \<exists>nm path ok w1. header_path nm = Some path \<and> touch_header dir path w = (ok, w1) \<and>
        (if ok then touch_headers calc dir rs s1 w1 = Some (res, s', w') else w' = w1)
      else touch_headers calc dir rs s1 w = Some (res, s', w')"
    by (auto elim!: bind_SomeE split: if_splits prod.splits) metis+
  show ?case
  proof (cases t)
    case True
    then obtain nm path ok w1 where p: "header_path nm = Some path" "touch_header dir path w = (ok, w1)"
      and c: "if ok then touch_headers calc dir rs s1 w1 = Some (res, s', w') else w' = w1" using rest by auto
    have "n \<noteq> at_dir dir path" using header_path_suffix [OF p(1)] at_dir_suffix Cons.prems(2) by (auto simp: headers_only_def)
    from touch_header_files [OF p(2) this] show ?thesis using c Cons.IH [of s1 w1] Cons.prems(2) by (auto split: if_splits)
  qed (use rest Cons in auto)
qed simp

lemma split_config_files:
  assumes "conf_split_config zfopen calc s w = Some (res, s', w')" "headers_only n"
  shows "os_files w' n = os_files w n" "os_getenv w' = os_getenv w"
  using assms touch_headers_files by (auto simp: conf_split_config_def elim!: bind_SomeE split: if_splits)

lemma write_dep_files:
  assumes "file_write_dep nm files s w = Some (res, w')" "config_dir w = Some dir" "n \<noteq> dir @ ''..config.tmp''"
    "nm = Some cmd" "n \<noteq> dir @ cmd"
  shows "os_files w' n = os_files w n" "os_getenv w' = os_getenv w"
  using assms
  by (auto simp: file_write_dep_def rename_file_def write_file_def path_buf_def elim!: bind_SomeE split: if_splits option.splits)

lemma rename_files:
  "rename_file a b w = (ok, w') \<Longrightarrow> n \<noteq> a \<Longrightarrow> n \<noteq> b \<Longrightarrow> os_files w' n = os_files w n \<and> os_getenv w' = os_getenv w"
  by (auto simp: rename_file_def split: option.splits if_splits)

text \<open>The rename to \<open>auto.conf\<close> is the last step.\<close>

lemma install_last:
  assumes "install_autoconf dir w = Some (res, w')" "conf_get_autoconfig_name w = Some n" "res \<noteq> 0"
    and "n \<notin> {dir @ ''.tmpconfig.h'', dir @ ''.tmpconfig_tristate'',
      env_or w ''KCONFIG_AUTOHEADER'' ''include/generated/autoconf.h'', env_or w ''KCONFIG_TRISTATE'' ''include/config/tristate.conf''}"
  shows "os_files w' n = os_files w n"
proof -
  let ?h = "env_or w ''KCONFIG_AUTOHEADER'' ''include/generated/autoconf.h''"
  let ?t = "env_or w ''KCONFIG_TRISTATE'' ''include/config/tristate.conf''"
  obtain ok1 w1 where r1: "rename_file (dir @ ''.tmpconfig.h'') ?h w = (ok1, w1)" by fastforce
  have e1: "os_files w1 n = os_files w n" "os_getenv w1 = os_getenv w" using rename_files [OF r1, of n] assms(4) by auto
  have t: "env_or w1 v d = env_or w v d" for v d using e1(2) by (simp add: env_or_def)
  obtain ok2 w2 where r2: "rename_file (dir @ ''.tmpconfig_tristate'') ?t w1 = (ok2, w2)" by fastforce
  have e2: "os_files w2 n = os_files w1 n" "os_getenv w2 = os_getenv w1" using rename_files [OF r2, of n] assms(4) by auto
  have n: "conf_get_autoconfig_name w2 = Some n" using assms(2) e1 e2 by (simp add: conf_get_autoconfig_name_def)
  obtain ok3 w3 where r3: "rename_file (dir @ ''.tmpconfig'') n w2 = (ok3, w3)" by fastforce
  have "w3 = w2" if "\<not> ok3" using r3 that by (auto simp: rename_file_def split: option.splits if_splits)
  moreover have "w' = (if \<not> ok1 then w1 else if \<not> ok2 then w2 else w3) \<and> (ok1 \<and> ok2 \<longrightarrow> \<not> ok3)"
    using assms(1,3) r1 r2 r3 n t by (auto simp: install_autoconf_def split: if_splits)
  ultimately show ?thesis using e1 e2 by (auto split: if_splits)
qed

lemma path_bufD: "path_buf p = Some q \<Longrightarrow> q = p"
  by (simp add: path_buf_def split: if_splits)

lemma autoconf_files_other:
  assumes "write_autoconf_files calc dir s w = Some (res, s', w')" "n \<notin> {dir @ ''.tmpconfig'', dir @ ''.tmpconfig_tristate'', dir @ ''.tmpconfig.h''}"
  shows "\<exists>w3. os_getenv w3 = os_getenv w \<and> os_files w3 n = os_files w n \<and> (w' = w3 \<or> install_autoconf dir w3 = Some (res, w'))"
proof (rule ccontr)
  assume no: "\<not> ?thesis"
  have w: "False" if "os_getenv w' = os_getenv w" "os_files w' n = os_files w n" using that no by blast
  have i: "install_autoconf dir w3 \<noteq> Some (res, w')"
    if "os_getenv w3 = os_getenv w" "os_files w3 n = os_files w n" for w3 using that no by blast
  show False
    using assms w i by (auto simp: write_autoconf_files_def Let_def write_file_def dest!: path_bufD elim!: bind_SomeE if_SomeE)
qed

text \<open>
  C17: \<open>auto.conf\<close> is the mark of success: if \<open>conf_write_autoconf\<close> does not return zero, at whatever step it
  fails, \<open>auto.conf\<close> is as it was, provided that it is none of the other files the function
  writes; a header that is touched has a name with the suffix \<open>.h\<close>.
\<close>

theorem autoconf_written_last:
  assumes "conf_write_autoconf zfopen calc files s w = Some (res, s', w')" "res \<noteq> 0"
    and "config_dir w = Some dir" "conf_get_autoconfig_name w = Some n" "\<forall>p. n \<noteq> p @ ''.h''"
    and "n \<notin> {dir @ ''..config.tmp'', dir @ dir @ ''.config.cmd'', dir @ ''.tmpconfig'', dir @ ''.tmpconfig_tristate'', dir @ ''.tmpconfig.h'',
      env_or w ''KCONFIG_AUTOHEADER'' ''include/generated/autoconf.h'', env_or w ''KCONFIG_TRISTATE'' ''include/config/tristate.conf''}"
  shows "os_files w' n = os_files w n"
proof -
  have h: "headers_only n" using assms(5) by (simp add: headers_only_def)
  obtain s1 w1 s2 w2 r1 r2 where
    d: "file_write_dep (Some (dir @ ''.config.cmd'')) files s1 w = Some (r1, w1)"
    and c: "conf_split_config zfopen calc s1 w1 = Some (r2, s2, w2)"
    and t: "w' = w2 \<or> write_autoconf_files calc dir s2 w2 = Some (res, s', w')"
    using assms(1,3) unfolding conf_write_autoconf_def
    by (auto simp: path_buf_def elim!: bind_SomeE split: if_splits)
  have rest: "w' = w2 \<or> (\<exists>w3. os_getenv w3 = os_getenv w2 \<and> os_files w3 n = os_files w2 n \<and>
        (w' = w3 \<or> install_autoconf dir w3 = Some (res, w')))"
    using t autoconf_files_other [of calc dir s2 w2 res s' w' n] assms(6) by auto
  note e1 = write_dep_files [OF d assms(3) _ refl, of n] and e2 = split_config_files [OF c h]
  have "os_files w3 n = os_files w2 n \<Longrightarrow> os_getenv w3 = os_getenv w2 \<Longrightarrow> install_autoconf dir w3 = Some (res, w') \<Longrightarrow>
      os_files w' n = os_files w3 n" for w3
    using install_last [of dir w3 res w' n] assms(2,4,6) e1(2) e2(2) by (simp add: conf_get_autoconfig_name_def env_or_def)
  then show ?thesis using rest e1(1) e2(1) assms(6) by auto
qed

definition full_disk :: os where
  "full_disk = \<lparr>os_getenv = [''KCONFIG_AUTOCONFIG'' \<mapsto> ''auto.conf''], os_files = [''auto.conf'' \<mapsto> ''old''],
     os_isdir = (\<lambda>_. False), os_writable = (\<lambda>_. False), os_pid = 7\<rparr>"

theorem autoconf_written_last_witness:
  "\<exists>s' w'. conf_write_autoconf (\<lambda>_. None) (sym_calc_value (Suc 0)) [] sample_state full_disk = Some (1, s', w') \<and>
    os_files w' ''auto.conf'' = Some ''old''"
proof -
  have d: "config_dir full_disk = Some ''''" "conf_get_autoconfig_name full_disk = Some ''auto.conf''" "\<forall>p. ''auto.conf'' \<noteq> p @ ''.h''"
    by (simp_all add: full_disk_def config_dir_def conf_get_configname_def path_buf_def strrchr_def strchr_def conf_get_autoconfig_name_def
        Cons_eq_append_conv)
  moreover have "sym_clear_all_valid (sym_calc_value (Suc 0)) sample_state = Some (sym_add_change_count 1 sample_state)"
  proof -
    have "all_syms sample_state = []" by (auto simp: all_syms_def sample_state_def filter_empty_conv)
    then show ?thesis
      by (simp add: sym_clear_all_valid_def calc_opt_def sym_add_change_count_def sym_set_change_count_def Let_def
          has_flag_def) (simp add: sample_state_def sample_k_sym_def sym_calc_step_def has_flag_def mk_symbol_def)
  qed
  ultimately have "conf_write_autoconf (\<lambda>_. None) (sym_calc_value (Suc 0)) [] sample_state full_disk =
      Some (1, sym_add_change_count 1 sample_state, full_disk)"
    by (simp add: conf_write_autoconf_def file_write_dep_def path_buf_def conf_split_config_def conf_read_simple_def) (simp add: full_disk_def)
  then obtain s' w' where c: "conf_write_autoconf (\<lambda>_. None) (sym_calc_value (Suc 0)) [] sample_state full_disk = Some (1, s', w')" by auto
  show ?thesis using autoconf_written_last [OF c _ d] c by (simp add: full_disk_def env_or_def)
qed

end
