(* ===== verification/Kconfig_Menu_Props.thy ===== *)
theory Kconfig_Menu_Props
  imports Kconfig_Menu_Final Kconfig_Calc_Props
begin

text \<open>The properties of the menus: what the calls of the parser build and what \<open>menu_finalize\<close> keeps.\<close>

section \<open>Building\<close>

text \<open>
  C4: the calls of the parser build the tree they describe.  The specification of a sequence of calls
  keeps, for every open menu, the forest of its entries: \<open>menu_add_entry\<close> appends an entry,
  \<open>menu_add_menu\<close> opens the last one, \<open>menu_end_menu\<close> closes the innermost.  The pointers \<open>next\<close>, \<open>list\<close>,
  \<open>parent\<close> and the variables \<open>current_menu\<close> and \<open>last_entry_ptr\<close> represent exactly this tree, in which the
  menus stand in the order of their creation; the calls that add properties leave it alone.
\<close>

theorem menu_build_refines:
  assumes "no_menus s" "spec_ops xs start = Some b" "run_ops getenv xs (menu_init s) = Some s'"
  shows "menu_tree s' (plug (open_menus b)) \<and> k_nmenu s' = next_menu b \<and>
    k_current_menu s' = fst (hd (open_menus b)) \<and> k_last_entry s' = frame_slot (open_menus b)"
  using ops_rep [OF start_rep [OF assms(1)] assms(2,3)] build_rep_tree by (auto simp: build_rep_def)

abbreviation sample_ops :: "build_op list" where
  "sample_ops \<equiv> [B_entry (Some sS), B_menu, B_entry None, B_entry (Some sC), B_end, B_entry None]"

lemma sample_no_menus: "no_menus sample_state"
  by (simp add: no_menus_def links_def sample_state_def empty_menu_def)

theorem menu_build_refines_witness:
  "\<exists>s'. run_ops (\<lambda>_. None) sample_ops (menu_init sample_state) = Some s' \<and>
    menu_tree s' [MNode 1 [MNode 2 [], MNode 3 []], MNode 4 []]"
proof -
  have "spec_ops sample_ops start = Some \<lparr>fresh = True, next_menu = 5,
      open_menus = [(0, [MNode 1 [MNode 2 [], MNode 3 []], MNode 4 []])]\<rparr>"
    by (simp add: start_def)
  moreover obtain s' where r: "run_ops (\<lambda>_. None) sample_ops (menu_init sample_state) = Some s'"
    using tree_ops_rep [OF start_rep [OF sample_no_menus] calculation, of "\<lambda>_. None"] by auto
  ultimately show ?thesis using menu_build_refines [OF sample_no_menus _ r] by auto
qed

text \<open>
  The calls that change the tree never fail where the grammar allows them: any sequence of entries
  and of opened and closed menus that is balanced in the sense of the specification runs to the end.
\<close>

theorem menu_build_total:
  assumes "no_menus s" "spec_ops xs start = Some b" "\<forall>x \<in> set xs. changes_tree x"
  shows "\<exists>s'. run_ops getenv xs (menu_init s) = Some s' \<and> menu_tree s' (plug (open_menus b))"
  using tree_ops_rep [OF start_rep [OF assms(1)] assms(2,3), of getenv] build_rep_tree by blast

theorem menu_build_total_witness:
  "\<exists>s'. run_ops (\<lambda>_. None) [B_entry (Some sA), B_menu, B_entry (Some sB), B_end] (menu_init sample_state) = Some s' \<and>
    menu_tree s' [MNode 1 [MNode 2 []]]"
  using menu_build_total [OF sample_no_menus, of "[B_entry (Some sA), B_menu, B_entry (Some sB), B_end]" _ "\<lambda>_. None"]
  by (simp add: start_def numeral_2_eq_2)

section \<open>Dependencies\<close>

text \<open>The value of an expression in which \<open>m\<close> means \<open>m && MODULES\<close>.\<close>

definition mod_env :: "(symref \<Rightarrow> tristate) \<Rightarrow> symref \<Rightarrow> symref \<Rightarrow> tristate" where
  "mod_env tv ms = tv(Symbol_mod := EXPR_AND (tv Symbol_mod) (tv ms))"

lemma check_dep_value: "check_dep ms e = Some e' \<Longrightarrow> ms = Some m \<Longrightarrow> expr_value tv sv e' = expr_value (mod_env tv m) sv e"
  by (induction ms e arbitrary: e' rule: check_dep.induct) (auto simp: mod_env_def elim!: bind_SomeE split: if_splits)

lemma alloc_and_value: "value_opt tv sv (expr_alloc_and a b) = EXPR_AND (value_opt tv sv a) (value_opt tv sv b)"
  by (cases a; cases b) (simp_all add: value_opt_def EXPR_AND_min)

text \<open>
  C27: \<open>menu_add_dep\<close> conjoins: the dependency of the current entry has the value of the old one and of
  the new one together, where a plain \<open>m\<close> in the new one counts only as far as modules are on.
\<close>

theorem menu_add_dep_value:
  assumes "menu_add_dep dep s = Some s'" "k_modules_sym s = Some m"
  shows "value_opt tv sv (m_dep (k_menu s' (k_current_entry s))) =
      EXPR_AND (value_opt tv sv (m_dep (k_menu s (k_current_entry s)))) (value_opt (mod_env tv m) sv dep) \<and>
    (\<forall>q. q \<noteq> k_current_entry s \<longrightarrow> k_menu s' q = k_menu s q)"
proof -
  obtain d where d: "menu_check_dep s dep = Some d"
    "s' = upd_menu (k_current_entry s) (\<lambda>x. x\<lparr>m_dep := expr_alloc_and (m_dep x) d\<rparr>) s"
    using assms(1) by (auto simp: menu_add_dep_def elim!: bind_SomeE)
  have "value_opt tv sv d = value_opt (mod_env tv m) sv dep"
    using d(1) assms(2) check_dep_value by (auto simp: menu_check_dep_def value_opt_def split: option.splits)
  then show ?thesis using d(2) by (simp add: alloc_and_value)
qed

theorem menu_add_dep_value_witness:
  "\<exists>s'. menu_add_dep (Some (E_OR (E_SYMBOL Symbol_mod) (E_SYMBOL sA))) sample_state = Some s' \<and>
    value_opt (tri_env sample_state) (str_env sample_state) (m_dep (k_menu s' 0)) = No"
proof -
  have m: "k_modules_sym sample_state = Some Symbol_no" "k_current_entry sample_state = 0" by (simp_all add: sample_state_def)
  obtain s' where s': "menu_add_dep (Some (E_OR (E_SYMBOL Symbol_mod) (E_SYMBOL sA))) sample_state = Some s'"
    using m by (simp add: menu_add_dep_def menu_check_dep_def)
  show ?thesis
    using menu_add_dep_value [OF s' m(1), of "tri_env sample_state" "str_env sample_state"] s' m(2)
    by (simp add: value_opt_def mod_env_def tri_env_def sample_defs empty_menu_def EXPR_AND_def EXPR_OR_def null_value_def)
qed

section \<open>Finalising\<close>

text \<open>
  C11: \<open>menu_finalize\<close> moves entries below the symbol they depend on, but never loses, duplicates or reorders
  one: the menus again form a tree in which a walk meets them in the order of their creation.
\<close>

theorem menu_finalize_order:
  assumes "menu_tree s ts" "menu_finalize n rootmenu s = Some s'"
  shows "\<exists>ts'. menu_tree s' ts' \<and> all_nodes ts' = all_nodes ts \<and> k_nmenu s' = k_nmenu s"
  using assms by (rule menu_finalize_tree)

definition tree_state :: kstate where
  "tree_state = sample_state\<lparr>k_menu := (\<lambda>m.
     if m = 0 then empty_menu\<lparr>m_list := Some 1\<rparr>
     else if m = 1 then empty_menu\<lparr>m_parent := Some 0, m_next := Some 2, m_sym := Some sA, m_prompt := Some 0\<rparr>
     else empty_menu\<lparr>m_parent := Some 0, m_sym := Some sB, m_dep := Some (E_SYMBOL sA)\<rparr>), k_nmenu := 3\<rparr>"

lemma tree_state_tree: "menu_tree tree_state [MNode 1 [], MNode 2 []]"
  by (simp add: menu_tree_def tree_state_def empty_menu_def upt_rec)

theorem menu_finalize_order_witness:
  "\<exists>s' ts'. menu_finalize 4 rootmenu tree_state = Some s' \<and> m_list (k_menu s' 1) = Some 2 \<and>
    menu_tree s' ts' \<and> all_nodes ts' = [1, 2]"
proof -
  have "map_option (\<lambda>s. m_list (k_menu s 1)) (menu_finalize 4 rootmenu tree_state) = Some (Some 2)" by code_simp
  then obtain s' where s': "menu_finalize 4 rootmenu tree_state = Some s'" "m_list (k_menu s' 1) = Some 2" by auto
  show ?thesis using menu_finalize_order [OF tree_state_tree s'(1)] s' by auto
qed

end
