(* ===== verification/Kconfig_Menu_Help.thy ===== *)
theory Kconfig_Menu_Help
  imports Kconfig_Util Kconfig_Menu Kconfig_Expr_Print
begin

text \<open>
  The texts that the front ends show about a symbol, the end of \<^verbatim>\<open>menu.c\<close>: the description of a symbol with
  its prompts and their places in the menu tree, the results of a search with the keys to jump to, and
  the help of a menu; and \<open>expr_gstr_print\<close> of \<^verbatim>\<open>expr.c\<close>, which they use.  Messages are not
  translated.  The file and line of a menu, which the lexer sets, are the parameter \<open>pos\<close>.
\<close>

section \<open>Expressions with values\<close>

text \<open>\<open>sym_get_string_value\<close> where the caller lives with a null pointer.\<close>

definition get_string :: "calc \<Rightarrow> symref \<Rightarrow> kstate \<Rightarrow> (string option \<times> kstate) option" where
  "get_string calc r s =
     (if stype (k_sym s r) = S_BOOLEAN \<or> stype (k_sym s r) = S_TRISTATE
      then map_option (\<lambda>(v, s). (Some v, s)) (sym_get_string_value calc r s)
      else Some (cstr (val (curr (k_sym s r))), s))"

text \<open>\<open>printf\<close> of a null pointer with \<open>%s\<close>.\<close>

definition or_null :: "string option \<Rightarrow> string" where
  "or_null v = (case v of Some str \<Rightarrow> str | None \<Rightarrow> ''(null)'')"

text \<open>
  The last line, with the newline it starts behind, and what is to be added are counted as
  \<open>unsigned\<close> numbers and compared with the width, an \<open>int\<close>, as such.
\<close>

definition last_line :: "string \<Rightarrow> nat" where
  "last_line str = (case strrchr (CHR 0x0A) str of None \<Rightarrow> length str | Some (_, post) \<Rightarrow> Suc (length post))"

definition too_wide :: "gstr \<Rightarrow> nat \<Rightarrow> bool" where
  "too_wide gs extra \<longleftrightarrow> (of_nat (last_line (gs_s gs)) + of_nat extra :: 32 word) > of_int (gs_max_width gs)"

definition expr_print_gstr_helper :: "calc \<Rightarrow> tok \<Rightarrow> gstr \<Rightarrow> kstate \<Rightarrow> (gstr \<times> kstate) option" where
  "expr_print_gstr_helper calc = (\<lambda>(sym, str) gs s. do {
     (sym_str, s) \<leftarrow> (case sym of None \<Rightarrow> Some (None, s) | Some r \<Rightarrow> get_string calc r s);
     gs \<leftarrow> (if gs_max_width gs \<noteq> 0 then do {
            t \<leftarrow> str;
            if too_wide gs (length t + (case sym_str of None \<Rightarrow> 0 | Some v \<Rightarrow> 4 + length v))
            then str_append gs (Some [CHR 0x5C, CHR 0x0A]) else Some gs
          } else Some gs);
     gs \<leftarrow> str_append gs str;
     gs \<leftarrow> (case sym of
         None \<Rightarrow> Some gs
       | Some r \<Rightarrow> if stype (k_sym s r) \<noteq> S_UNKNOWN then str_printf gs ('' [='' @ or_null sym_str @ '']'') else Some gs);
     Some (gs, s)
   })"

fun gstr_toks :: "calc \<Rightarrow> tok list \<Rightarrow> gstr \<Rightarrow> kstate \<Rightarrow> (gstr \<times> kstate) option" where
  "gstr_toks calc [] gs s = Some (gs, s)"
| "gstr_toks calc (t # ts) gs s = do {
     (gs, s) \<leftarrow> expr_print_gstr_helper calc t gs s;
     gstr_toks calc ts gs s
   }"

definition expr_gstr_print :: "calc \<Rightarrow> expr option \<Rightarrow> gstr \<Rightarrow> kstate \<Rightarrow> (gstr \<times> kstate) option" where
  "expr_gstr_print calc e gs s = gstr_toks calc (expr_print (k_sym s) e T_NONE) gs s"

section \<open>The place of a prompt\<close>

record jump_key =
  jk_offset :: nat
  jk_target :: nat
  jk_index :: nat

text \<open>
  The first loop of \<open>get_prompt_str\<close>: at most eight menus on the way to the root, the outermost
  first, and the first accessible one on this way.
\<close>

fun prompt_path :: "nat \<Rightarrow> calc \<Rightarrow> nat option \<Rightarrow> nat list \<Rightarrow> nat option \<Rightarrow> kstate \<Rightarrow>
    (nat list \<times> nat option \<times> kstate) option" where
  "prompt_path 0 calc m submenu location s = Some (submenu, location, s)"
| "prompt_path (Suc k) calc m submenu location s =
     (if m = Some rootmenu then Some (submenu, location, s)
      else do {
        m \<leftarrow> m;
        (accessible, s) \<leftarrow> menu_is_visible (loop_fuel s) calc m s;
        prompt_path k calc (m_parent (k_menu s m)) (m # submenu)
          (if location = None \<and> accessible then Some m else location) s
      })"

definition location_line :: "calc \<Rightarrow> nat \<Rightarrow> nat \<Rightarrow> gstr \<Rightarrow> kstate \<Rightarrow> (gstr \<times> kstate) option" where
  "location_line calc j m gs s = do {
     gs \<leftarrow> str_printf gs (replicate j (CHR '' '') @ ''-> '' @ or_null (menu_get_prompt s m));
     (gs, s) \<leftarrow> (case m_sym (k_menu s m) of
         None \<Rightarrow> Some (gs, s)
       | Some r \<Rightarrow> do {
           (v, s) \<leftarrow> get_string calc r s;
           gs \<leftarrow> str_printf gs ('' ('' @ (case name (k_sym s r) of Some n \<Rightarrow> n | None \<Rightarrow> ''<choice>'') @ '' [='' @ or_null v @ ''])'');
           Some (gs, s)
         });
     gs \<leftarrow> str_append gs (Some [CHR 0x0A]);
     Some (gs, s)
   }"

text \<open>The second loop, with the offset that the line of the menu \<open>location\<close> starts at.\<close>

fun location_lines :: "calc \<Rightarrow> nat \<Rightarrow> nat list \<Rightarrow> nat option \<Rightarrow> nat \<Rightarrow> gstr \<Rightarrow> kstate \<Rightarrow> (nat \<times> gstr \<times> kstate) option" where
  "location_lines calc j [] location offset gs s = Some (offset, gs, s)"
| "location_lines calc j (m # ms) location offset gs s = do {
     let offset = (if location = Some m then length (gs_s gs) else offset);
     (gs, s) \<leftarrow> location_line calc j m gs s;
     location_lines calc (j + 2) ms location offset gs s
   }"

text \<open>
  A key is made when there is a list \<open>head\<close> for it and an accessible menu above the prompt.  Its
  offset is set while the lines are written.
\<close>

definition next_index :: "jump_key list \<Rightarrow> nat" where
  "next_index ks = (if ks = [] then 0 else Suc (jk_index (last ks)))"

definition get_prompt_str ::
    "calc \<Rightarrow> nat \<Rightarrow> jump_key list option \<Rightarrow> gstr \<Rightarrow> kstate \<Rightarrow> (jump_key list option \<times> gstr \<times> kstate) option" where
  "get_prompt_str calc p head gs s = do {
     gs \<leftarrow> str_printf gs (''Prompt: '' @ or_null (p_text (k_prop s p)) @ [CHR 0x0A]);
     pm \<leftarrow> p_menu (k_prop s p);
     (submenu, location, s) \<leftarrow> prompt_path 8 calc (m_parent (k_menu s pm)) [] None s;
     (target, s) \<leftarrow> (case (head, location) of
         (Some _, Some l) \<Rightarrow> do {
           (v, s) \<leftarrow> menu_is_visible (loop_fuel s) calc pm s;
           Some (if v then pm else l, s)
         }
       | _ \<Rightarrow> Some (pm, s));
     (offset, gs, s) \<leftarrow> (if submenu = [] then Some (0, gs, s) else do {
         gs \<leftarrow> str_printf gs (''  Location:'' @ [CHR 0x0A]);
         location_lines calc 4 submenu location 0 gs s
       });
     Some (case (head, location) of
         (Some ks, Some _) \<Rightarrow> Some (ks @ [\<lparr>jk_offset = offset, jk_target = target, jk_index = next_index ks\<rparr>])
       | _ \<Rightarrow> head, gs, s)
   }"

fun prompt_strs ::
    "calc \<Rightarrow> nat list \<Rightarrow> jump_key list option \<Rightarrow> gstr \<Rightarrow> kstate \<Rightarrow> (jump_key list option \<times> gstr \<times> kstate) option" where
  "prompt_strs calc [] head gs s = Some (head, gs, s)"
| "prompt_strs calc (p # ps) head gs s = do {
     (head, gs, s) \<leftarrow> get_prompt_str calc p head gs s;
     prompt_strs calc ps head gs s
   }"

section \<open>Symbols\<close>

definition get_symbol_prop :: "kstate \<Rightarrow> symref \<Rightarrow> nat option" where
  "get_symbol_prop s r = first_of (props_of s r P_SYMBOL)"

type_synonym printer = "gstr \<Rightarrow> kstate \<Rightarrow> (gstr \<times> kstate) option"

definition symbol_head :: "calc \<Rightarrow> symref \<Rightarrow> printer" where
  "symbol_head calc r gs s = (case name (k_sym s r) of
     None \<Rightarrow> Some (gs, s)
   | Some n \<Rightarrow> do {
       (v, s) \<leftarrow> get_string calc r s;
       gs \<leftarrow> str_printf gs (''Symbol: '' @ n @ '' [='' @ or_null v @ '']'' @ [CHR 0x0A]);
       gs \<leftarrow> str_printf gs (''Type  : '' @ sym_type_name (stype (k_sym s r)) @ [CHR 0x0A]);
       if stype (k_sym s r) = S_INT \<or> stype (k_sym s r) = S_HEX then do {
         (prop, s) \<leftarrow> sym_get_range_prop calc r s;
         case prop of
           None \<Rightarrow> Some (gs, s)
         | Some p \<Rightarrow> do {
             gs \<leftarrow> str_printf gs ''Range : '';
             (gs, s) \<leftarrow> expr_gstr_print calc (p_expr (k_prop s p)) gs s;
             gs \<leftarrow> str_append gs (Some [CHR 0x0A]);
             Some (gs, s)
           }
       } else Some (gs, s)
     })"

definition symbol_place :: "(nat \<Rightarrow> string \<times> nat) \<Rightarrow> calc \<Rightarrow> symref \<Rightarrow> printer" where
  "symbol_place pos calc r gs s = (case get_symbol_prop s r of
     None \<Rightarrow> Some (gs, s)
   | Some p \<Rightarrow> do {
       m \<leftarrow> p_menu (k_prop s p);
       gs \<leftarrow> str_printf gs (''  Defined at '' @ fst (pos m) @ '':'' @ fmt_lld (int (snd (pos m))) @ [CHR 0x0A]);
       if \<not> expr_is_yes (ev_expr (p_visible (k_prop s p))) then do {
         gs \<leftarrow> str_append gs (Some ''  Depends on: '');
         (gs, s) \<leftarrow> expr_gstr_print calc (ev_expr (p_visible (k_prop s p))) gs s;
         gs \<leftarrow> str_append gs (Some [CHR 0x0A]);
         Some (gs, s)
       } else Some (gs, s)
     })"

text \<open>The loop over the selects, with the flag \<open>hit\<close>.\<close>

fun symbol_selects :: "calc \<Rightarrow> nat list \<Rightarrow> bool \<Rightarrow> gstr \<Rightarrow> kstate \<Rightarrow> (bool \<times> gstr \<times> kstate) option" where
  "symbol_selects calc [] hit gs s = Some (hit, gs, s)"
| "symbol_selects calc (p # ps) hit gs s = do {
     gs \<leftarrow> (if \<not> hit then str_append gs (Some ''  Selects: '') else str_printf gs '' && '');
     (gs, s) \<leftarrow> expr_gstr_print calc (p_expr (k_prop s p)) gs s;
     symbol_selects calc ps True gs s
   }"

definition symbol_rev_dep :: "calc \<Rightarrow> symref \<Rightarrow> printer" where
  "symbol_rev_dep calc r gs s = (case ev_expr (rev_dep (k_sym s r)) of
     None \<Rightarrow> Some (gs, s)
   | Some e \<Rightarrow> do {
       gs \<leftarrow> str_append gs (Some ''  Selected by: '');
       (gs, s) \<leftarrow> expr_gstr_print calc (Some e) gs s;
       gs \<leftarrow> str_append gs (Some [CHR 0x0A]);
       Some (gs, s)
     })"

definition get_symbol_str ::
    "(nat \<Rightarrow> string \<times> nat) \<Rightarrow> calc \<Rightarrow> symref \<Rightarrow> jump_key list option \<Rightarrow> gstr \<Rightarrow> kstate \<Rightarrow>
     (jump_key list option \<times> gstr \<times> kstate) option" where
  "get_symbol_str pos calc r head gs s = do {
     (gs, s) \<leftarrow> symbol_head calc r gs s;
     (head, gs, s) \<leftarrow> prompt_strs calc (prompts_of s r) head gs s;
     (gs, s) \<leftarrow> symbol_place pos calc r gs s;
     (hit, gs, s) \<leftarrow> symbol_selects calc (props_of s r P_SELECT) False gs s;
     gs \<leftarrow> (if hit then str_append gs (Some [CHR 0x0A]) else Some gs);
     (gs, s) \<leftarrow> symbol_rev_dep calc r gs s;
     gs \<leftarrow> str_append gs (Some [CHR 0x0A, CHR 0x0A]);
     Some (head, gs, s)
   }"

fun symbol_strs ::
    "(nat \<Rightarrow> string \<times> nat) \<Rightarrow> calc \<Rightarrow> symref list \<Rightarrow> jump_key list option \<Rightarrow> gstr \<Rightarrow> kstate \<Rightarrow>
     (jump_key list option \<times> gstr \<times> kstate) option" where
  "symbol_strs pos calc [] head gs s = Some (head, gs, s)"
| "symbol_strs pos calc (r # rs) head gs s = do {
     (head, gs, s) \<leftarrow> get_symbol_str pos calc r head gs s;
     symbol_strs pos calc rs head gs s
   }"

text \<open>The array is the null pointer or ends with one; the result of a search has no empty array.\<close>

definition get_relations_str ::
    "(nat \<Rightarrow> string \<times> nat) \<Rightarrow> calc \<Rightarrow> symref list option \<Rightarrow> jump_key list option \<Rightarrow> kstate \<Rightarrow>
     (jump_key list option \<times> gstr \<times> kstate) option" where
  "get_relations_str pos calc sym_arr head s = do {
     let rs = (case sym_arr of None \<Rightarrow> [] | Some rs \<Rightarrow> rs);
     (head, res, s) \<leftarrow> symbol_strs pos calc rs head str_new s;
     res \<leftarrow> (if rs = [] then str_append res (Some (''No matches found.'' @ [CHR 0x0A])) else Some res);
     Some (head, res, s)
   }"

definition nohelp_text :: string where
  "nohelp_text = ''There is no help available for this option.''"

definition menu_get_ext_help :: "(nat \<Rightarrow> string \<times> nat) \<Rightarrow> calc \<Rightarrow> string \<Rightarrow> nat \<Rightarrow> gstr \<Rightarrow> kstate \<Rightarrow> (gstr \<times> kstate) option" where
  "menu_get_ext_help pos calc pre m help s = do {
     help \<leftarrow> (if menu_has_help s m then do {
            r \<leftarrow> m_sym (k_menu s m);
            case name (k_sym s r) of
              Some n \<Rightarrow> str_printf help (pre @ n @ '':'' @ [CHR 0x0A, CHR 0x0A])
            | None \<Rightarrow> Some help
          } else Some help);
     help \<leftarrow> str_printf help ((if menu_has_help s m then menu_get_help s m else nohelp_text) @ [CHR 0x0A]);
     case m_sym (k_menu s m) of
       None \<Rightarrow> Some (help, s)
     | Some r \<Rightarrow> do {
         (_, help, s) \<leftarrow> get_symbol_str pos calc r None help s;
         Some (help, s)
       }
   }"

end
