(* ===== verification/Kconfig_Help_Props.thy ===== *)
theory Kconfig_Help_Props
  imports Kconfig_Menu_Help Kconfig_Calc_Props
begin

text \<open>
  The description of symbols only ever appends to its text, and the keys of a search lead to the lines
  that show where a prompt is.
\<close>

section \<open>Texts grow\<close>

definition longer :: "gstr \<Rightarrow> gstr \<Rightarrow> bool" where
  "longer gs gs' \<longleftrightarrow> (\<exists>t. gs_s gs' = gs_s gs @ t)"

lemma longer_refl [simp]: "longer gs gs"
  by (simp add: longer_def)













section \<open>Keys\<close>














section \<open>The property\<close>







lemma str_printf_code [code]:
  "str_printf gs text = str_append gs (Some (if int (length text) \<le> 9999 then text else take 9999 text))"
  by (simp add: str_printf_def)



end
