(* ===== verification/Kconfig_Front.thy ===== *)
theory Kconfig_Front
  imports Kconfig_Conf_Write Kconfig_Menu_Help
begin

text \<open>
  The text front end, \<^verbatim>\<open>conf.c\<close>: the questions it asks on the terminal, the walks over the menus that
  ask them, and the modes of the program after its options have been read.  Input is what is left to
  read, output what has been written.  An operation returns \<open>Inl\<close> in the state in which the program calls
  \<open>exit(1)\<close>, and \<open>None\<close> for a crash or when the fuel is used up.
\<close>

section \<open>The state of the front end\<close>

datatype input_mode = oldaskconfig | silentoldconfig | oldconfig | allnoconfig | allyesconfig | allmodconfig
  | alldefconfig | randconfig | defconfig | savedefconfig | listnewconfig | olddefconfig

record front =
  f_k :: kstate
  f_mode :: input_mode
  f_indent :: nat
  f_tty_stdio :: bool
  f_valid_stdin :: bool
  f_conf_cnt :: nat
  f_line :: string
  f_rootEntry :: nat
  f_in :: string
  f_out :: string

text \<open>What does not change: the places of the menus, the evaluator and the prefix of the symbols.\<close>

record fenv =
  fe_pos :: "nat \<Rightarrow> string \<times> nat"
  fe_calc :: calc
  fe_prefix :: string

type_synonym 'a outcome = "(front + 'a \<times> front) option"

definition done_with :: "'a \<Rightarrow> front \<Rightarrow> 'a outcome" where
  "done_with x f = Some (Inr (x, f))"

definition and_then :: "'a outcome \<Rightarrow> ('a \<Rightarrow> front \<Rightarrow> 'b outcome) \<Rightarrow> 'b outcome" where
  "and_then r g = (case r of
     None \<Rightarrow> None
   | Some (Inl f) \<Rightarrow> Some (Inl f)
   | Some (Inr (x, f)) \<Rightarrow> g x f)"

text \<open>An operation on the configuration.\<close>

definition on_k :: "(kstate \<Rightarrow> ('a \<times> kstate) option) \<Rightarrow> front \<Rightarrow> 'a outcome" where
  "on_k g f = map_option (\<lambda>(x, s). Inr (x, f\<lparr>f_k := s\<rparr>)) (g (f_k f))"

definition put :: "string \<Rightarrow> front \<Rightarrow> front" where
  "put str f = f\<lparr>f_out := f_out f @ str\<rparr>"

text \<open>The blanks of \<open>%*s\<close> with \<open>indent - 1\<close>, and of \<open>%*c\<close> with \<open>indent\<close> before the character.\<close>

definition pad :: "front \<Rightarrow> string" where
  "pad f = replicate (f_indent f - 1) (CHR '' '')"

section \<open>Input\<close>

definition first_line :: "string \<Rightarrow> string" where
  "first_line inp = takeWhile (\<lambda>c. c \<noteq> CHR 0x0A) inp @ take 1 (dropWhile (\<lambda>c. c \<noteq> CHR 0x0A) inp)"

text \<open>\<open>fgets\<close> reads at most \<open>size - 1\<close> characters of a line; at the end of the file the buffer stays.\<close>

definition xfgets :: "nat \<Rightarrow> front \<Rightarrow> front" where
  "xfgets sz f =
     (let chunk = take (sz - 1) (first_line (f_in f))
      in if chunk = [] then f\<lparr>f_k := add_log (M_stderr ([CHR 0x0A] @ ''Error in reading or end of file.'' @ [CHR 0x0A])) (f_k f)\<rparr>
         else f\<lparr>f_line := c_string chunk, f_in := drop (length chunk) (f_in f)\<rparr>)"

definition strip :: "string \<Rightarrow> string" where
  "strip str = rev (dropWhile isspace (rev (dropWhile isspace str)))"

definition check_stdin :: "front \<Rightarrow> unit outcome" where
  "check_stdin f =
     (if f_valid_stdin f then done_with () f
      else Some (Inl (put (''aborted!'' @ [CHR 0x0A, CHR 0x0A] @ ''Console input/output is redirected. '' @
        ''Run '' @ [CHR 0x27] @ ''make oldconfig'' @ [CHR 0x27] @ '' to update configuration.'' @ [CHR 0x0A, CHR 0x0A]) f)))"

definition print_help :: "fenv \<Rightarrow> nat \<Rightarrow> front \<Rightarrow> unit outcome" where
  "print_help env m f =
     and_then (on_k (menu_get_ext_help (fe_pos env) (fe_calc env) (fe_prefix env) m str_new) f) (\<lambda>help f.
       done_with () (put ([CHR 0x0A] @ gs_s help @ [CHR 0x0A]) f))"

section \<open>Questions\<close>

definition ask :: "front \<Rightarrow> front" where
  "ask f = (let f = xfgets 128 f in if \<not> f_tty_stdio f then put [CHR 0x0A] f else f)"

definition print_default :: "string option \<Rightarrow> front \<Rightarrow> front" where
  "print_default def = put (or_null def @ [CHR 0x0A])"

definition conf_askvalue :: "symref \<Rightarrow> string option \<Rightarrow> front \<Rightarrow> bool outcome" where
  "conf_askvalue r def f =
     (let ty = sym_get_type (f_k f) r;
          f = (if \<not> sym_has_value (k_sym (f_k f) r) then put ''(NEW) '' f else f);
          f = f\<lparr>f_line := [CHR 0x0A]\<rparr>
      in if \<not> sym_is_changable (k_sym (f_k f) r) then done_with False (print_default def f)
         else if f_mode f = oldconfig \<or> f_mode f = silentoldconfig then
           if sym_has_value (k_sym (f_k f) r) then done_with False (print_default def f)
           else and_then (check_stdin f) (\<lambda>_ f. done_with True (ask f))
         else if f_mode f = oldaskconfig then done_with True (ask f)
         else if ty = S_INT \<or> ty = S_HEX \<or> ty = S_STRING then done_with True (print_default def f)
         else done_with True (put (f_line f) f))"

text \<open>
  The answer to a question for a string: \<open>None\<close> for help, and else the string to set.  An empty buffer
  is written in front of its start.
\<close>

definition string_answer :: "string option \<Rightarrow> string \<Rightarrow> string option option option" where
  "string_answer def line =
     (if line = [] then None
      else if hd line = CHR 0x0A then Some (Some def)
      else if hd line = CHR ''?'' \<and> tl line \<noteq> [] \<and> hd (tl line) = CHR 0x0A then Some None
      else Some (Some (Some (butlast line))))"

definition string_prompt :: "fenv \<Rightarrow> nat \<Rightarrow> symref \<Rightarrow> front \<Rightarrow> string option outcome" where
  "string_prompt env m r f = (case m_prompt (k_menu (f_k f) m) of
     None \<Rightarrow> None
   | Some p \<Rightarrow>
       let f = put (pad f @ or_null (p_text (k_prop (f_k f) p)) @ '' '' @ ''('' @ or_null (name (k_sym (f_k f) r)) @ '') '') f
       in and_then (on_k (get_string (fe_calc env) r) f) (\<lambda>def f.
            done_with def (case def of None \<Rightarrow> f | Some d \<Rightarrow> put (''['' @ d @ ''] '') f)))"

fun conf_string :: "nat \<Rightarrow> fenv \<Rightarrow> nat \<Rightarrow> symref \<Rightarrow> front \<Rightarrow> unit outcome" where
  "conf_string 0 env m r f = None"
| "conf_string (Suc n) env m r f =
     and_then (string_prompt env m r f) (\<lambda>def f.
     and_then (conf_askvalue r def f) (\<lambda>asked f.
       if \<not> asked then done_with () f
       else case string_answer def (f_line f) of
         None \<Rightarrow> None
       | Some None \<Rightarrow> and_then (print_help env m f) (\<lambda>_ f. conf_string n env m r f)
       | Some (Some None) \<Rightarrow> conf_string n env m r f
       | Some (Some (Some d)) \<Rightarrow>
           and_then (on_k (sym_set_string_value (fe_calc env) r d) f) (\<lambda>ok f.
             if ok then done_with () f else conf_string n env m r f)))"

definition tri_prompt :: "nat \<Rightarrow> symref \<Rightarrow> string \<Rightarrow> front \<Rightarrow> front" where
  "tri_prompt m r text f =
     (let s = f_k f; old = sym_get_tristate_value (k_sym s r);
          choice = (\<lambda>t str. if old \<noteq> t \<and> sym_tristate_within_range s r t then str else '''')
      in put (pad f @ text @ '' '' @ (case name (k_sym s r) of Some n \<Rightarrow> ''('' @ n @ '') '' | None \<Rightarrow> '''') @ ''['' @
           (case old of No \<Rightarrow> ''N'' | Mod \<Rightarrow> ''M'' | Yes \<Rightarrow> ''Y'') @ choice No ''/n'' @ choice Mod ''/m'' @ choice Yes ''/y'' @
           (if menu_has_help s m then ''/?'' else '''') @ ''] '') f)"

datatype answer = A_set tristate | A_help | A_again

definition tri_answer :: "tristate \<Rightarrow> string \<Rightarrow> answer" where
  "tri_answer old line = (case line of
     [] \<Rightarrow> A_set old
   | c # rest \<Rightarrow>
       if c = CHR ''n'' \<or> c = CHR ''N'' then if rest = [] \<or> rest = ''o'' then A_set No else A_again
       else if c = CHR ''m'' \<or> c = CHR ''M'' then if rest = [] then A_set Mod else A_again
       else if c = CHR ''y'' \<or> c = CHR ''Y'' then if rest = [] \<or> rest = ''es'' then A_set Yes else A_again
       else if c = CHR ''?'' then A_help else A_again)"

text \<open>A value that the symbol does not accept is answered with the help.\<close>

fun conf_sym :: "nat \<Rightarrow> fenv \<Rightarrow> nat \<Rightarrow> symref \<Rightarrow> front \<Rightarrow> unit outcome" where
  "conf_sym 0 env m r f = None"
| "conf_sym (Suc n) env m r f = (case m_prompt (k_menu (f_k f) m) of
     None \<Rightarrow> None
   | Some p \<Rightarrow>
       let old = sym_get_tristate_value (k_sym (f_k f) r);
           f = tri_prompt m r (or_null (p_text (k_prop (f_k f) p))) f
       in and_then (on_k (get_string (fe_calc env) r) f) (\<lambda>def f.
          and_then (conf_askvalue r def f) (\<lambda>asked f.
            if \<not> asked then done_with () f
            else
              let f = f\<lparr>f_line := strip (f_line f)\<rparr>
              in case tri_answer old (f_line f) of
                   A_again \<Rightarrow> conf_sym n env m r f
                 | A_help \<Rightarrow> and_then (print_help env m f) (\<lambda>_ f. conf_sym n env m r f)
                 | A_set t \<Rightarrow>
                     and_then (on_k (sym_set_tristate_value (fe_calc env) r t) f) (\<lambda>ok f.
                       if ok then done_with () f
                       else and_then (print_help env m f) (\<lambda>_ f. conf_sym n env m r f)))))"

section \<open>Choices\<close>

text \<open>The list of the visible values, with their number and the number of the selected one.\<close>

fun list_choices :: "nat \<Rightarrow> fenv \<Rightarrow> nat option \<Rightarrow> symref option \<Rightarrow> nat \<Rightarrow> nat \<Rightarrow> front \<Rightarrow> (nat \<times> nat) outcome" where
  "list_choices 0 env m def_sym cnt def f = None"
| "list_choices (Suc n) env None def_sym cnt def f = done_with (cnt, def) f"
| "list_choices (Suc n) env (Some m) def_sym cnt def f =
     and_then (on_k (menu_is_visible (loop_fuel (f_k f)) (fe_calc env) m) f) (\<lambda>v f.
       let s = f_k f; next = m_next (k_menu s m); text = or_null (menu_get_prompt s m)
       in if \<not> v then list_choices n env next def_sym cnt def f
          else case m_sym (k_menu s m) of
            None \<Rightarrow> list_choices n env next def_sym cnt def (put (pad f @ ''* '' @ text @ [CHR 0x0A]) f)
          | Some r \<Rightarrow>
              let cnt = Suc cnt; sel = (def_sym = Some r)
              in list_choices n env next def_sym cnt (if sel then cnt else def)
                   (put (pad f @ (if sel then ''>'' else '' '') @ '' '' @ fmt_lld (int cnt) @ ''. '' @ text @
                     (case name (k_sym s r) of Some nm \<Rightarrow> '' ('' @ nm @ '')'' | None \<Rightarrow> '''') @
                     (if \<not> sym_has_value (k_sym s r) then '' (NEW)'' else '''') @ [CHR 0x0A]) f))"

text \<open>The \<open>cnt\<close>-th visible value: \<open>if (!--cnt) break\<close>.\<close>

fun pick_choice :: "nat \<Rightarrow> fenv \<Rightarrow> nat option \<Rightarrow> int \<Rightarrow> front \<Rightarrow> (nat \<times> symref) option outcome" where
  "pick_choice 0 env m cnt f = None"
| "pick_choice (Suc n) env None cnt f = done_with None f"
| "pick_choice (Suc n) env (Some m) cnt f = (case m_sym (k_menu (f_k f) m) of
     None \<Rightarrow> pick_choice n env (m_next (k_menu (f_k f) m)) cnt f
   | Some r \<Rightarrow>
       and_then (on_k (menu_is_visible (loop_fuel (f_k f)) (fe_calc env) m) f) (\<lambda>v f.
         if \<not> v then pick_choice n env (m_next (k_menu (f_k f) m)) cnt f
         else if cnt - 1 = 0 then done_with (Some (m, r)) f
         else pick_choice n env (m_next (k_menu (f_k f) m)) (cnt - 1) f))"

text \<open>
  The number of the value that is asked for: \<open>None\<close> when the question is to be repeated.  The order is
  that of the code: a value the configuration has, a question, the number of values.
\<close>

definition choice_answer :: "fenv \<Rightarrow> nat \<Rightarrow> bool \<Rightarrow> nat \<Rightarrow> nat \<Rightarrow> front \<Rightarrow> int option outcome" where
  "choice_answer env m is_new cnt def f =
     (let asking = (\<lambda>f.
            let f = xfgets 128 f; f = f\<lparr>f_line := strip (f_line f)\<rparr>
            in if f_line f \<noteq> [] \<and> hd (f_line f) = CHR ''?''
               then and_then (print_help env m f) (\<lambda>_ f. done_with None f)
               else if f_line f = [] then done_with (Some (int def)) f
               else if isdigit (hd (f_line f)) then done_with (Some (atoi (f_line f))) f
               else done_with None f)
      in if f_mode f = oldconfig \<or> f_mode f = silentoldconfig then
           if \<not> is_new then done_with (Some (int def)) (put (fmt_lld (int def) @ [CHR 0x0A]) f)
           else and_then (check_stdin f) (\<lambda>_ f. asking f)
         else if f_mode f = oldaskconfig then asking f
         else done_with (Some (int cnt)) f)"

definition choice_prompt :: "nat \<Rightarrow> front \<Rightarrow> front" where
  "choice_prompt m f = put (pad f @ or_null (menu_get_prompt (f_k f) m) @ [CHR 0x0A]) f"

definition choice_question :: "fenv \<Rightarrow> nat \<Rightarrow> bool \<Rightarrow> nat \<Rightarrow> nat \<Rightarrow> front \<Rightarrow> int option outcome" where
  "choice_question env m is_new cnt def f =
     (let f = put (pad f @ ''choice'') f
      in if cnt = 1 then done_with (Some 1) (put (''[1]: 1'' @ [CHR 0x0A]) f)
         else choice_answer env m is_new cnt def
           (put (''[1-'' @ fmt_lld (int cnt) @ (if menu_has_help (f_k f) m then ''?'' else '''') @ '']: '') f))"

text \<open>A loop over a list of menus.\<close>

fun for_children :: "nat \<Rightarrow> (nat \<Rightarrow> front \<Rightarrow> unit outcome) \<Rightarrow> nat option \<Rightarrow> front \<Rightarrow> unit outcome" where
  "for_children 0 body m f = None"
| "for_children (Suc n) body None f = done_with () f"
| "for_children (Suc n) body (Some m) f =
     and_then (body m f) (\<lambda>_ f. for_children n body (m_next (k_menu (f_k f) m)) f)"

definition indented :: "(nat \<Rightarrow> front \<Rightarrow> unit outcome) \<Rightarrow> nat \<Rightarrow> front \<Rightarrow> unit outcome" where
  "indented body m f =
     and_then (body m (f\<lparr>f_indent := f_indent f + 2\<rparr>)) (\<lambda>_ f. done_with () (f\<lparr>f_indent := f_indent f - 2\<rparr>))"

text \<open>\<open>sym_get_choice_value\<close>, which is only compared with symbols.\<close>

definition sym_get_choice_value :: "symref \<Rightarrow> kstate \<Rightarrow> symref option" where
  "sym_get_choice_value r s = (case val (curr (k_sym s r)) of VSym q \<Rightarrow> Some q | _ \<Rightarrow> None)"

fun choice_loop ::
    "nat \<Rightarrow> fenv \<Rightarrow> (nat \<Rightarrow> front \<Rightarrow> unit outcome) \<Rightarrow> bool \<Rightarrow> nat \<Rightarrow> symref \<Rightarrow> front \<Rightarrow> unit outcome" where
  "choice_loop 0 env cf is_new m r f = None"
| "choice_loop (Suc n) env cf is_new m r f =
       (let def_sym = sym_get_choice_value r (f_k f); f = (choice_prompt m f)\<lparr>f_line := ''''\<rparr>
       in and_then (list_choices (loop_fuel (f_k f)) env (m_list (k_menu (f_k f) m)) def_sym 0 0 f) (\<lambda>(cnt, def) f.
          and_then (choice_question env m is_new cnt def f) (\<lambda>a f. case a of
            None \<Rightarrow> choice_loop n env cf is_new m r f
          | Some k \<Rightarrow>
              and_then (pick_choice (loop_fuel (f_k f)) env (m_list (k_menu (f_k f) m)) k f) (\<lambda>c f. case c of
                None \<Rightarrow> choice_loop n env cf is_new m r f
              | Some (child, q) \<Rightarrow>
                  if f_line f \<noteq> [] \<and> last (f_line f) = CHR ''?''
                  then and_then (print_help env child f) (\<lambda>_ f. choice_loop n env cf is_new m r f)
                  else and_then (on_k (sym_set_tristate_value (fe_calc env) q Yes) f) (\<lambda>_ f.
                    for_children (loop_fuel (f_k f)) (indented cf) (m_list (k_menu (f_k f) child)) f)))))"

text \<open>The value returned tells the caller whether one value is selected; \<open>conf\<close> ignores it.\<close>

definition conf_choice ::
    "nat \<Rightarrow> fenv \<Rightarrow> (nat \<Rightarrow> front \<Rightarrow> unit outcome) \<Rightarrow> nat \<Rightarrow> symref \<Rightarrow> front \<Rightarrow> bool outcome" where
  "conf_choice n env cf m r f =
     (let is_new = \<not> sym_has_value (k_sym (f_k f) r);
          select = (\<lambda>f. and_then (choice_loop n env cf is_new m r f) (\<lambda>_ f. done_with True f))
      in if sym_is_changable (k_sym (f_k f) r) then
           and_then (conf_sym n env m r f) (\<lambda>_ f.
           and_then (on_k (\<lambda>s. map_option (Pair ()) (fe_calc env r s)) f) (\<lambda>_ f.
             case sym_get_tristate_value (k_sym (f_k f) r) of
               No \<Rightarrow> done_with True f
             | Mod \<Rightarrow> done_with False f
             | Yes \<Rightarrow> select f))
         else case sym_get_tristate_value (k_sym (f_k f) r) of
             No \<Rightarrow> done_with True f
           | Mod \<Rightarrow> done_with False (choice_prompt m f)
           | Yes \<Rightarrow> select f)"

section \<open>The walks over the menus\<close>

definition menu_banner :: "nat \<Rightarrow> front \<Rightarrow> front" where
  "menu_banner m f = (case menu_get_prompt (f_k f) m of
     None \<Rightarrow> f
   | Some text \<Rightarrow> put (pad f @ ''*'' @ [CHR 0x0A] @ pad f @ ''* '' @ text @ [CHR 0x0A] @ pad f @ ''*'' @ [CHR 0x0A]) f)"

definition conf_children :: "(nat \<Rightarrow> front \<Rightarrow> unit outcome) \<Rightarrow> nat \<Rightarrow> front \<Rightarrow> unit outcome" where
  "conf_children cf m f =
     (let k = (if m_sym (k_menu (f_k f) m) \<noteq> None then 2 else 0); f = f\<lparr>f_indent := f_indent f + k\<rparr>
      in and_then (for_children (loop_fuel (f_k f)) cf (m_list (k_menu (f_k f) m)) f) (\<lambda>_ f.
           done_with () (f\<lparr>f_indent := f_indent f - k\<rparr>)))"

definition conf_question :: "nat \<Rightarrow> fenv \<Rightarrow> (nat \<Rightarrow> front \<Rightarrow> unit outcome) \<Rightarrow> nat \<Rightarrow> front \<Rightarrow> unit outcome" where
  "conf_question n env cf m f = (case m_sym (k_menu (f_k f) m) of
     None \<Rightarrow> conf_children cf m f
   | Some r \<Rightarrow>
       if sym_is_choice (k_sym (f_k f) r) then
         and_then (conf_choice n env cf m r f) (\<lambda>_ f.
           if tri (curr (k_sym (f_k f) r)) \<noteq> Mod then done_with () f else conf_children cf m f)
       else
         and_then (if stype (k_sym (f_k f) r) = S_INT \<or> stype (k_sym (f_k f) r) = S_HEX \<or> stype (k_sym (f_k f) r) = S_STRING
             then conf_string n env m r f else conf_sym n env m r f) (\<lambda>_ f. conf_children cf m f))"

definition conf_body ::
    "nat \<Rightarrow> fenv \<Rightarrow> (nat \<Rightarrow> front \<Rightarrow> unit outcome) \<Rightarrow> (nat \<Rightarrow> front \<Rightarrow> unit outcome) \<Rightarrow> nat \<Rightarrow> front \<Rightarrow> unit outcome" where
  "conf_body n env cf ck m f =
     and_then (on_k (menu_is_visible (loop_fuel (f_k f)) (fe_calc env) m) f) (\<lambda>v f.
       if \<not> v then done_with () f
       else
         let ty = map_option (\<lambda>p. p_type (k_prop (f_k f) p)) (m_prompt (k_menu (f_k f) m))
         in if ty = Some P_MENU \<and> f_mode f \<in> {silentoldconfig, listnewconfig, olddefconfig} \<and> f_rootEntry f \<noteq> m then ck m f
            else conf_question n env cf m (if ty = Some P_MENU \<or> ty = Some P_COMMENT then menu_banner m f else f))"

text \<open>A new symbol that can be set: its name is listed, or the configuration is restarted at the menu it is in.\<close>

definition wants_value :: "kstate \<Rightarrow> symref \<Rightarrow> bool" where
  "wants_value s r \<longleftrightarrow> \<not> sym_has_value (k_sym s r) \<and>
     (sym_is_changable (k_sym s r) \<or> sym_is_choice (k_sym s r) \<and> sym_get_tristate_value (k_sym s r) = Yes)"

definition new_symbol_found :: "fenv \<Rightarrow> (nat \<Rightarrow> front \<Rightarrow> unit outcome) \<Rightarrow> nat \<Rightarrow> symref \<Rightarrow> front \<Rightarrow> unit outcome" where
  "new_symbol_found env cf m r f =
     (if f_mode f = listnewconfig then
        (case name (k_sym (f_k f) r) of
           Some n \<Rightarrow> done_with ()
             (if sym_is_choice_value (k_sym (f_k f) r) then f else put (fe_prefix env @ n @ [CHR 0x0A]) f)
         | None \<Rightarrow> done_with () f)
      else if f_mode f = olddefconfig then done_with () f
      else
        let f = (if f_conf_cnt f = 0 then put (''*'' @ [CHR 0x0A] @ ''* Restart config...'' @ [CHR 0x0A] @ ''*'' @ [CHR 0x0A]) f else f);
            f = f\<lparr>f_conf_cnt := Suc (f_conf_cnt f)\<rparr>
        in case menu_get_parent_menu (loop_fuel (f_k f)) (f_k f) m of
             None \<Rightarrow> None
           | Some root \<Rightarrow> cf root (f\<lparr>f_rootEntry := root\<rparr>))"

definition check_body ::
    "fenv \<Rightarrow> (nat \<Rightarrow> front \<Rightarrow> unit outcome) \<Rightarrow> (nat \<Rightarrow> front \<Rightarrow> unit outcome) \<Rightarrow> nat \<Rightarrow> front \<Rightarrow> unit outcome" where
  "check_body env cf ck m f =
     and_then (on_k (menu_is_visible (loop_fuel (f_k f)) (fe_calc env) m) f) (\<lambda>v f.
       if \<not> v then done_with () f
       else
         and_then (case m_sym (k_menu (f_k f) m) of
             None \<Rightarrow> done_with () f
           | Some r \<Rightarrow> if wants_value (f_k f) r then new_symbol_found env cf m r f else done_with () f) (\<lambda>_ f.
         for_children (loop_fuel (f_k f)) ck (m_list (k_menu (f_k f) m)) f))"

text \<open>The fuel counts nested calls, and the questions that each call repeats.\<close>

fun conf :: "nat \<Rightarrow> fenv \<Rightarrow> nat \<Rightarrow> front \<Rightarrow> unit outcome"
and check_conf :: "nat \<Rightarrow> fenv \<Rightarrow> nat \<Rightarrow> front \<Rightarrow> unit outcome" where
  "conf 0 env m f = None"
| "conf (Suc n) env m f = conf_body n env (conf n env) (check_conf n env) m f"
| "check_conf 0 env m f = None"
| "check_conf (Suc n) env m f = check_body env (conf n env) (check_conf n env) m f"

section \<open>The modes of the program\<close>

text \<open>
  \<open>main\<close> after \<open>getopt_long\<close> and \<open>conf_parse\<close>: the mode, whether \<open>--silentoldconfig\<close> was among the options, and
  the file of \<open>--defconfig\<close> or \<open>--savedefconfig\<close> are given, and a state that the parser has left.  The random
  numbers of each call of \<open>conf_set_all_new_symbols\<close> are a parameter, as are the list of the
  configuration files and \<open>zconf_fopen\<close>.  The result is the exit code.
\<close>

record menv =
  me_env :: fenv
  me_zfopen :: zfopen
  me_files :: "string list"
  me_rnd :: "nat \<Rightarrow> rand"
  me_sync :: bool
  me_defconfig :: "string option"

definition err :: "string \<Rightarrow> front \<Rightarrow> front" where
  "err str f = f\<lparr>f_k := add_log (M_stderr str) (f_k f)\<rparr>"

definition path_exists :: "os \<Rightarrow> string \<Rightarrow> bool" where
  "path_exists w n \<longleftrightarrow> os_files w n \<noteq> None \<or> os_isdir w n"

text \<open>Reading the configuration that the mode starts from.\<close>

definition seed_name :: "input_mode \<Rightarrow> string" where
  "seed_name mode = (case mode of
     allnoconfig \<Rightarrow> ''allno.config'' | allyesconfig \<Rightarrow> ''allyes.config'' | allmodconfig \<Rightarrow> ''allmod.config''
   | alldefconfig \<Rightarrow> ''alldef.config'' | randconfig \<Rightarrow> ''allrandom.config'' | _ \<Rightarrow> ''1'')"

definition read_seed :: "menv \<Rightarrow> os \<Rightarrow> front \<Rightarrow> unit outcome" where
  "read_seed me w f =
     (let read = (\<lambda>n. on_k (conf_read_simple (me_zfopen me) (fe_calc (me_env me)) w (Some n) S_DEF_USER))
      in case os_getenv w ''KCONFIG_ALLCONFIG'' of
        None \<Rightarrow> done_with () f
      | Some n \<Rightarrow>
          if n \<noteq> '''' \<and> n \<noteq> ''1'' then
            and_then (read n f) (\<lambda>res f.
              if res \<noteq> 0 then Some (Inl (err (''*** Can'' @ [CHR 0x27] @ ''t read seed configuration '' @ [CHR 0x22] @ n @ [CHR 0x22] @ ''!'' @ [CHR 0x0A]) f))
              else done_with () f)
          else
            and_then (read (seed_name (f_mode f)) f) (\<lambda>res f.
              if res = 0 then done_with () f
              else and_then (read ''all.config'' f) (\<lambda>res f.
                if res = 0 then done_with () f
                else Some (Inl (err (''*** KCONFIG_ALLCONFIG set, but no '' @ [CHR 0x22] @ seed_name (f_mode f) @ [CHR 0x22] @ '' or '' @
                  [CHR 0x22] @ ''all.config'' @ [CHR 0x22] @ '' file found'' @ [CHR 0x0A]) f)))))"

definition read_defconfig :: "menv \<Rightarrow> os \<Rightarrow> front \<Rightarrow> unit outcome" where
  "read_defconfig me w f =
     and_then (case me_defconfig me of
         Some n \<Rightarrow> done_with n f
       | None \<Rightarrow> on_k (conf_get_default_confname (fe_calc (me_env me)) w) f) (\<lambda>n f.
     and_then (on_k (conf_read (me_zfopen me) (fe_calc (me_env me)) w (Some n)) f) (\<lambda>res f.
       if res \<noteq> 0 then Some (Inl (put (''***'' @ [CHR 0x0A] @ ''*** Can'' @ [CHR 0x27] @ ''t find default configuration '' @
         [CHR 0x22] @ n @ [CHR 0x22] @ ''!'' @ [CHR 0x0A] @ ''***'' @ [CHR 0x0A]) f))
       else done_with () f))"

definition main_read :: "menv \<Rightarrow> os \<Rightarrow> front \<Rightarrow> unit outcome" where
  "main_read me w f =
     (if f_mode f = defconfig then read_defconfig me w f
      else if f_mode f \<in> {savedefconfig, silentoldconfig, oldaskconfig, oldconfig, listnewconfig, olddefconfig} then
        and_then (on_k (conf_read (me_zfopen me) (fe_calc (me_env me)) w None) f) (\<lambda>_ f. done_with () f)
      else read_seed me w f)"

text \<open>Giving values to the new symbols.\<close>

definition main_set_new :: "menv \<Rightarrow> os \<Rightarrow> conf_def_mode \<Rightarrow> nat \<Rightarrow> front \<Rightarrow> bool outcome" where
  "main_set_new me w d i f = (case conf_set_all_new_symbols (fe_calc (me_env me)) w d (me_rnd me i) (f_k f) of
     None \<Rightarrow> None
   | Some (Inl _) \<Rightarrow> Some (Inl f)
   | Some (Inr (changed, s)) \<Rightarrow> done_with changed (f\<lparr>f_k := s\<rparr>))"

fun rand_loop :: "nat \<Rightarrow> menv \<Rightarrow> os \<Rightarrow> nat \<Rightarrow> front \<Rightarrow> unit outcome" where
  "rand_loop 0 me w i f = None"
| "rand_loop (Suc n) me w i f =
     and_then (main_set_new me w def_random i f) (\<lambda>changed f.
       if changed then rand_loop n me w (Suc i) f else done_with () f)"

fun check_rounds :: "nat \<Rightarrow> fenv \<Rightarrow> front \<Rightarrow> unit outcome" where
  "check_rounds 0 env f = None"
| "check_rounds (Suc n) env f =
     and_then (check_conf n env rootmenu (f\<lparr>f_conf_cnt := 0\<rparr>)) (\<lambda>_ f.
       if f_conf_cnt f \<noteq> 0 \<and> f_mode f \<noteq> listnewconfig \<and> f_mode f \<noteq> olddefconfig
       then check_rounds n env f else done_with () f)"

definition main_update :: "nat \<Rightarrow> menv \<Rightarrow> os \<Rightarrow> front \<Rightarrow> unit outcome" where
  "main_update n me w f =
     (let setting = (\<lambda>d. and_then (main_set_new me w d 0 f) (\<lambda>_ f. done_with () f))
      in case f_mode f of
        allnoconfig \<Rightarrow> setting def_no
      | allyesconfig \<Rightarrow> setting def_yes
      | allmodconfig \<Rightarrow> setting def_mod
      | alldefconfig \<Rightarrow> setting def_default
      | randconfig \<Rightarrow> rand_loop n me w 0 f
      | defconfig \<Rightarrow> setting def_default
      | savedefconfig \<Rightarrow> done_with () f
      | oldaskconfig \<Rightarrow>
          and_then (conf n (me_env me) rootmenu (f\<lparr>f_rootEntry := rootmenu\<rparr>)) (\<lambda>_ f.
            check_rounds n (me_env me) (f\<lparr>f_mode := silentoldconfig\<rparr>))
      | _ \<Rightarrow> check_rounds n (me_env me) f)"

text \<open>Writing the results, with the exit code.\<close>

definition on_files :: "(kstate \<Rightarrow> os \<Rightarrow> (nat \<times> kstate \<times> os) option) \<Rightarrow> string \<Rightarrow> front \<Rightarrow> os \<Rightarrow> (nat \<times> front \<times> os) option" where
  "on_files g msg f w = do {
     (res, s, w) \<leftarrow> g (f_k f) w;
     let f = f\<lparr>f_k := s\<rparr>;
     Some (if res \<noteq> 0 then (1, err msg f, w) else (0, f, w))
   }"

definition main_write :: "menv \<Rightarrow> front \<Rightarrow> os \<Rightarrow> (nat \<times> front \<times> os) option" where
  "main_write me f w =
     (let calc = fe_calc (me_env me);
          save = on_files (conf_write calc None) ([CHR 0x0A] @ ''*** Error during writing of the configuration.'' @ [CHR 0x0A, CHR 0x0A])
      in if me_sync me then do {
           (res, f, w) \<leftarrow> (if conf_get_changed (f_k f) then save f w else Some (0, f, w));
           if res \<noteq> 0 then Some (res, f, w)
           else on_files (conf_write_autoconf (me_zfopen me) calc (me_files me))
             ([CHR 0x0A] @ ''*** Error during update of the configuration.'' @ [CHR 0x0A, CHR 0x0A]) f w
         }
         else if f_mode f = savedefconfig then do {
           n \<leftarrow> me_defconfig me;
           on_files (conf_write_defconfig calc n) (''n*** Error while saving defconfig to: '' @ n @ [CHR 0x0A, CHR 0x0A]) f w
         }
         else if f_mode f \<noteq> listnewconfig then save f w
         else Some (0, f, w))"

text \<open>\<open>--silentoldconfig\<close> needs a configuration, and \<open>KCONFIG_NOSILENTUPDATE\<close> one that is up to date.\<close>

definition sync_missing :: "menv \<Rightarrow> os \<Rightarrow> bool" where
  "sync_missing me w \<longleftrightarrow> me_sync me \<and> \<not> path_exists w (conf_get_configname w)"

definition missing_text :: "string \<Rightarrow> string" where
  "missing_text n = ''***'' @ [CHR 0x0A] @ ''*** Configuration file '' @ [CHR 0x22] @ n @ [CHR 0x22] @ '' not found!'' @ [CHR 0x0A] @
     ''***'' @ [CHR 0x0A] @ ''*** Please run some configurator (e.g. '' @ [CHR 0x22] @ ''make oldconfig'' @ [CHR 0x22] @ '' or'' @ [CHR 0x0A] @
     ''*** '' @ [CHR 0x22] @ ''make menuconfig'' @ [CHR 0x22] @ '' or '' @ [CHR 0x22] @ ''make xconfig'' @ [CHR 0x22] @ '').'' @ [CHR 0x0A] @
     ''***'' @ [CHR 0x0A]"

definition sync_refused :: "menv \<Rightarrow> os \<Rightarrow> front \<Rightarrow> bool" where
  "sync_refused me w f \<longleftrightarrow> me_sync me \<and> conf_get_changed (f_k f) \<and>
     (case os_getenv w ''KCONFIG_NOSILENTUPDATE'' of Some (_ # _) \<Rightarrow> True | _ \<Rightarrow> False)"

definition conf_main :: "nat \<Rightarrow> menv \<Rightarrow> front \<Rightarrow> os \<Rightarrow> (nat \<times> front \<times> os) option" where
  "conf_main n me f w =
     (if sync_missing me w then Some (1, err (missing_text (conf_get_configname w)) f, w)
      else case main_read me w f of
        None \<Rightarrow> None
      | Some (Inl f) \<Rightarrow> Some (1, f, w)
      | Some (Inr (_, f)) \<Rightarrow>
          if sync_refused me w f
          then Some (1, err ([CHR 0x0A] @ ''*** The configuration requires explicit update.'' @ [CHR 0x0A, CHR 0x0A]) f, w)
          else case main_update n me w (if me_sync me then f\<lparr>f_valid_stdin := f_tty_stdio f\<rparr> else f) of
            None \<Rightarrow> None
          | Some (Inl f) \<Rightarrow> Some (1, f, w)
          | Some (Inr (_, f)) \<Rightarrow> main_write me f w)"

end
