(* ===== verification/Kconfig_Options.thy ===== *)
theory Kconfig_Options
  imports Kconfig_Front
begin

text \<open>
  The start of \<open>main\<close> in \<^verbatim>\<open>conf.c\<close>: the options, the seed of the random numbers and the name of the file with
  the menus.  What \<open>getopt_long\<close> makes of the command line with the table of options is a parameter, the list of the
  options it returns and the arguments that remain; its own messages are left out.  So are the time,
  the numbers that \<open>rand\<close> yields for a seed, and the generated parser.
\<close>

section \<open>The table of options\<close>

datatype has_arg = no_argument | required_argument | optional_argument

definition long_opts :: "(string \<times> has_arg \<times> input_mode) list" where
  "long_opts =
    [(''oldaskconfig'', no_argument, oldaskconfig), (''oldconfig'', no_argument, oldconfig),
     (''silentoldconfig'', no_argument, silentoldconfig), (''defconfig'', optional_argument, defconfig),
     (''savedefconfig'', required_argument, savedefconfig), (''allnoconfig'', no_argument, allnoconfig),
     (''allyesconfig'', no_argument, allyesconfig), (''allmodconfig'', no_argument, allmodconfig),
     (''alldefconfig'', no_argument, alldefconfig), (''randconfig'', no_argument, randconfig),
     (''listnewconfig'', no_argument, listnewconfig), (''olddefconfig'', no_argument, olddefconfig),
     (''oldnoconfig'', no_argument, olddefconfig)]"

definition usage_lines :: "string list" where
  "usage_lines =
    [''[option] is _one_ of the following:'',
     ''  --listnewconfig         List new options'',
     ''  --oldaskconfig          Start a new configuration using a line-oriented program'',
     ''  --oldconfig             Update a configuration using a provided .config as base'',
     ''  --silentoldconfig       Same as oldconfig, but quietly, additionally update deps'',
     ''  --olddefconfig          Same as silentoldconfig but sets new symbols to their default value'',
     ''  --oldnoconfig           An alias of olddefconfig'',
     ''  --defconfig <file>      New config with default defined in <file>'',
     ''  --savedefconfig <file>  Save the minimal current configuration to <file>'',
     ''  --allnoconfig           New config where all options are answered with no'',
     ''  --allyesconfig          New config where all options are answered with yes'',
     ''  --allmodconfig          New config where all options are answered with mod'',
     ''  --alldefconfig          New config with all symbols set to default'',
     ''  --randconfig            New config with random answer to all options'']"

definition conf_usage :: "string \<Rightarrow> string" where
  "conf_usage progname = concat (map (\<lambda>l. l @ [CHR 0x0A]) ((''Usage: '' @ progname @ '' [option] <kconfig-file>'') # usage_lines))"

section \<open>The seed\<close>

text \<open>\<open>strtol\<close> with base 0: the prefix of the digits tells the base; with the position where it stops.\<close>

definition strtol_auto :: "string \<Rightarrow> int \<times> string" where
  "strtol_auto str =
     (let (neg, t) = sign_split (dropWhile isspace str);
          b = (if skip_0x t \<noteq> t then 16 else if take 1 t = ''0'' then 8 else 10);
          u = skip_0x t; ds = takeWhile (\<lambda>c. digit_val c < b) u; v = int (read_digits b 0 ds)
      in if ds = [] then (0, str)
         else (if neg then max LLONG_MIN (- v) else min LLONG_MAX v, drop (length ds) u))"

text \<open>The seed comes from the time unless \<open>KCONFIG_SEED\<close> is a number; it is an \<open>unsigned int\<close>.\<close>

definition conf_seed :: "int \<times> int \<Rightarrow> string option \<Rightarrow> 32 word" where
  "conf_seed = (\<lambda>(tv_sec, tv_usec) seed_env.
     let seed = of_int ((tv_sec + 1) * (tv_usec + 1))
     in case seed_env of
          Some (c # cs) \<Rightarrow> (let (tmp, endp) = strtol_auto (c # cs) in if endp = [] then of_int tmp else seed)
        | _ \<Rightarrow> seed)"

definition fmt_X :: "32 word \<Rightarrow> string" where
  "fmt_X w = map (\<lambda>c. if islower c then char_of (ccode c - 32 :: nat) else c) (digits 16 (unat w))"

section \<open>Reading the options\<close>

text \<open>An option of the table with its argument, or the answer \<open>?\<close> to one that is not in the table.\<close>

datatype seen = Seen input_mode "string option" | Seen_unknown

record options =
  o_mode :: input_mode
  o_sync :: bool
  o_defconfig :: "string option"
  o_seed :: "32 word"

definition start_options :: options where
  "start_options = \<lparr>o_mode = oldaskconfig, o_sync = False, o_defconfig = None, o_seed = 1\<rparr>"

definition set_option :: "32 word \<Rightarrow> input_mode \<Rightarrow> string option \<Rightarrow> options \<Rightarrow> options" where
  "set_option seed mode optarg o1 =
     (let o1 = o1\<lparr>o_mode := mode\<rparr>
      in if mode = silentoldconfig then o1\<lparr>o_sync := True\<rparr>
         else if mode = defconfig \<or> mode = savedefconfig then o1\<lparr>o_defconfig := optarg\<rparr>
         else if mode = randconfig then o1\<lparr>o_seed := seed\<rparr>
         else o1)"

text \<open>The loop, with what it prints on the standard error output; an unknown option ends the program.\<close>

fun read_options :: "32 word \<Rightarrow> seen list \<Rightarrow> options \<Rightarrow> string \<Rightarrow> string + options \<times> string" where
  "read_options seed [] o1 out = Inr (o1, out)"
| "read_options seed (Seen mode optarg # rest) o1 out =
     read_options seed rest (set_option seed mode optarg o1)
       (if mode = randconfig then out @ ''KCONFIG_SEED=0x'' @ fmt_X seed @ [CHR 0x0A] else out)"
| "read_options seed (Seen_unknown # rest) o1 out = Inl out"

text \<open>The last option decides the mode, but what an earlier one has switched on stays on.\<close>

lemma read_options_sync:
  "read_options seed opts o1 out = Inr (o2, out') \<Longrightarrow> o_sync o2 \<longleftrightarrow> o_sync o1 \<or> (\<exists>a. Seen silentoldconfig a \<in> set opts)"
  by (induction seed opts o1 out rule: read_options.induct) (auto simp: set_option_def Let_def split: if_splits)

lemma read_options_mode:
  "read_options seed opts o1 out = Inr (o2, out') \<Longrightarrow>
   (case opts of [] \<Rightarrow> o_mode o2 = o_mode o1 | _ \<Rightarrow> \<exists>a. last opts = Seen (o_mode o2) a)"
proof (induction seed opts o1 out rule: read_options.induct)
  case (2 seed mode optarg rest o1 out)
  then show ?case by (cases rest) (auto simp: set_option_def Let_def)
qed simp_all

section \<open>The program\<close>

record penv =
  pe_progname :: string
  pe_now :: "int \<times> int"
  pe_rnd :: "32 word \<Rightarrow> nat \<Rightarrow> rand"
  pe_parse :: "string \<Rightarrow> front \<Rightarrow> unit outcome"
  pe_env :: fenv
  pe_zfopen :: zfopen
  pe_files :: "string list"

definition main_env :: "penv \<Rightarrow> options \<Rightarrow> menv" where
  "main_env pe o1 = \<lparr>me_env = pe_env pe, me_zfopen = pe_zfopen pe, me_files = pe_files pe, me_rnd = pe_rnd pe (o_seed o1),
     me_sync = o_sync o1, me_defconfig = o_defconfig o1\<rparr>"

definition conf_program :: "nat \<Rightarrow> penv \<Rightarrow> seen list \<Rightarrow> string list \<Rightarrow> front \<Rightarrow> os \<Rightarrow> (nat \<times> front \<times> os) option" where
  "conf_program n pe opts args f w =
     (case read_options (conf_seed (pe_now pe) (os_getenv w ''KCONFIG_SEED'')) opts start_options [] of
        Inl out \<Rightarrow> Some (1, put (conf_usage (pe_progname pe)) (err out f), w)
      | Inr (o1, out) \<Rightarrow>
          let f = (err out f)\<lparr>f_mode := o_mode o1\<rparr>
          in case args of
               [] \<Rightarrow> Some (1, put (pe_progname pe @ '': Kconfig file missing'' @ [CHR 0x0A] @ conf_usage (pe_progname pe)) f, w)
             | file # _ \<Rightarrow>
                 (case pe_parse pe file f of
                    None \<Rightarrow> None
                  | Some (Inl f) \<Rightarrow> Some (1, f, w)
                  | Some (Inr (_, f)) \<Rightarrow> conf_main n (main_env pe o1) f w))"

end
