(* ===== verification/Kconfig_Front_Sem.thy ===== *)
theory Kconfig_Front_Sem
  imports Kconfig_Front Kconfig_Conf_Walk
begin

text \<open>
  What the dialogue keeps: the mode, the order of input and output and, when an operation returns, the
  indentation; and the walks that ask nothing.
\<close>

section \<open>Outcomes\<close>

definition goes_on :: "front \<Rightarrow> front \<Rightarrow> bool" where
  "goes_on f f' \<longleftrightarrow> f_mode f' = f_mode f \<and> f_tty_stdio f' = f_tty_stdio f \<and> f_valid_stdin f' = f_valid_stdin f \<and>
     (\<exists>t. f_out f' = f_out f @ t) \<and> (\<exists>t. f_in f = t @ f_in f')"

definition level :: "front \<Rightarrow> front \<Rightarrow> bool" where
  "level f f' \<longleftrightarrow> goes_on f f' \<and> f_indent f' = f_indent f"

definition steady :: "front \<Rightarrow> 'a outcome \<Rightarrow> bool" where
  "steady f r \<longleftrightarrow> (case r of None \<Rightarrow> True | Some (Inl f') \<Rightarrow> goes_on f f' | Some (Inr (_, f')) \<Rightarrow> level f f')"

lemma goes_on_trans: "goes_on f f' \<Longrightarrow> goes_on f' f'' \<Longrightarrow> goes_on f f''"
  by (auto simp: goes_on_def)

lemma level_refl [simp]: "level f f"
  by (simp add: level_def goes_on_def)

lemma level_trans: "level f f' \<Longrightarrow> level f' f'' \<Longrightarrow> level f f''"
  using goes_on_trans by (auto simp: level_def)

lemma steady_None [simp]: "steady f None"
  by (simp add: steady_def)

lemma steady_Inl: "steady f (Some (Inl f')) \<longleftrightarrow> goes_on f f'"
  by (simp add: steady_def)

lemma steady_done [simp]: "steady f (done_with x f') \<longleftrightarrow> level f f'"
  by (simp add: steady_def done_with_def)

lemma steady_Inr: "steady f (Some (Inr (x, f'))) \<longleftrightarrow> level f f'"
  by (simp add: steady_def)

lemma steady_then:
  assumes "steady f r" "\<And>x f'. level f f' \<Longrightarrow> steady f (g x f')"
  shows "steady f (and_then r g)"
proof (cases r)
  case (Some q)
  then show ?thesis using assms by (cases q) (auto simp: and_then_def steady_Inl steady_Inr)
qed (simp add: and_then_def)

lemma steady_from:
  assumes "level f f'" "steady f' r"
  shows "steady f r"
proof (cases r)
  case (Some q)
  have g: "goes_on f f'" using assms(1) by (simp add: level_def)
  show ?thesis
  proof (cases q)
    case (Inl f'')
    then show ?thesis using Some assms(2) goes_on_trans [OF g] by (simp add: steady_Inl)
  next
    case (Inr y)
    then show ?thesis using Some assms(2) level_trans [OF assms(1)] by (cases y) (simp add: steady_Inr)
  qed
qed simp

lemma level_updates [simp]:
  "level f (f'\<lparr>f_k := s\<rparr>) = level f f'" "level f (f'\<lparr>f_line := l\<rparr>) = level f f'"
  "level f (f'\<lparr>f_conf_cnt := k\<rparr>) = level f f'" "level f (f'\<lparr>f_rootEntry := m\<rparr>) = level f f'"
  by (simp_all add: level_def goes_on_def)

lemma level_put [simp]: "level f f' \<Longrightarrow> level f (put str f')"
  by (auto simp: level_def goes_on_def put_def)

lemma level_print [simp]: "level f f' \<Longrightarrow> level f (print_default d f')"
  by (simp add: print_default_def)

lemma level_xfgets [simp]:
  assumes "level f f'"
  shows "level f (xfgets k f')"
proof -
  have "\<exists>t. f_in f = t @ drop k (f_in f')" for k
  proof -
    obtain t where "f_in f = t @ f_in f'" using assms by (auto simp: level_def goes_on_def)
    then have "f_in f = (t @ take k (f_in f')) @ drop k (f_in f')" by simp
    then show ?thesis by blast
  qed
  then show ?thesis using assms by (simp add: xfgets_def Let_def level_def goes_on_def)
qed

lemma level_ask [simp]: "level f f' \<Longrightarrow> level f (ask f')"
  by (simp add: ask_def Let_def)

lemma level_prompts [simp]:
  "level f f' \<Longrightarrow> level f (tri_prompt m r str f')" "level f f' \<Longrightarrow> level f (choice_prompt m f')"
  "level f f' \<Longrightarrow> level f (menu_banner m f')"
  by (simp_all add: tri_prompt_def Let_def choice_prompt_def menu_banner_def split: option.split)

lemma steady_on_k [simp]: "level f f' \<Longrightarrow> steady f (on_k g f')"
  by (auto simp: on_k_def steady_def split: option.split)

section \<open>The dialogue\<close>

lemma steady_stdin: "level f f' \<Longrightarrow> steady f (check_stdin f')"
  using level_put by (auto simp: check_stdin_def steady_Inl level_def)

lemma steady_help [simp]: "level f f' \<Longrightarrow> steady f (print_help env m f')"
  by (simp add: print_help_def steady_then)

lemma steady_askvalue: "level f f' \<Longrightarrow> steady f (conf_askvalue r d f')"
  by (auto simp: conf_askvalue_def Let_def intro!: steady_then steady_stdin)

lemma steady_string_prompt: "level f f' \<Longrightarrow> steady f (string_prompt env m r f')"
  by (auto simp: string_prompt_def Let_def intro!: steady_then split: option.split)

lemma steady_string: "level f f' \<Longrightarrow> steady f (conf_string n env m r f')"
  by (induction n arbitrary: f')
    (auto intro!: steady_then steady_askvalue steady_string_prompt split: option.split)

lemma steady_sym: "level f f' \<Longrightarrow> steady f (conf_sym n env m r f')"
  by (induction n arbitrary: f')
    (auto simp: Let_def intro!: steady_then steady_askvalue split: option.split answer.split)

lemma steady_list: "level f f' \<Longrightarrow> steady f (list_choices n env m d c e f')"
proof (induction n arbitrary: m c e f')
  case (Suc n)
  then show ?case by (cases m) (simp_all add: Let_def steady_then split: option.split)
qed simp

lemma steady_pick: "level f f' \<Longrightarrow> steady f (pick_choice n env m k f')"
proof (induction n arbitrary: m k f')
  case (Suc n)
  show ?case
  proof (cases m)
    case (Some x)
    have "steady f (and_then (on_k (menu_is_visible j (fe_calc env) x) f') (\<lambda>v f.
         if \<not> v then pick_choice n env (m_next (k_menu (f_k f) x)) k f
         else if k - 1 = 0 then done_with (Some (x, r)) f
         else pick_choice n env (m_next (k_menu (f_k f) x)) (k - 1) f))" for j r
      by (rule steady_then) (simp_all add: Suc)
    then show ?thesis using Some Suc by (simp split: option.split)
  qed (simp add: Suc.prems)
qed simp

lemma steady_question: "level f f' \<Longrightarrow> steady f (choice_question env m b c d f')"
  by (auto simp: choice_question_def choice_answer_def Let_def intro!: steady_then steady_stdin)

text \<open>A walk that calls steady operations is steady.\<close>

lemma steady_children:
  assumes "\<And>m f'. level f f' \<Longrightarrow> steady f (body m f')"
  shows "level f f' \<Longrightarrow> steady f (for_children n body m f')"
proof (induction n arbitrary: m f')
  case (Suc n)
  then show ?case by (cases m) (simp_all add: steady_then assms)
qed simp

lemma steady_shift:
  assumes "level f f'" "\<And>g. steady g (body g)"
  shows "steady f (and_then (body (f'\<lparr>f_indent := f_indent f' + k\<rparr>)) (\<lambda>_ g. done_with () (g\<lparr>f_indent := f_indent g - k\<rparr>)))"
  using assms(1) assms(2) [of "f'\<lparr>f_indent := f_indent f' + k\<rparr>"]
  by (auto simp: steady_def and_then_def done_with_def level_def goes_on_def split: option.splits sum.splits)

lemma steady_indented:
  assumes "\<And>f m f'. level f f' \<Longrightarrow> steady f (cf m f')" "level f f'"
  shows "steady f (indented cf m f')"
  unfolding indented_def by (rule steady_shift [OF assms(2) assms(1)]) simp

lemma steady_choice_loop:
  assumes "\<And>f m f'. level f f' \<Longrightarrow> steady f (cf m f')"
  shows "level f f' \<Longrightarrow> steady f (choice_loop n env cf b m r f')"
proof (induction n arbitrary: f')
  case (Suc n)
  have kids: "steady f (for_children k (indented cf) x f')" if "level f f'" for k x f'
    by (rule steady_children [OF steady_indented [OF assms] that])
  show ?case
    using Suc by (auto simp: Let_def split: option.split
        intro!: steady_then steady_list steady_question steady_pick kids)
qed simp

lemma steady_choice:
  assumes "\<And>f m f'. level f f' \<Longrightarrow> steady f (cf m f')" "level f f'"
  shows "steady f (conf_choice n env cf m r f')"
  using assms(2) by (auto simp: conf_choice_def Let_def split: tristate.split
      intro!: steady_then steady_sym steady_choice_loop [OF assms(1)])

lemma steady_conf_children:
  assumes "\<And>f m f'. level f f' \<Longrightarrow> steady f (cf m f')" "level f f'"
  shows "steady f (conf_children cf m f')"
  unfolding conf_children_def Let_def
  by (rule steady_shift [OF assms(2)])
    (rule steady_children [OF assms(1)]; simp)

lemma steady_conf_question:
  assumes "\<And>f m f'. level f f' \<Longrightarrow> steady f (cf m f')" "level f f'"
  shows "steady f (conf_question n env cf m f')"
  using assms(2)
  by (simp add: conf_question_def split: option.split)
    (simp add: steady_then steady_choice [OF assms(1)] steady_string steady_sym steady_conf_children [OF assms(1)])

lemma steady_body:
  assumes "\<And>f m f'. level f f' \<Longrightarrow> steady f (cf m f')" "\<And>f m f'. level f f' \<Longrightarrow> steady f (ck m f')" "level f f'"
  shows "steady f (conf_body n env cf ck m f')"
  unfolding conf_body_def Let_def
  by (rule steady_then) (simp_all add: assms(2,3) steady_conf_question [OF assms(1)])

lemma steady_check:
  assumes "\<And>f m f'. level f f' \<Longrightarrow> steady f (cf m f')" "\<And>f m f'. level f f' \<Longrightarrow> steady f (ck m f')" "level f f'"
  shows "steady f (check_body env cf ck m f')"
  using assms(3)
  by (auto simp: check_body_def new_symbol_found_def Let_def split: option.split
      intro!: steady_then steady_children assms(1,2))

lemma steady_walks:
  "(\<forall>f m f'. level f f' \<longrightarrow> steady f (conf n env m f')) \<and> (\<forall>f m f'. level f f' \<longrightarrow> steady f (check_conf n env m f'))"
proof (induction n)
  case (Suc n)
  then have "\<And>f m f'. level f f' \<Longrightarrow> steady f (conf n env m f')" "\<And>f m f'. level f f' \<Longrightarrow> steady f (check_conf n env m f')"
    by blast+
  then show ?case using steady_body [of "conf n env" "check_conf n env"] steady_check [of "conf n env" "check_conf n env"] by simp
qed simp

lemma steady_conf:
  "level f f' \<Longrightarrow> steady f (conf n env m f')" "level f f' \<Longrightarrow> steady f (check_conf n env m f')"
  using steady_walks by blast+

lemma steady_rounds:
  "level f f' \<Longrightarrow> steady f (check_rounds n env f')"
  by (induction n arbitrary: f') (auto intro!: steady_then steady_conf)

section \<open>Walks that ask nothing\<close>

text \<open>
  Evaluation, as far as the walks use it, keeps the configuration and what has a value; that a menu is
  visible through its children only adds values.
\<close>

definition watched :: "kstate \<Rightarrow> kstate \<Rightarrow> bool" where
  "watched s s' \<longleftrightarrow> (choices_wf s \<longrightarrow> erase s' = erase s \<and>
     (\<forall>q. plain s q \<longrightarrow> sym_has_value (k_sym s q) \<longrightarrow> sym_has_value (k_sym s' q)))"

lemma watched_trans: "watched s s' \<Longrightarrow> watched s' s'' \<Longrightarrow> watched s s''"
proof -
  assume a: "watched s s'" "watched s' s''"
  show ?thesis
    unfolding watched_def
  proof (intro impI conjI allI)
    assume w: "choices_wf s"
    then have e: "erase s' = erase s" using a(1) unfolding watched_def by blast
    then have c: "choices_wf s'" using w choices_wf_erase by blast
    then have "erase s'' = erase s'" using a(2) unfolding watched_def by blast
    then show "erase s'' = erase s" using e by (rule trans)
    fix q assume q: "plain s q" "sym_has_value (k_sym s q)"
    have "plain s' q" using q(1) erase_choice [OF e] by (simp add: plain_def)
    moreover have "sym_has_value (k_sym s' q)" using a(1) w q unfolding watched_def by blast
    ultimately show "sym_has_value (k_sym s'' q)" using a(2) c unfolding watched_def by blast
  qed
qed

sublocale evaluator \<subseteq> watched: printing calc watched
proof unfold_locales
  show "watched s s" for s by (simp add: watched_def)
  show "watched s s''" if "watched s s'" "watched s' s''" for s s' s'' using that by (rule watched_trans)
  show "watched s s'" if "keeps {} s s'" for s s' using that by (auto simp: watched_def keeps_def frame_def)
  show "watched s (set_flags r {SYMBOL_DEF S_DEF_USER} s)" for s r
    using erase_set_flags [of "{SYMBOL_DEF S_DEF_USER}" r s]
    by (auto simp: watched_def dyn_flags_def set_flags_def sym_has_value_def)
  show "watched s (clear_flags r {SYMBOL_WRITE} s)" for s r
    using erase_clear_flags [of "{SYMBOL_WRITE}" r s]
    by (auto simp: watched_def dyn_flags_def clear_flags_def sym_has_value_def)
  show "watched s (upd_prop p (\<lambda>x. x\<lparr>p_visible := (p_visible x)\<lparr>ev_tri := v\<rparr>\<rparr>) s)" for s p v
    by (simp add: watched_def) (simp add: upd_prop_def)
qed

text \<open>
  Nothing is asked when the mode only lists or when every symbol of the tree has a value.  What is
  written then are the names of new symbols.
\<close>

definition decided :: "kstate \<Rightarrow> bool" where
  "decided s \<longleftrightarrow> (\<forall>m r. m_sym (k_menu s m) = Some r \<longrightarrow> plain s r \<and> sym_has_value (k_sym s r))"

definition silent :: "front \<Rightarrow> bool" where
  "silent f \<longleftrightarrow> f_mode f = listnewconfig \<or> f_mode f = olddefconfig \<or> decided (f_k f)"

definition new_named :: "kstate \<Rightarrow> symref \<Rightarrow> bool" where
  "new_named s r \<longleftrightarrow> name (k_sym s r) \<noteq> None \<and> \<not> sym_is_choice_value (k_sym s r) \<and>
     (plain s r \<longrightarrow> \<not> sym_has_value (k_sym s r))"

definition new_lines :: "fenv \<Rightarrow> kstate \<Rightarrow> symref list \<Rightarrow> string" where
  "new_lines env s rs = concat (map (\<lambda>r. fe_prefix env @ the (name (k_sym s r)) @ [CHR 0x0A]) rs)"

definition quiet :: "fenv \<Rightarrow> front \<Rightarrow> front \<Rightarrow> bool" where
  "quiet env f f' \<longleftrightarrow> f_mode f' = f_mode f \<and> f_in f' = f_in f \<and> f_conf_cnt f' = f_conf_cnt f \<and>
     watched (f_k f) (f_k f') \<and>
     (\<exists>rs. f_out f' = f_out f @ new_lines env (f_k f) rs \<and> (\<forall>r \<in> set rs. new_named (f_k f) r) \<and>
       (f_mode f \<noteq> listnewconfig \<longrightarrow> rs = []))"

lemma watchedD:
  assumes "watched s s'" "choices_wf s"
  shows "erase s' = erase s" "choices_wf s'" "name (k_sym s' r) = name (k_sym s r)"
    "sym_is_choice_value (k_sym s' r) = sym_is_choice_value (k_sym s r)" "plain s' r = plain s r"
    "m_sym (k_menu s' m) = m_sym (k_menu s m)"
proof -
  show e: "erase s' = erase s" using assms by (simp add: watched_def)
  show "choices_wf s'" using assms(2) choices_wf_erase [OF e] by simp
  note c = erase_choice [OF e]
  show "name (k_sym s' r) = name (k_sym s r)" by (rule erase_symD [OF eraseD(1) [OF e]])
  show "sym_is_choice_value (k_sym s' r) = sym_is_choice_value (k_sym s r)" "plain s' r = plain s r"
    using c by (simp_all add: plain_def)
  have m: "m_sym (k_menu (erase x) m) = m_sym (k_menu x m)" for x by (simp add: erase_def erase_menu_def)
  show "m_sym (k_menu s' m) = m_sym (k_menu s m)" using m [of s'] m [of s] e by simp
qed

lemma watched_decided:
  assumes "watched s s'" "choices_wf s" "decided s"
  shows "decided s'"
  using assms watchedD(5,6) [OF assms(1,2)] by (simp add: decided_def watched_def)

lemma watched_new:
  assumes "watched s s'" "choices_wf s" "new_named s' r"
  shows "new_named s r"
  using assms watchedD(3-5) [OF assms(1,2)] by (auto simp: new_named_def watched_def)

lemma quiet_silent: "quiet env f f' \<Longrightarrow> choices_wf (f_k f) \<Longrightarrow> silent f \<Longrightarrow> silent f' \<and> choices_wf (f_k f')"
  using watched_decided watchedD(2) by (auto simp: quiet_def silent_def)

lemma quiet_refl [simp]: "quiet env f f"
  by (auto simp: quiet_def watched_def new_lines_def)

lemma quiet_comp:
  assumes "quiet env f f'" "quiet env f' f''" "choices_wf (f_k f)"
  shows "quiet env f f''"
proof -
  have w: "watched (f_k f) (f_k f')" "watched (f_k f') (f_k f'')" using assms(1,2) by (simp_all add: quiet_def)
  obtain rs where rs: "f_out f' = f_out f @ new_lines env (f_k f) rs" "\<forall>r \<in> set rs. new_named (f_k f) r"
    "f_mode f \<noteq> listnewconfig \<longrightarrow> rs = []" using assms(1) by (auto simp: quiet_def)
  obtain qs where qs: "f_out f'' = f_out f' @ new_lines env (f_k f') qs" "\<forall>r \<in> set qs. new_named (f_k f') r"
    "f_mode f' \<noteq> listnewconfig \<longrightarrow> qs = []" using assms(2) by (auto simp: quiet_def)
  have "new_lines env (f_k f') qs = new_lines env (f_k f) qs"
    using watchedD(3) [OF w(1) assms(3)] by (simp add: new_lines_def)
  then have "f_out f'' = f_out f @ new_lines env (f_k f) (rs @ qs)" using rs(1) qs(1) by (simp add: new_lines_def)
  moreover have "\<forall>r \<in> set (rs @ qs). new_named (f_k f) r" using rs(2) qs(2) watched_new [OF w(1) assms(3)] by auto
  moreover have "f_mode f \<noteq> listnewconfig \<longrightarrow> rs @ qs = []" using rs(3) qs(3) assms(1) by (simp add: quiet_def)
  ultimately show ?thesis using assms(1,2) watched_trans [OF w] unfolding quiet_def by metis
qed

definition asks_nothing :: "fenv \<Rightarrow> front \<Rightarrow> unit outcome \<Rightarrow> bool" where
  "asks_nothing env f r \<longleftrightarrow> (case r of None \<Rightarrow> True | Some (Inl _) \<Rightarrow> False | Some (Inr (_, f')) \<Rightarrow> quiet env f f')"

lemma nothing_done [simp]: "asks_nothing env f (done_with () f') = quiet env f f'"
  by (simp add: asks_nothing_def done_with_def)

lemma nothing_from:
  assumes "quiet env f f'" "choices_wf (f_k f)" "asks_nothing env f' r"
  shows "asks_nothing env f r"
proof (cases r)
  case (Some q)
  then show ?thesis using assms(3) quiet_comp [OF assms(1) _ assms(2)] by (cases q) (auto simp: asks_nothing_def)
qed (simp add: asks_nothing_def)

lemma nothing_then:
  assumes "asks_nothing env f r" "choices_wf (f_k f)" "silent f"
    "\<And>f'. quiet env f f' \<Longrightarrow> choices_wf (f_k f') \<Longrightarrow> silent f' \<Longrightarrow> asks_nothing env f' (g () f')"
  shows "asks_nothing env f (and_then r g)"
proof (cases r)
  case (Some q)
  then obtain f' where q: "q = Inr ((), f')" "quiet env f f'" using assms(1) by (cases q) (auto simp: asks_nothing_def)
  have s: "silent f'" "choices_wf (f_k f')" using quiet_silent [OF q(2) assms(2,3)] by simp_all
  have "asks_nothing env f (g () f')" by (rule nothing_from [OF q(2) assms(2) assms(4) [OF q(2) s(2,1)]])
  then show ?thesis using Some q(1) by (simp add: and_then_def)
qed (simp add: and_then_def asks_nothing_def)

lemma nothing_children:
  assumes "\<And>m f. choices_wf (f_k f) \<Longrightarrow> silent f \<Longrightarrow> asks_nothing env f (body m f)"
  shows "choices_wf (f_k f) \<Longrightarrow> silent f \<Longrightarrow> asks_nothing env f (for_children n body m f)"
proof (induction n arbitrary: m f)
  case (Suc n)
  then show ?case by (cases m) (auto intro!: nothing_then assms)
qed (simp add: asks_nothing_def)

lemma nothing_found:
  assumes "silent f" "m_sym (k_menu (f_k f) m) = Some r" "wants_value (f_k f) r"
  shows "asks_nothing env f (new_symbol_found env cf m r f)"
proof -
  have nv: "\<not> sym_has_value (k_sym (f_k f) r)" using assms(3) by (simp add: wants_value_def)
  then have "f_mode f = listnewconfig \<or> f_mode f = olddefconfig" using assms(1,2) by (auto simp: silent_def decided_def)
  moreover have "quiet env f (put (fe_prefix env @ n @ [CHR 0x0A]) f)"
    if "name (k_sym (f_k f) r) = Some n" "\<not> sym_is_choice_value (k_sym (f_k f) r)" "f_mode f = listnewconfig" for n
  proof -
    have "new_lines env (f_k f) [r] = fe_prefix env @ n @ [CHR 0x0A]" using that by (simp add: new_lines_def)
    moreover have "new_named (f_k f) r" using that nv by (simp add: new_named_def)
    ultimately have "\<exists>rs. fe_prefix env @ n @ [CHR 0x0A] = new_lines env (f_k f) rs \<and> (\<forall>r \<in> set rs. new_named (f_k f) r)"
      by (intro exI [of _ "[r]"]) simp
    then show ?thesis using that(3) by (simp add: quiet_def put_def watched_def)
  qed
  ultimately show ?thesis by (auto simp: new_symbol_found_def split: option.split)
qed

context evaluator
begin

lemma nothing_check:
  assumes "fe_calc env = calc" "choices_wf (f_k f)" "silent f"
  shows "asks_nothing env f (check_conf n env m f)"
  using assms(2,3)
proof (induction n arbitrary: m f)
  case (Suc n)
  have "asks_nothing env f (check_body env (conf n env) (check_conf n env) m f)"
  proof (cases "menu_is_visible (loop_fuel (f_k f)) calc m (f_k f)")
    case (Some vs)
    obtain v s where vs: "vs = (v, s)" by (cases vs)
    define g where "g = f\<lparr>f_k := s\<rparr>"
    have w: "watched (f_k f) s" using watched.menu_is_visible_R Some vs by simp
    then have q: "quiet env f g" by (auto simp: quiet_def g_def new_lines_def)
    have g: "silent g" "choices_wf (f_k g)" using quiet_silent [OF q Suc.prems] by simp_all
    have "asks_nothing env g (and_then (case m_sym (k_menu (f_k g) m) of
             None \<Rightarrow> done_with () g
           | Some r \<Rightarrow> if wants_value (f_k g) r then new_symbol_found env (conf n env) m r g else done_with () g) (\<lambda>_ f.
         for_children (loop_fuel (f_k f)) (check_conf n env) (m_list (k_menu (f_k f) m)) f))"
      using g by (intro nothing_then nothing_children Suc.IH) (auto intro: nothing_found split: option.split)
    then have "asks_nothing env f (if \<not> v then done_with () g else and_then (case m_sym (k_menu (f_k g) m) of
             None \<Rightarrow> done_with () g
           | Some r \<Rightarrow> if wants_value (f_k g) r then new_symbol_found env (conf n env) m r g else done_with () g) (\<lambda>_ f.
         for_children (loop_fuel (f_k f)) (check_conf n env) (m_list (k_menu (f_k f) m)) f))"
      using q nothing_from [OF q Suc.prems(1)] by simp
    then show ?thesis using Some vs assms(1)
      by (simp add: check_body_def on_k_def g_def [symmetric]) (simp add: and_then_def)
  qed (simp add: check_body_def on_k_def assms(1) and_then_def asks_nothing_def)
  then show ?case by simp
qed (simp add: asks_nothing_def)

lemma nothing_rounds:
  assumes "fe_calc env = calc" "choices_wf (f_k f)" "silent f"
  shows "asks_nothing env (f\<lparr>f_conf_cnt := 0\<rparr>) (check_rounds n env f)"
proof (cases n)
  case (Suc k)
  let ?f = "f\<lparr>f_conf_cnt := 0\<rparr>"
  have s: "silent ?f" "choices_wf (f_k ?f)" using assms(2,3) by (simp_all add: silent_def)
  have "asks_nothing env ?f (check_conf k env rootmenu ?f)" by (rule nothing_check [OF assms(1) s(2,1)])
  then show ?thesis using Suc by (auto simp: asks_nothing_def and_then_def done_with_def quiet_def split: option.splits sum.splits)
qed (simp add: asks_nothing_def)

end

end
