(* ===== verification/Kconfig_Front_Total.thy ===== *)
theory Kconfig_Front_Total
  imports Kconfig_Front_Sem Kconfig_Calc_Total
begin

text \<open>
  The walks that ask nothing return: where evaluation returns for the symbols that the menus name, and the
  numbers of the menus grow along the pointers, as they do when the parser has made them.
\<close>

section \<open>Menus and what they evaluate\<close>

definition menus_ordered :: "kstate \<Rightarrow> bool" where
  "menus_ordered s \<longleftrightarrow> rootmenu < k_nmenu s \<and> (\<forall>m c. m < k_nmenu s \<longrightarrow>
     m_list (k_menu s m) = Some c \<or> m_next (k_menu s m) = Some c \<longrightarrow> m < c \<and> c < k_nmenu s)"

text \<open>The tree that the parser makes and \<open>menu_finalize\<close> keeps is ordered.\<close>

lemma chain_later:
  "chain_ok s p f ts e \<Longrightarrow> e = None \<Longrightarrow> sorted_wrt (<) (p # all_nodes ts) \<Longrightarrow>
   (\<forall>c. f = Some c \<longrightarrow> c \<in> set (all_nodes ts)) \<and>
   (\<forall>m \<in> set (all_nodes ts). \<forall>c. m_list (k_menu s m) = Some c \<or> m_next (k_menu s m) = Some c \<longrightarrow> m < c \<and> c \<in> set (all_nodes ts))"
proof (induction s p f ts e rule: chain_ok.induct)
  case (2 s p f n cs ts e)
  have o: "sorted_wrt (<) (n # all_nodes cs)" "sorted_wrt (<) (p # all_nodes ts)"
    "\<forall>c \<in> set (all_nodes cs). n < c" "\<forall>c \<in> set (all_nodes ts). n < c"
    using "2.prems"(3) by (simp_all add: sorted_wrt_append)
  have c: "f = Some n" "chain_ok s n (m_list (k_menu s n)) cs None" "chain_ok s p (m_next (k_menu s n)) ts e"
    using "2.prems"(1) by simp_all
  note l = "2.IH"(1) [OF c(2) refl o(1)] and r = "2.IH"(2) [OF c(3) "2.prems"(2) o(2)]
  have n: "m_list (k_menu s n) = Some d \<or> m_next (k_menu s n) = Some d \<Longrightarrow> n < d \<and> d \<in> set (all_nodes cs) \<union> set (all_nodes ts)" for d
    using l r o(3,4) by blast
  have e: "set (all_nodes (MNode n cs # ts)) = insert n (set (all_nodes cs) \<union> set (all_nodes ts))" by auto
  have "m < d \<and> d \<in> insert n (set (all_nodes cs) \<union> set (all_nodes ts))"
    if mem: "m \<in> insert n (set (all_nodes cs) \<union> set (all_nodes ts))" and d: "m_list (k_menu s m) = Some d \<or> m_next (k_menu s m) = Some d" for m d
  proof -
    consider "m = n" | "m \<in> set (all_nodes cs)" | "m \<in> set (all_nodes ts)" using mem by blast
    then show ?thesis
    proof cases
      case 1
      then show ?thesis using n d by blast
    next
      case 2
      then show ?thesis using l d by blast
    next
      case 3
      then show ?thesis using r d by blast
    qed
  qed
  then show ?case unfolding e using c(1) by blast
qed simp

lemma tree_ordered:
  assumes "menu_tree s ts"
  shows "menus_ordered s"
proof -
  have r: "rootmenu # all_nodes ts = [0..<k_nmenu s]" and c: "chain_ok s rootmenu (m_list (k_menu s rootmenu)) ts None"
    and x: "m_next (k_menu s rootmenu) = None"
    using assms by (simp_all add: menu_tree_def)
  have "sorted_wrt (<) (rootmenu # all_nodes ts)" unfolding r by (rule sorted_wrt_upt)
  note l = chain_later [OF c refl this]
  note n = menu_tree_nodes(1,2) [OF assms]
  have "m < d \<and> d < k_nmenu s" if "m < k_nmenu s" "m_list (k_menu s m) = Some d \<or> m_next (k_menu s m) = Some d" for m d
  proof (cases "m = rootmenu")
    case True
    then have "d \<in> set (all_nodes ts)" using l that(2) x by auto
    then have "d \<in> {0<..<k_nmenu s}" using n(1) by blast
    then show ?thesis using True by simp
  next
    case False
    then have "m \<in> {0<..<k_nmenu s}" using that(1) by simp
    then have "m \<in> set (all_nodes ts)" using n(1) by blast
    then have d: "m < d" "d \<in> set (all_nodes ts)" using l that(2) by blast+
    then have "d \<in> {0<..<k_nmenu s}" using n(1) by blast
    then show ?thesis using d(1) by simp
  qed
  moreover have "rootmenu < k_nmenu s" using n(2) by simp
  ultimately show ?thesis unfolding menus_ordered_def by blast
qed

definition menu_refs :: "kstate \<Rightarrow> nat \<Rightarrow> symref set" where
  "menu_refs s m = opt_refs (m_visibility (k_menu s m)) \<union>
     (case m_sym (k_menu s m) of
        Some r \<Rightarrow> {r}
      | None \<Rightarrow> (case m_prompt (k_menu s m) of None \<Rightarrow> {} | Some p \<Rightarrow> opt_refs (ev_expr (p_visible (k_prop s p)))))"

definition tree_refs :: "kstate \<Rightarrow> symref set" where
  "tree_refs s = (\<Union>m \<in> {..<k_nmenu s}. menu_refs s m)"

lemma erase_pointers:
  assumes "erase t = erase s"
  shows "k_nmenu t = k_nmenu s" "m_list (k_menu t m) = m_list (k_menu s m)" "m_next (k_menu t m) = m_next (k_menu s m)"
    "m_sym (k_menu t m) = m_sym (k_menu s m)" "m_prompt (k_menu t m) = m_prompt (k_menu s m)"
    "m_visibility (k_menu t m) = m_visibility (k_menu s m)"
proof -
  have e: "k_nmenu (erase x) = k_nmenu x" "m_list (k_menu (erase x) m) = m_list (k_menu x m)"
    "m_next (k_menu (erase x) m) = m_next (k_menu x m)" "m_sym (k_menu (erase x) m) = m_sym (k_menu x m)"
    "m_prompt (k_menu (erase x) m) = m_prompt (k_menu x m)" "m_visibility (k_menu (erase x) m) = m_visibility (k_menu x m)" for x
    by (simp_all add: erase_def erase_menu_def)
  show "k_nmenu t = k_nmenu s" "m_list (k_menu t m) = m_list (k_menu s m)" "m_next (k_menu t m) = m_next (k_menu s m)"
    "m_sym (k_menu t m) = m_sym (k_menu s m)" "m_prompt (k_menu t m) = m_prompt (k_menu s m)"
    "m_visibility (k_menu t m) = m_visibility (k_menu s m)"
    using e [of t] e [of s] assms by simp_all
qed

text \<open>A symbol that is evaluated may be marked as set.\<close>

lemma mark_goes:
  assumes "fit s {} t" "is_valid t r"
  shows "goes s {} t (set_flags r {SYMBOL_DEF S_DEF_USER} t)"
proof -
  let ?t = "set_flags r {SYMBOL_DEF S_DEF_USER} t"
  have e: "erase ?t = erase t" by (rule erase_set_flags) (simp add: dyn_flags_def)
  have same: "is_valid ?t q = is_valid t q" "needs_set ?t q = needs_set t q" "sdef (k_sym ?t q) = sdef (k_sym t q)"
    "curr (k_sym ?t q) = curr (k_sym t q)" "rev_dep (k_sym ?t q) = rev_dep (k_sym t q)"
    "q \<noteq> r \<Longrightarrow> sym_has_value (k_sym ?t q) = sym_has_value (k_sym t q)" for q
    by (auto simp: has_flag_def sym_has_value_def set_flags_def)
  have "ready ?t" using assms(1) same choices_wf_erase [OF e] eraseD(4) [OF e] by (simp add: fit_def ready_def tri_env_def)
  moreover have "\<not> is_valid t q \<longrightarrow> sym_has_value (k_sym ?t q) = sym_has_value (k_sym s q)" for q
    using assms same(6) [of q] by (cases "q = r") (auto simp: fit_def)
  ultimately show ?thesis using assms same(1-5) e by (simp add: goes_def grows_def fit_def has_str_def)
qed

lemma next_later: "menus_ordered s \<Longrightarrow> m < k_nmenu s \<Longrightarrow> m_next (k_menu s m) = Some c \<Longrightarrow> m < c \<and> c < k_nmenu s"
  unfolding menus_ordered_def by blast

lemma list_later: "menus_ordered s \<Longrightarrow> m < k_nmenu s \<Longrightarrow> m_list (k_menu s m) = Some c \<Longrightarrow> m < c \<and> c < k_nmenu s"
  unfolding menus_ordered_def by blast

lemma any_child_returns:
  assumes "\<And>c t. m < c \<Longrightarrow> c < k_nmenu s \<Longrightarrow> fit s G t \<Longrightarrow> \<exists>v t'. vis c t = Some (v, t') \<and> goes s G t t'" "menus_ordered s"
  shows "fit s G t \<Longrightarrow> (\<And>c. f = Some c \<Longrightarrow> m < c \<and> c < k_nmenu s \<and> k_nmenu s - c < k) \<Longrightarrow> 0 < k \<Longrightarrow>
    \<exists>v t'. any_child k vis f t = Some (v, t') \<and> goes s G t t'"
proof (induction k arbitrary: f t)
  case (Suc k)
  show ?case
  proof (cases f)
    case (Some c)
    then have c: "m < c" "c < k_nmenu s" "k_nmenu s - c < Suc k" using Suc.prems(2) by auto
    obtain v t1 where t1: "vis c t = Some (v, t1)" "goes s G t t1" using assms(1) [OF c(1,2) Suc.prems(1)] by blast
    have n: "m_next (k_menu t1 c) = m_next (k_menu s c)"
      using erase_pointers(3) [OF fitD(1) [OF goes_fit [OF t1(2)]]] .
    have "\<exists>w t2. any_child k vis (m_next (k_menu t1 c)) t1 = Some (w, t2) \<and> goes s G t1 t2"
    proof (rule Suc.IH [OF goes_fit [OF t1(2)]])
      show "0 < k" using c by simp
      show "m < d \<and> d < k_nmenu s \<and> k_nmenu s - d < k" if "m_next (k_menu t1 c) = Some d" for d
        using next_later [OF assms(2) c(2)] that n c by fastforce
    qed
    then obtain w t2 where t2: "any_child k vis (m_next (k_menu t1 c)) t1 = Some (w, t2)" "goes s G t1 t2" by blast
    show ?thesis using Some t1 t2(1) goes_trans [OF t1(2) t2(2)] by (cases v) auto
  qed (use Suc.prems in auto)
qed simp

lemma first_child: "menus_ordered s \<Longrightarrow> m < k_nmenu s \<Longrightarrow> m_list (k_menu s m) = Some c \<Longrightarrow>
    m < c \<and> c < k_nmenu s \<and> k_nmenu s - c < Suc (k_nmenu s)"
  using list_later [of s m c] by auto

lemma visible_returns:
  assumes "serves s {} calc Q" "tree_refs s \<subseteq> Q" "menus_ordered s"
  shows "fit s {} t \<Longrightarrow> m < k_nmenu s \<Longrightarrow> k_nmenu s - m \<le> n \<Longrightarrow>
    \<exists>v t'. menu_is_visible n calc m t = Some (v, t') \<and> goes s {} t t'"
proof (induction n arbitrary: m t)
  case (Suc n)
  have q: "menu_refs s m \<subseteq> Q" using assms(2) Suc.prems(2) by (auto simp: tree_refs_def)
  note em = erase_pointers [OF fitD(1)]
  show ?case
  proof (cases "m_prompt (k_menu t m)")
    case (Some p)
    obtain v t1 where t1: "(case m_visibility (k_menu t m) of None \<Rightarrow> Some (Yes, t) | Some e \<Rightarrow> calc_expr calc e t) = Some (v, t1)"
      "goes s {} t t1"
    proof (cases "m_visibility (k_menu t m)")
      case (Some e)
      then have "expr_refs e \<subseteq> Q" using q em(6) [OF Suc.prems(1)] by (simp add: menu_refs_def opt_refs_def)
      then obtain v t1 where "calc_expr calc e t = Some (v, t1)" "goes s {} t t1"
        using expr_returns [OF assms(1) _ Suc.prems(1)] by blast
      then show ?thesis using that Some by simp
    qed (use that Suc.prems(1) in auto)
    note f1 = goes_fit [OF t1(2)]
    obtain w t2 where t2: "menu_own_visible calc m p t1 = Some (w, t2)" "goes s {} t1 t2"
      "\<And>r. m_sym (k_menu s m) = Some r \<Longrightarrow> is_valid t2 r"
    proof (cases "m_sym (k_menu s m)")
      case None
      then have "opt_refs (ev_expr (p_visible (k_prop s p))) \<subseteq> Q"
        using q Some em(5) [OF Suc.prems(1)] by (simp add: menu_refs_def)
      then obtain w t' where "prop_calc_visible calc p t1 = Some (w, t')" "goes s {} t1 t'"
        using prop_visible_returns [OF assms(1) _ f1] by blast
      then show ?thesis using that None em(4) [OF f1] by (simp add: menu_own_visible_def)
    next
      case (Some r)
      then have "r \<in> Q" using q by (simp add: menu_refs_def)
      then obtain t' where "calc r t1 = Some t'" "goes s {} t1 t'" "is_valid t' r" using serves_calc [OF assms(1) _ f1] by blast
      then show ?thesis using that Some em(4) [OF f1] by (auto simp: menu_own_visible_def)
    qed
    note g2 = goes_trans [OF t1(2) t2(2)] and f2 = goes_fit [OF t2(2)]
    have child: "\<exists>v t'. any_child (loop_fuel t2) (menu_is_visible n calc) (m_list (k_menu t2 m)) t2 = Some (v, t') \<and> goes s {} t2 t'"
    proof (rule any_child_returns [OF _ assms(3) f2])
      show "\<exists>v t'. menu_is_visible n calc c x = Some (v, t') \<and> goes s {} x t'" if "m < c" "c < k_nmenu s" "fit s {} x" for c x
        using Suc.IH [OF that(3,2)] that(1) Suc.prems(3) by simp
      show "m < c \<and> c < k_nmenu s \<and> k_nmenu s - c < loop_fuel t2" if "m_list (k_menu t2 m) = Some c" for c
        using first_child [OF assms(3) Suc.prems(2)] that em(1,2) [OF f2] by (simp add: loop_fuel_def)
    qed (simp add: loop_fuel_def)
    then obtain u t3 where t3: "any_child (loop_fuel t2) (menu_is_visible n calc) (m_list (k_menu t2 m)) t2 = Some (u, t3)" "goes s {} t2 t3" by blast
    have g3: "goes s {} t t3" by (rule goes_trans [OF g2 t3(2)])
    have g4: "goes s {} t (set_flags r {SYMBOL_DEF S_DEF_USER} t3)" if "m_sym (k_menu t2 m) = Some r" for r
      using goes_trans [OF g3 mark_goes [OF goes_fit [OF t3(2)] goes_valid [OF t3(2) t2(3)]]] that em(4) [OF f2] by simp
    show ?thesis using Some t1 t2(1) t3(1) g2 g3 g4 by (auto split: option.split)
  qed (use Suc.prems in auto)
qed simp

section \<open>The walks\<close>

text \<open>What the walks keep: the state arises by evaluation, and they have nothing to ask.\<close>

definition calm :: "kstate \<Rightarrow> front \<Rightarrow> bool" where
  "calm s f \<longleftrightarrow> fit s {} (f_k f) \<and> silent f"

definition arrives :: "kstate \<Rightarrow> unit outcome \<Rightarrow> bool" where
  "arrives s r \<longleftrightarrow> (\<exists>f'. r = Some (Inr ((), f')) \<and> calm s f')"

lemma arrives_done [simp]: "arrives s (done_with () f) = calm s f"
  by (simp add: arrives_def done_with_def)

lemma arrives_then:
  assumes "arrives s r" "\<And>f. calm s f \<Longrightarrow> arrives s (g () f)"
  shows "arrives s (and_then r g)"
  using assms by (auto simp: arrives_def and_then_def)

lemma calm_wf: "calm s f \<Longrightarrow> choices_wf (f_k f)"
  by (auto simp: calm_def dest: fitD(3))

lemma calm_erase: "calm s f \<Longrightarrow> erase (f_k f) = erase s"
  by (auto simp: calm_def dest: fitD(1))

lemma children_arrive:
  assumes "\<And>c f. m < c \<Longrightarrow> c < k_nmenu s \<Longrightarrow> calm s f \<Longrightarrow> arrives s (body c f)" "menus_ordered s"
  shows "calm s f \<Longrightarrow> (\<And>c. first = Some c \<Longrightarrow> m < c \<and> c < k_nmenu s \<and> k_nmenu s - c < k) \<Longrightarrow> 0 < k \<Longrightarrow>
    arrives s (for_children k body first f)"
proof (induction k arbitrary: first f)
  case (Suc k)
  show ?case
  proof (cases first)
    case (Some c)
    then have c: "m < c" "c < k_nmenu s" "k_nmenu s - c < Suc k" using Suc.prems(2) by auto
    have "arrives s (for_children k body (m_next (k_menu (f_k g) c)) g)" if g: "calm s g" for g
    proof (rule Suc.IH [OF g])
      have n: "m_next (k_menu (f_k g) c) = m_next (k_menu s c)"
        by (rule erase_pointers(3) [OF calm_erase [OF g]])
      show "0 < k" using c by simp
      show "m < d \<and> d < k_nmenu s \<and> k_nmenu s - d < k" if "m_next (k_menu (f_k g) c) = Some d" for d
        using next_later [OF assms(2) c(2)] that n c by fastforce
    qed
    then show ?thesis using Some arrives_then [OF assms(1) [OF c(1,2) Suc.prems(1)]] by simp
  qed (use Suc.prems in simp)
qed simp

lemma found_arrives:
  assumes "calm s f" "m_sym (k_menu (f_k f) m) = Some r" "wants_value (f_k f) r"
  shows "arrives s (new_symbol_found env cf m r f)"
proof -
  have "f_mode f = listnewconfig \<or> f_mode f = olddefconfig"
    using assms by (auto simp: calm_def silent_def decided_def wants_value_def)
  moreover have "calm s (put str f)" for str using assms(1) by (simp add: calm_def silent_def put_def)
  ultimately show ?thesis using assms(1) by (auto simp: new_symbol_found_def split: option.split)
qed

context evaluator
begin

lemma check_arrives:
  assumes "fe_calc env = calc" "serves s {} calc Q" "tree_refs s \<subseteq> Q" "menus_ordered s"
  shows "calm s f \<Longrightarrow> m < k_nmenu s \<Longrightarrow> k_nmenu s - m \<le> n \<Longrightarrow> arrives s (check_conf n env m f)"
proof (induction n arbitrary: m f)
  case (Suc n)
  have fit: "fit s {} (f_k f)" using Suc.prems(1) by (simp add: calm_def)
  have n: "k_nmenu (f_k f) = k_nmenu s" by (rule erase_pointers(1) [OF calm_erase [OF Suc.prems(1)]])
  obtain v t where v: "menu_is_visible (loop_fuel (f_k f)) calc m (f_k f) = Some (v, t)" "goes s {} (f_k f) t"
  proof -
    have "k_nmenu s - m \<le> loop_fuel (f_k f)" using n by (simp add: loop_fuel_def)
    then show ?thesis using that visible_returns [OF assms(2-4) fit Suc.prems(2)] by blast
  qed
  define g where "g = f\<lparr>f_k := t\<rparr>"
  have "quiet env f g" using watched.menu_is_visible_R [OF v(1)] by (auto simp: quiet_def g_def new_lines_def)
  then have g: "calm s g"
    using quiet_silent [OF _ calm_wf [OF Suc.prems(1)]] Suc.prems(1) goes_fit [OF v(2)] by (simp add: calm_def g_def)
  have kids: "arrives s (for_children (loop_fuel (f_k h)) (check_conf n env) (m_list (k_menu (f_k h) m)) h)" if h: "calm s h" for h
  proof (rule children_arrive [OF _ assms(4) h])
    have e: "erase (f_k h) = erase s" by (rule calm_erase [OF h])
    show "arrives s (check_conf n env c x)" if "m < c" "c < k_nmenu s" "calm s x" for c x
      using Suc.IH [OF that(3,2)] that(1) Suc.prems(3) by simp
    show "m < c \<and> c < k_nmenu s \<and> k_nmenu s - c < loop_fuel (f_k h)" if "m_list (k_menu (f_k h) m) = Some c" for c
      using first_child [OF assms(4) Suc.prems(2)] that erase_pointers(1,2) [OF e] by (simp add: loop_fuel_def)
  qed (simp add: loop_fuel_def)
  have "arrives s (and_then (case m_sym (k_menu (f_k g) m) of
       None \<Rightarrow> done_with () g
     | Some r \<Rightarrow> if wants_value (f_k g) r then new_symbol_found env (conf n env) m r g else done_with () g) (\<lambda>_ f.
       for_children (loop_fuel (f_k f)) (check_conf n env) (m_list (k_menu (f_k f) m)) f))"
    using g found_arrives [OF g] by (intro arrives_then kids) (auto split: option.split)
  then have "arrives s (if \<not> v then done_with () g else and_then (case m_sym (k_menu (f_k g) m) of
       None \<Rightarrow> done_with () g
     | Some r \<Rightarrow> if wants_value (f_k g) r then new_symbol_found env (conf n env) m r g else done_with () g) (\<lambda>_ f.
       for_children (loop_fuel (f_k f)) (check_conf n env) (m_list (k_menu (f_k f) m)) f))"
    using g by simp
  then show ?case using v(1) assms(1) by (simp add: check_body_def on_k_def g_def [symmetric]) (simp add: and_then_def)
qed simp

lemma rounds_return:
  assumes "fe_calc env = calc" "serves s {} calc Q" "tree_refs s \<subseteq> Q" "menus_ordered s" "calm s f" "k_nmenu s < n"
  shows "\<exists>f'. check_rounds n env f = Some (Inr ((), f'))"
proof -
  obtain k where k: "n = Suc k" "k_nmenu s \<le> k" using assms(6) by (cases n) auto
  let ?f = "f\<lparr>f_conf_cnt := 0\<rparr>"
  have c: "calm s ?f" using assms(5) by (simp add: calm_def silent_def)
  have "rootmenu < k_nmenu s" using assms(4) unfolding menus_ordered_def by blast
  then have "arrives s (check_conf k env rootmenu ?f)" using check_arrives [OF assms(1-4) c] k(2) by simp
  then obtain g where g: "check_conf k env rootmenu ?f = Some (Inr ((), g))" by (auto simp: arrives_def)
  have "f_conf_cnt g = 0"
    using nothing_check [OF assms(1) calm_wf [OF c], of k rootmenu] c g by (simp add: calm_def asks_nothing_def quiet_def)
  then show ?thesis using k(1) g by (simp add: and_then_def done_with_def)
qed

end

section \<open>Evaluators for the whole tree\<close>

definition needed :: "kstate \<Rightarrow> symref set" where
  "needed s = {q. \<exists>r \<in> tree_refs s. (q, r) \<in> (eval_rel s)\<^sup>*}"

lemma tree_served:
  assumes "coherent s" "finite (needed s)" "\<forall>q \<in> needed s. (q, q) \<notin> (eval_rel s)\<^sup>+" "\<forall>q \<in> needed s. is_valid s q \<or> well s q"
  shows "\<exists>J. \<forall>j \<ge> J. serves s {} (sym_calc_value j) (tree_refs s)"
proof -
  have m: "k_modules_sym s \<noteq> None" using assms(1) by (simp add: coherent_def)
  have sub: "tree_refs s \<subseteq> needed s" by (auto simp: needed_def)
  have "\<exists>N. \<forall>n \<ge> N. returns s {} (sym_calc_value n) r" if r: "r \<in> tree_refs s" for r
  proof -
    have n: "{q. (q, r) \<in> (eval_rel s)\<^sup>*} \<subseteq> needed s" using r by (auto simp: needed_def)
    have a: "r \<in> Wellfounded.acc (eval_rel s)"
      using acc_iff_acyclic [OF finite_subset [OF n assms(2)]] assms(3) n by blast
    have "\<forall>q. (q, r) \<in> (eval_rel s)\<^sup>* \<longrightarrow> is_valid s q \<or> well s q" using assms(4) n by blast
    from acc_returns [OF a m this] obtain N where "\<forall>n \<ge> N. returns s {} (sym_calc_value n) r" by auto
    then show ?thesis by blast
  qed
  then obtain N where N: "\<forall>r \<in> tree_refs s. \<forall>n \<ge> N r. returns s {} (sym_calc_value n) r" by metis
  define J where "J = Max (insert 1 (N ` tree_refs s))"
  have f: "finite (insert 1 (N ` tree_refs s))" using finite_subset [OF sub assms(2)] by simp
  have "serves s {} (sym_calc_value j) (tree_refs s)" if j: "J \<le> j" for j
  proof -
    have "1 \<le> j" using Max_ge [OF f, of 1] j by (simp add: J_def)
    then obtain k where "j = Suc k" by (cases j) auto
    then have "\<forall>q t. is_valid t q \<longrightarrow> sym_calc_value j q t = Some t" by (simp add: sym_calc_step_def)
    moreover have "N r \<le> j" if "r \<in> tree_refs s" for r
      using Max_ge [OF f, of "N r"] that j by (simp add: J_def)
    ultimately show ?thesis using N m by (simp add: serves_def)
  qed
  then show ?thesis by blast
qed

end
