(* ===== verification/Kconfig_Front_Props.thy ===== *)
theory Kconfig_Front_Props
  imports Kconfig_Front_Total Kconfig_Conf_Props
begin

text \<open>The properties of the text front end: the walks that ask nothing, and the whole program.\<close>

section \<open>Updating\<close>



definition sample_env :: fenv where
  "sample_env = \<lparr>fe_pos = (\<lambda>_. (''Config.in'', 1)), fe_calc = sym_calc_value 5, fe_prefix = ''CONFIG_''\<rparr>"

definition sample_front :: "input_mode \<Rightarrow> kstate \<Rightarrow> front" where
  "sample_front mode s = \<lparr>f_k = s, f_mode = mode, f_indent = 1, f_tty_stdio = True, f_valid_stdin = True, f_conf_cnt = 0,
     f_line = [], f_rootEntry = 0, f_in = ''y'', f_out = []\<rparr>"

text \<open>The sample configuration without the value of the symbol \<open>A\<close>.\<close>

definition new_state :: kstate where
  "new_state = clear_flags sA {SYMBOL_DEF S_DEF_USER} file_state"

lemma new_listed:
  "map_option (map_sum f_out (\<lambda>(_, f). f_out f)) (check_rounds 5 sample_env (sample_front listnewconfig new_state)) =
     Some (Inr (''CONFIG_A'' @ [CHR 0x0A]))"
  by code_simp






section \<open>The program\<close>




















end
