(* ===== verification/Toolchain_Wrapper.thy ===== *)
theory Toolchain_Wrapper
  imports Kconfig_Conf_Write
begin

text \<open>
  The wrapper around the compilers, \<^verbatim>\<open>toolchain/toolchain-wrapper.c\<close>: it finds the directory of the
  toolchain, puts the options that the build has fixed in front of those it was called with, looks for
  directories of the host, and executes the compiler.  The macros of the build are the record \<open>wconf\<close>,
  the operating system is \<open>wenv\<close>.  What \<open>perror\<close> prints is left out.  \<open>None\<close> stands for a null
  pointer that is read, memory that is read before it is written, and an overrun array.
\<close>

section \<open>What the wrapper depends on\<close>

record wconf =
  w_ccache :: bool
  w_abi :: "string option"
  w_fpu :: "string option"
  w_softfloat :: bool
  w_mode :: "string option"
  w_64 :: bool
  w_omit_lock_prefix :: bool
  w_binfmt_flat :: bool
  w_mips_little :: bool
  w_mips_big :: bool
  w_arc_big :: bool
  w_additional_cflags :: "string list"
  w_float_abi :: "string option"
  w_arch :: "string option"
  w_cpu :: "string option"
  w_cross_path_rel :: "string option"
  w_cross_path_abs :: "string option"
  w_cross_path_suffix :: string
  w_sysroot :: string
  w_ccache_hash :: "string option"
  w_ccache_basedir :: "string option"

text \<open>
  \<open>e_self\<close> is what \<^verbatim>\<open>/proc/self/exe\<close> points to; \<open>e_malloc\<close> tells for a number of bytes whether they can be
  had; \<open>e_setenv\<close> and \<open>e_exec\<close> whether the call succeeds for a name.
\<close>

record wenv =
  e_getenv :: "string \<Rightarrow> string option"
  e_realpath :: "string \<Rightarrow> string option"
  e_self :: "string option"
  e_malloc :: "nat \<Rightarrow> bool"
  e_setenv :: "string \<Rightarrow> bool"
  e_exec :: "string \<Rightarrow> bool"

text \<open>The program ends with an exit code, or becomes a command with its arguments and environment.\<close>

datatype wres = W_return nat | W_exec string "string list" "string \<Rightarrow> string option"

definition EXCLUSIVE_ARGS :: nat where "EXCLUSIVE_ARGS = 3"

section \<open>The directory of the toolchain\<close>

text \<open>Going up from the target of the link: the last three slashes become zeros.\<close>

fun up_dirs :: "nat \<Rightarrow> nat \<Rightarrow> string \<Rightarrow> string" where
  "up_dirs 0 count buf = buf"
| "up_dirs (Suc i) count buf =
     (if buf ! Suc i = CHR ''/'' then
        let buf = buf[Suc i := CHR 0x00]
        in if Suc count = 3 then buf else up_dirs i (Suc count) buf
      else up_dirs i count buf)"

text \<open>\<open>sprintf\<close> into a buffer of a given size.\<close>

definition print_into :: "nat \<Rightarrow> string \<Rightarrow> string option" where
  "print_into n text = (if length text < n then Some text else None)"

definition find_base :: "wenv \<Rightarrow> string \<Rightarrow> (nat + string \<times> string) option" where
  "find_base env progpath = (case strrchr (CHR ''/'') progpath of
     Some (dir, basename) \<Rightarrow>
       if \<not> e_malloc env (length dir + 7) then Some (Inl 2)
       else do {
         relbasedir \<leftarrow> print_into (length dir + 7) (dir @ ''/../..'');
         Some (case e_realpath env relbasedir of None \<Rightarrow> Inl 2 | Some absbasedir \<Rightarrow> Inr (absbasedir, basename))
       }
   | None \<Rightarrow>
       if \<not> e_malloc env (PATH_MAX + 1) then Some (Inl 2)
       else case e_self env of
         None \<Rightarrow> Some (Inl 2)
       | Some target \<Rightarrow>
           let link = take PATH_MAX target
           in Some (Inr (c_string (up_dirs (length link) 0 (link @ [CHR 0x00])), progpath)))"

text \<open>\<open>ccache_path\<close>, \<open>path\<close> and \<open>sysroot\<close>, each in an array of \<open>PATH_MAX\<close> bytes.\<close>

definition compiler_path :: "wconf \<Rightarrow> string \<Rightarrow> string \<Rightarrow> string" where
  "compiler_path cfg absbasedir basename = (case (w_cross_path_rel cfg, w_cross_path_abs cfg) of
     (Some rel, _) \<Rightarrow> absbasedir @ ''/'' @ rel @ ''/'' @ basename @ w_cross_path_suffix cfg
   | (None, Some dir) \<Rightarrow> dir @ ''/'' @ basename @ w_cross_path_suffix cfg
   | (None, None) \<Rightarrow> absbasedir @ ''/usr/bin/'' @ basename @ w_cross_path_suffix cfg)"

definition wrapper_paths :: "wconf \<Rightarrow> string \<Rightarrow> string \<Rightarrow> nat + string \<times> string \<times> string" where
  "wrapper_paths cfg absbasedir basename =
     (let path = compiler_path cfg absbasedir basename;
          ccache_path = (if w_ccache cfg then absbasedir @ ''/usr/bin/ccache'' else '''');
          sysroot = absbasedir @ ''/'' @ w_sysroot cfg
      in if length path \<ge> PATH_MAX then Inl 3
         else if length ccache_path \<ge> PATH_MAX then Inl 3
         else if length sysroot \<ge> PATH_MAX then Inl 3
         else Inr (ccache_path, path, sysroot))"

definition opt_flag :: "string \<Rightarrow> string option \<Rightarrow> string list" where
  "opt_flag pre v = (case v of None \<Rightarrow> [] | Some x \<Rightarrow> [pre @ x])"

definition bool_flag :: "bool \<Rightarrow> string \<Rightarrow> string list" where
  "bool_flag b x = (if b then [x] else [])"

definition fixed_flags :: "wconf \<Rightarrow> string list" where
  "fixed_flags cfg =
     opt_flag ''-mabi='' (w_abi cfg) @ opt_flag ''-mfpu='' (w_fpu cfg) @ bool_flag (w_softfloat cfg) ''-msoft-float'' @
     opt_flag ''-m'' (w_mode cfg) @ bool_flag (w_64 cfg) ''-m64'' @
     bool_flag (w_omit_lock_prefix cfg) ''-Wa,-momit-lock-prefix=yes'' @ bool_flag (w_binfmt_flat cfg) ''-Wl,-elf2flt'' @
     bool_flag (w_mips_little cfg) ''-EL'' @ bool_flag (w_mips_big cfg \<or> w_arc_big cfg) ''-EB'' @ w_additional_cflags cfg"

definition predef_args :: "wconf \<Rightarrow> string \<times> string \<times> string \<Rightarrow> string list" where
  "predef_args cfg = (\<lambda>(ccache_path, path, sysroot).
     bool_flag (w_ccache cfg) ccache_path @ [path, ''--sysroot'', sysroot] @ fixed_flags cfg)"

section \<open>The array of arguments\<close>

text \<open>What \<open>malloc\<close> returns is \<open>Junk\<close>; a buffer is the array and the place of \<open>cur\<close>.\<close>

datatype slot = Junk | Null | Str string

type_synonym argbuf = "slot list \<times> nat"

definition push_arg :: "slot \<Rightarrow> argbuf \<Rightarrow> argbuf option" where
  "push_arg x = (\<lambda>(args, cur). if cur < length args then Some (args[cur := x], Suc cur) else None)"

definition memcpy_args :: "slot list \<Rightarrow> argbuf \<Rightarrow> argbuf option" where
  "memcpy_args xs = (\<lambda>(args, cur).
     if cur + length xs \<le> length args
     then Some (take cur args @ xs @ drop (cur + length xs) args, cur + length xs) else None)"

text \<open>Reading the array up to the null pointer.\<close>

fun read_args :: "slot list \<Rightarrow> string list option" where
  "read_args (Str x # args) = map_option ((#) x) (read_args args)"
| "read_args (Null # args) = Some []"
| "read_args _ = None"

definition sets_float_abi :: "string \<Rightarrow> bool" where
  "sets_float_abi a \<longleftrightarrow> starts_with ''-mfloat-abi='' a \<or> a = ''-msoft-float'' \<or> a = ''-mhard-float''"

definition add_float_abi :: "wconf \<Rightarrow> string list \<Rightarrow> argbuf \<Rightarrow> argbuf option" where
  "add_float_abi cfg user buf = (case w_float_abi cfg of
     None \<Rightarrow> Some buf
   | Some abi \<Rightarrow> if list_ex sets_float_abi user then Some buf else push_arg (Str (''-mfloat-abi='' @ abi)) buf)"

definition sets_cpu :: "string \<Rightarrow> bool" where
  "sets_cpu a \<longleftrightarrow> starts_with ''-march='' a \<or> starts_with ''-mtune='' a \<or> starts_with ''-mcpu='' a"

definition push_opt :: "string \<Rightarrow> string option \<Rightarrow> argbuf \<Rightarrow> argbuf option" where
  "push_opt pre v buf = (case v of None \<Rightarrow> Some buf | Some x \<Rightarrow> push_arg (Str (pre @ x)) buf)"

definition add_cpu :: "wconf \<Rightarrow> string list \<Rightarrow> argbuf \<Rightarrow> argbuf option" where
  "add_cpu cfg user buf =
     (if list_ex sets_cpu user then Some buf
      else do {
        buf \<leftarrow> push_opt ''-march='' (w_arch cfg) buf;
        push_opt ''-mcpu='' (w_cpu cfg) buf
      })"

section \<open>Directories of the host\<close>

definition unsafe_paths :: "string list" where
  "unsafe_paths = [''/lib'', ''/usr/include'', ''/usr/lib'', ''/usr/local/include'', ''/usr/local/lib'']"

text \<open>\<open>program_invocation_short_name\<close> is the name that the program was called with, without directories.\<close>

definition short_name :: "string \<Rightarrow> string" where
  "short_name progpath = (case strrchr (CHR ''/'') progpath of None \<Rightarrow> progpath | Some (_, basename) \<Rightarrow> basename)"

definition unsafe_text :: "string \<Rightarrow> bool \<Rightarrow> string \<Rightarrow> string" where
  "unsafe_text prog paranoid path =
     short_name prog @ '': '' @ (if paranoid then ''ERROR'' else ''WARNING'') @
     '': unsafe header/library path used in cross-compilation: '' @ [CHR 0x27] @ path @ [CHR 0x27, CHR 0x0A]"

text \<open>What has been printed is passed on; \<open>Inl\<close> is the exit.\<close>

fun check_unsafe_path :: "string \<Rightarrow> bool \<Rightarrow> string list \<Rightarrow> string \<Rightarrow> string \<Rightarrow> string + string" where
  "check_unsafe_path prog paranoid [] path out = Inr out"
| "check_unsafe_path prog paranoid (c # cs) path out =
     (if starts_with c path then
        let out = out @ unsafe_text prog paranoid path
        in if paranoid then Inl out else check_unsafe_path prog paranoid cs path out
      else check_unsafe_path prog paranoid cs path out)"

fun check_args :: "string \<Rightarrow> bool \<Rightarrow> string list \<Rightarrow> string \<Rightarrow> string + string" where
  "check_args prog paranoid [] out = Inr out"
| "check_args prog paranoid (a # rest) out =
     (if \<not> starts_with ''-I'' a \<and> \<not> starts_with ''-L'' a then check_args prog paranoid rest out
      else if drop 2 a = [] then
        (case rest of
           [] \<Rightarrow> Inr out
         | b # rest \<Rightarrow>
             (case check_unsafe_path prog paranoid unsafe_paths b out of
                Inl out \<Rightarrow> Inl out
              | Inr out \<Rightarrow> check_args prog paranoid rest out))
      else
        (case check_unsafe_path prog paranoid unsafe_paths (drop 2 a) out of
           Inl out \<Rightarrow> Inl out
         | Inr out \<Rightarrow> check_args prog paranoid rest out))"

definition is_paranoid :: "wenv \<Rightarrow> bool" where
  "is_paranoid env = (case e_getenv env ''BR_COMPILER_PARANOID_UNSAFE_PATH'' of Some (_ # _) \<Rightarrow> True | _ \<Rightarrow> False)"

section \<open>Running the compiler\<close>

definition trace_text :: "wconf \<Rightarrow> wenv \<Rightarrow> string list \<Rightarrow> string" where
  "trace_text cfg env args = (case e_getenv env ''BR2_DEBUG_WRAPPER'' of
     None \<Rightarrow> ''''
   | Some v \<Rightarrow>
       if atoi v > 0 then
         let sep = (if atoi v = 2 then CHR 0x0A # ''    '' else '' ''); quote = (\<lambda>x. [CHR 0x27] @ x @ [CHR 0x27])
         in ''Toolchain wrapper executing:'' @
            (case w_ccache_hash cfg of None \<Rightarrow> '''' | Some h \<Rightarrow> sep @ ''CCACHE_COMPILERCHECK='' @ quote (''string:'' @ h)) @
            (case w_ccache_basedir cfg of None \<Rightarrow> '''' | Some d \<Rightarrow> sep @ ''CCACHE_BASEDIR='' @ quote d) @
            concat (map (\<lambda>a. sep @ quote a) args) @ [CHR 0x0A]
       else '''')"

text \<open>\<open>setenv\<close> without overwriting.\<close>

definition set_default :: "wenv \<Rightarrow> string \<Rightarrow> string option \<Rightarrow> (string \<Rightarrow> string option) \<Rightarrow> (string \<Rightarrow> string option) option" where
  "set_default env k v e = (case v of
     None \<Rightarrow> Some e
   | Some x \<Rightarrow> if e k \<noteq> None then Some e else if e_setenv env k then Some (e(k \<mapsto> x)) else None)"

definition run_command :: "wconf \<Rightarrow> wenv \<Rightarrow> string list \<Rightarrow> wres" where
  "run_command cfg env args = (case set_default env ''CCACHE_COMPILERCHECK'' (map_option ((@) ''string:'') (w_ccache_hash cfg)) (e_getenv env) of
     None \<Rightarrow> W_return 3
   | Some e \<Rightarrow>
       (case set_default env ''CCACHE_BASEDIR'' (w_ccache_basedir cfg) e of
          None \<Rightarrow> W_return 3
        | Some e \<Rightarrow>
            (case args of
               [] \<Rightarrow> W_return 2
             | file # _ \<Rightarrow> if e_exec env file then W_exec file args e else W_return 2)))"

text \<open>
  \<open>main\<close> from the allocation of the array, with what is printed on the standard error output.  A pointer
  has eight bytes.
\<close>

definition wrapper_run :: "wconf \<Rightarrow> wenv \<Rightarrow> string \<Rightarrow> string list \<Rightarrow> string \<times> string \<times> string \<Rightarrow> (string \<times> wres) option" where
  "wrapper_run cfg env prog user paths =
     (let predef = predef_args cfg paths; argc = Suc (length user); n = length predef + (argc + EXCLUSIVE_ARGS)
      in if \<not> e_malloc env (8 * n) then Some ('''', W_return 2)
         else do {
           buf \<leftarrow> memcpy_args (map Str predef) (replicate n Junk, 0);
           buf \<leftarrow> add_float_abi cfg user buf;
           buf \<leftarrow> add_cpu cfg user buf;
           case check_args prog (is_paranoid env) user '''' of
             Inl out \<Rightarrow> Some (out, W_return 1)
           | Inr out \<Rightarrow> do {
               buf \<leftarrow> memcpy_args (map Str user) buf;
               (args, _) \<leftarrow> push_arg Null buf;
               let exec_args = (if w_ccache cfg \<and> e_getenv env ''BR_NO_CCACHE'' \<noteq> None then drop 1 args else args);
               command \<leftarrow> read_args exec_args;
               Some (out @ trace_text cfg env command, run_command cfg env command)
             }
         })"

definition wrapper :: "wconf \<Rightarrow> wenv \<Rightarrow> string list \<Rightarrow> (string \<times> wres) option" where
  "wrapper cfg env argv = (case argv of
     [] \<Rightarrow> None
   | prog # user \<Rightarrow> do {
       found \<leftarrow> find_base env prog;
       case found of
         Inl code \<Rightarrow> Some ('''', W_return code)
       | Inr (absbasedir, basename) \<Rightarrow>
           (case wrapper_paths cfg absbasedir basename of
              Inl code \<Rightarrow> Some ('''', W_return code)
            | Inr paths \<Rightarrow> wrapper_run cfg env prog user paths)
     })"

end
