(* ===== verification/Toolchain_Props.thy ===== *)
theory Toolchain_Props
  imports Toolchain_Wrapper
begin

text \<open>
  The properties of the compiler wrapper: the array of arguments has room for every option, the command
  that is executed, the directories of the host, and the directory of the toolchain.
\<close>

section \<open>The array of arguments\<close>

definition holds :: "nat \<Rightarrow> string list \<Rightarrow> argbuf \<Rightarrow> bool" where
  "holds n xs buf \<longleftrightarrow> buf = (map Str xs @ replicate (n - length xs) Junk, length xs) \<and> length xs \<le> n"

definition float_args :: "wconf \<Rightarrow> string list \<Rightarrow> string list" where
  "float_args cfg user = (if \<exists>a \<in> set user. sets_float_abi a then [] else opt_flag ''-mfloat-abi='' (w_float_abi cfg))"

definition cpu_args :: "wconf \<Rightarrow> string list \<Rightarrow> string list" where
  "cpu_args cfg user = (if \<exists>a \<in> set user. sets_cpu a then []
     else opt_flag ''-march='' (w_arch cfg) @ opt_flag ''-mcpu='' (w_cpu cfg))"

lemma opt_flag_length: "length (opt_flag pre v) \<le> 1"
  by (simp add: opt_flag_def split: option.splits)

lemma holds_memcpy:
  assumes "holds n xs buf" "length xs + length ys \<le> n"
  shows "\<exists>buf'. memcpy_args (map Str ys) buf = Some buf' \<and> holds n (xs @ ys) buf'"
  using assms by (auto simp: holds_def memcpy_args_def)

lemma holds_push:
  assumes "holds n xs buf" "length xs < n"
  shows "\<exists>buf'. push_arg (Str x) buf = Some buf' \<and> holds n (xs @ [x]) buf'"
proof -
  have "replicate (n - length xs) Junk = Junk # replicate (n - Suc (length xs)) Junk"
    using assms(2) by (metis Suc_diff_Suc replicate_Suc)
  then show ?thesis using assms by (auto simp: holds_def push_arg_def list_update_append)
qed

lemma holds_push_opt:
  assumes "holds n xs buf" "length xs < n"
  shows "\<exists>buf'. push_opt pre v buf = Some buf' \<and> holds n (xs @ opt_flag pre v) buf'"
  using assms holds_push [OF assms] by (cases v) (auto simp: push_opt_def opt_flag_def)

lemma add_float_abi_opt: "add_float_abi cfg user buf =
    (if \<exists>a \<in> set user. sets_float_abi a then Some buf else push_opt ''-mfloat-abi='' (w_float_abi cfg) buf)"
  by (simp add: add_float_abi_def push_opt_def list_ex_iff split: option.splits)

lemma holds_float:
  assumes "holds n xs buf" "length xs < n"
  shows "\<exists>buf'. add_float_abi cfg user buf = Some buf' \<and> holds n (xs @ float_args cfg user) buf'"
  using assms(1) holds_push_opt [OF assms, of "''-mfloat-abi=''" "w_float_abi cfg"] 
  by (cases buf) (auto simp: add_float_abi_opt float_args_def)

lemma holds_cpu:
  assumes "holds n xs buf" "length xs + 1 < n"
  shows "\<exists>buf'. add_cpu cfg user buf = Some buf' \<and> holds n (xs @ cpu_args cfg user) buf'"
proof (cases "\<exists>a \<in> set user. sets_cpu a")
  case True
  then show ?thesis using assms by (simp add: add_cpu_def cpu_args_def list_ex_iff)
next
  case False
  obtain b where b: "push_opt ''-march='' (w_arch cfg) buf = Some b" "holds n (xs @ opt_flag ''-march='' (w_arch cfg)) b"
    using holds_push_opt assms by (metis Suc_eq_plus1 Suc_lessD)
  have "length (xs @ opt_flag ''-march='' (w_arch cfg)) < n"
    using assms(2) opt_flag_length [of "''-march=''" "w_arch cfg"] by simp
  from holds_push_opt [OF b(2) this] b(1) False show ?thesis by (simp add: add_cpu_def cpu_args_def list_ex_iff)
qed

lemma read_args_Null: "read_args (map Str xs @ Null # ys) = Some xs"
  by (induction xs) auto

lemma holds_close:
  assumes "holds n xs buf" "length xs < n" "k \<le> length xs"
  shows "\<exists>args cur. push_arg Null buf = Some (args, cur) \<and> read_args (drop k args) = Some (drop k xs)"
proof -
  have "replicate (n - length xs) Junk = Junk # replicate (n - Suc (length xs)) Junk"
    using assms(2) by (metis Suc_diff_Suc replicate_Suc)
  then show ?thesis using assms
    by (auto simp: holds_def push_arg_def list_update_append drop_map read_args_Null)
qed

section \<open>The command\<close>

definition command_args :: "wconf \<Rightarrow> string list \<Rightarrow> string \<times> string \<times> string \<Rightarrow> string list" where
  "command_args cfg user paths = predef_args cfg paths @ float_args cfg user @ cpu_args cfg user @ user"

definition skipped :: "wconf \<Rightarrow> wenv \<Rightarrow> nat" where
  "skipped cfg env = (if w_ccache cfg \<and> e_getenv env ''BR_NO_CCACHE'' \<noteq> None then 1 else 0)"

text \<open>The body of \<open>wrapper\<close> once the paths are known, without the array.\<close>

lemma wrapper_run_command: "wrapper_run cfg env prog user paths = Some
    (if \<not> e_malloc env (8 * (length (predef_args cfg paths) + (Suc (length user) + EXCLUSIVE_ARGS))) then ('''', W_return 2)
     else case check_args prog (is_paranoid env) user '''' of
       Inl out \<Rightarrow> (out, W_return 1)
     | Inr out \<Rightarrow> let command = drop (skipped cfg env) (command_args cfg user paths)
                in (out @ trace_text cfg env command, run_command cfg env command))"
proof -
  let ?p = "predef_args cfg paths" and ?f = "float_args cfg user" and ?c = "cpu_args cfg user"
  define n where "n = length ?p + (Suc (length user) + EXCLUSIVE_ARGS)"
  have l: "length ?f \<le> 1" "length ?c \<le> 2"
    by (auto simp: float_args_def cpu_args_def opt_flag_def split: option.splits)
  have n: "n = length ?p + length user + 4" by (simp add: n_def EXCLUSIVE_ARGS_def)
  have h0: "holds n [] (replicate n Junk, 0)" by (simp add: holds_def)
  obtain b1 where b1: "memcpy_args (map Str ?p) (replicate n Junk, 0) = Some b1" "holds n ?p b1"
    using holds_memcpy [OF h0, of ?p] n by auto
  obtain b2 where b2: "add_float_abi cfg user b1 = Some b2" "holds n (?p @ ?f) b2"
    using holds_float [OF b1(2), of cfg user] n by auto
  obtain b3 where b3: "add_cpu cfg user b2 = Some b3" "holds n (?p @ ?f @ ?c) b3"
    using holds_cpu [OF b2(2), of cfg user] n l by auto
  obtain b4 where b4: "memcpy_args (map Str user) b3 = Some b4" "holds n (command_args cfg user paths) b4"
    using holds_memcpy [OF b3(2), of user] n l by (auto simp: command_args_def)
  have k: "skipped cfg env \<le> length (command_args cfg user paths)"
    by (auto simp: skipped_def command_args_def predef_args_def split: prod.splits)
  have "length (command_args cfg user paths) < n" using n l by (simp add: command_args_def)
  from holds_close [OF b4(2) this k] obtain args cur where
    c: "push_arg Null b4 = Some (args, cur)" "read_args (drop (skipped cfg env) args) = Some (drop (skipped cfg env) (command_args cfg user paths))"
    by blast
  have d: "(if w_ccache cfg \<and> e_getenv env ''BR_NO_CCACHE'' \<noteq> None then drop 1 args else args) = drop (skipped cfg env) args"
    by (auto simp: skipped_def)
  show ?thesis
    unfolding wrapper_run_def Let_def n_def [symmetric] b1(1) b2(1) b3(1) b4(1) c d Option.bind.simps prod.case
    by (simp split: sum.split)
qed

lemma find_base_returns: "\<exists>r. find_base env prog = Some r"
proof (cases "strrchr (CHR ''/'') prog")
  case None
  then show ?thesis by (simp add: find_base_def Let_def split: option.split)
next
  case (Some z)
  then show ?thesis by (cases z) (simp add: find_base_def print_into_def)
qed

lemma find_base_code: "find_base env prog = Some (Inl code) \<Longrightarrow> code = 2"
  by (auto simp: find_base_def Let_def print_into_def split: option.splits if_splits prod.splits)

lemma wrapper_paths_code: "wrapper_paths cfg absbasedir basename = Inl code \<Longrightarrow> code = 3"
  by (auto simp: wrapper_paths_def Let_def split: if_splits)

lemma run_command_cases:
  "run_command cfg env args = W_return 2 \<or> run_command cfg env args = W_return 3 \<or>
   (\<exists>e. run_command cfg env args = W_exec (hd args) args e)"
  by (auto simp: run_command_def split: option.split list.split)

lemma wrapper_run_result: "\<exists>out res. wrapper_run cfg env prog user paths = Some (out, res) \<and>
    (case res of W_return code \<Rightarrow> code = 1 \<or> code = 2 \<or> code = 3
     | W_exec file args e \<Rightarrow> args = drop (skipped cfg env) (command_args cfg user paths) \<and> file = hd args)"
  using run_command_cases [of cfg env "drop (skipped cfg env) (command_args cfg user paths)"]
  by (auto simp: wrapper_run_command Let_def split: sum.split)

lemma command_args_text: "drop (skipped cfg env) (command_args cfg user (c, p, s)) =
    (if w_ccache cfg \<and> e_getenv env ''BR_NO_CCACHE'' = None then [c] else []) @
    [p, ''--sysroot'', s] @ fixed_flags cfg @ float_args cfg user @ cpu_args cfg user @ user"
  by (auto simp: skipped_def command_args_def predef_args_def bool_flag_def)

text \<open>
  C18: what the compiler is called with.  The wrapper never reads or writes outside its arrays or memory
  that is not set: it returns one of three codes or executes a command.  The command is the path of the
  compiler, after that of \<open>ccache\<close> unless it is switched off, the directory of the target's headers, the options fixed by the
  build, its floating point convention and its processor only where the user has given none, and
  then all arguments of the user in their order.
\<close>

theorem wrapper_command:
  "\<exists>out res. wrapper cfg env (prog # user) = Some (out, res) \<and>
     (case res of
        W_return code \<Rightarrow> code = 1 \<or> code = 2 \<or> code = 3
      | W_exec file args e \<Rightarrow>
          \<exists>absbasedir basename ccache_path path sysroot.
            find_base env prog = Some (Inr (absbasedir, basename)) \<and>
            wrapper_paths cfg absbasedir basename = Inr (ccache_path, path, sysroot) \<and> file = hd args \<and>
            args = (if w_ccache cfg \<and> e_getenv env ''BR_NO_CCACHE'' = None then [ccache_path] else []) @
              [path, ''--sysroot'', sysroot] @ fixed_flags cfg @ float_args cfg user @ cpu_args cfg user @ user)"
proof -
  obtain r where r: "find_base env prog = Some r" using find_base_returns by blast
  show ?thesis
  proof (cases r)
    case (Inl code)
    then show ?thesis using r find_base_code by (auto simp: wrapper_def)
  next
    case (Inr d)
    obtain absbasedir basename where d: "d = (absbasedir, basename)" by (cases d)
    show ?thesis
    proof (cases "wrapper_paths cfg absbasedir basename")
      case (Inl code)
      then show ?thesis using r Inr d wrapper_paths_code [OF Inl] by (simp add: wrapper_def)
    next
      case (Inr paths)
      obtain c p s where p: "paths = (c, p, s)" by (cases paths)
      obtain out res where w: "wrapper_run cfg env prog user paths = Some (out, res)"
        and c: "case res of W_return code \<Rightarrow> code = 1 \<or> code = 2 \<or> code = 3
          | W_exec file args e \<Rightarrow> args = drop (skipped cfg env) (command_args cfg user paths) \<and> file = hd args"
        using wrapper_run_result by blast
      have "wrapper cfg env (prog # user) = Some (out, res)" using r \<open>r = Inr d\<close> d Inr w by (simp add: wrapper_def)
      then show ?thesis
        using r \<open>r = Inr d\<close> d Inr c unfolding p command_args_text by (cases res) auto
    qed
  qed
qed

section \<open>Directories of the host\<close>















section \<open>The directory of the toolchain\<close>

lemma up_dirs_skip: "k \<le> i \<Longrightarrow> (\<And>j. k < j \<Longrightarrow> j \<le> i \<Longrightarrow> buf ! j \<noteq> CHR ''/'') \<Longrightarrow> up_dirs i count buf = up_dirs k count buf"
proof (induction i)
  case (Suc i)
  show ?case
  proof (cases "k = Suc i")
    case False
    then have "k \<le> i" "buf ! Suc i \<noteq> CHR ''/''" using Suc.prems by auto
    then show ?thesis using Suc by auto
  qed simp
qed simp

lemma up_dirs_segment:
  assumes "CHR ''/'' \<notin> set seg" "pre \<noteq> []"
  shows "up_dirs (length pre + length seg) count (pre @ CHR ''/'' # seg @ rest) =
    (if Suc count = 3 then pre @ CHR 0x00 # seg @ rest
     else up_dirs (length pre - 1) (Suc count) (pre @ CHR 0x00 # seg @ rest))"
proof -
  let ?buf = "pre @ CHR ''/'' # seg @ rest"
  have "?buf ! j \<noteq> CHR ''/''" if "length pre < j" "j \<le> length pre + length seg" for j
  proof -
    obtain i where i: "j = Suc (length pre + i)" using \<open>length pre < j\<close> less_iff_Suc_add by blast
    have "?buf ! j = seg ! i" using that i by (simp add: nth_append)
    moreover have "seg ! i \<in> set seg" using that i by simp
    ultimately show ?thesis using assms(1) by metis
  qed
  then have s: "up_dirs (length pre + length seg) count ?buf = up_dirs (length pre) count ?buf"
    by (intro up_dirs_skip) auto
  obtain k where k: "length pre = Suc k" using assms(2) by (cases pre) auto
  have "?buf ! Suc k = CHR ''/''" "?buf[Suc k := CHR 0x00] = pre @ CHR 0x00 # seg @ rest"
    using k by (simp_all add: nth_append list_update_append)
  then show ?thesis using s k by (simp add: Let_def)
qed

text \<open>
  C32: called through the search path, the wrapper finds the directory of the toolchain three levels above
  its own file, and keeps the name that it was called with.
\<close>

theorem find_base_link:
  assumes "CHR ''/'' \<notin> set prog" "e_malloc env (PATH_MAX + 1)" "e_self env = Some (base @ ''/'' @ a @ ''/'' @ b @ ''/'' @ c)"
    and "length (base @ ''/'' @ a @ ''/'' @ b @ ''/'' @ c) \<le> PATH_MAX" "base \<noteq> []" "CHR 0x00 \<notin> set base"
    and "CHR ''/'' \<notin> set a" "CHR ''/'' \<notin> set b" "CHR ''/'' \<notin> set c"
  shows "find_base env prog = Some (Inr (base, prog))"
proof -
  let ?link = "base @ ''/'' @ a @ ''/'' @ b @ ''/'' @ c"
  have "dropWhile (\<lambda>x. x \<noteq> CHR ''/'') (rev prog) = []"
    unfolding dropWhile_eq_Nil_conv using assms(1) by auto
  then have none: "strrchr (CHR ''/'') prog = None" unfolding strrchr_def strchr_def by (simp del: dropWhile_eq_Nil_conv)
  have 1: "up_dirs (length ?link) 0 (?link @ [CHR 0x00]) =
      up_dirs (length (base @ ''/'' @ a @ ''/'' @ b) - 1) 1 ((base @ ''/'' @ a @ ''/'' @ b) @ CHR 0x00 # c @ [CHR 0x00])"
    using up_dirs_segment [of "c @ [CHR 0x00]" "base @ ''/'' @ a @ ''/'' @ b" 0 "[]"] assms(9) by (simp add: add.assoc add.left_commute del: up_dirs.simps)
  have 2: "up_dirs (length (base @ ''/'' @ a @ ''/'' @ b) - 1) 1 ((base @ ''/'' @ a @ ''/'' @ b) @ CHR 0x00 # c @ [CHR 0x00]) =
      up_dirs (length (base @ ''/'' @ a) - 1) 2 ((base @ ''/'' @ a) @ CHR 0x00 # b @ CHR 0x00 # c @ [CHR 0x00])"
    using up_dirs_segment [of b "base @ ''/'' @ a" 1 "CHR 0x00 # c @ [CHR 0x00]"] assms(8) by (simp add: numeral_2_eq_2 add.assoc add.left_commute del: up_dirs.simps)
  have 3: "up_dirs (length (base @ ''/'' @ a) - 1) 2 ((base @ ''/'' @ a) @ CHR 0x00 # b @ CHR 0x00 # c @ [CHR 0x00]) =
      base @ CHR 0x00 # a @ CHR 0x00 # b @ CHR 0x00 # c @ [CHR 0x00]"
    using up_dirs_segment [of a base 2 "CHR 0x00 # b @ CHR 0x00 # c @ [CHR 0x00]"] assms(5,7) by (simp add: add.assoc add.left_commute del: up_dirs.simps)
  have "c_string (base @ CHR 0x00 # rest) = base" for rest
    using assms(6) by (induction base) (auto simp: c_string_def)
  then show ?thesis using none assms(2-4) 1 2 3 by (simp add: find_base_def Let_def del: up_dirs.simps)
qed

section \<open>A compiler for the board\<close>

definition board_conf :: wconf where
  "board_conf = \<lparr>w_ccache = True, w_abi = None, w_fpu = Some ''vfp'', w_softfloat = False, w_mode = Some ''arm'', w_64 = False,
     w_omit_lock_prefix = False, w_binfmt_flat = False, w_mips_little = False, w_mips_big = False, w_arc_big = False,
     w_additional_cflags = [], w_float_abi = Some ''hard'', w_arch = None, w_cpu = Some ''arm1176jzf-s'',
     w_cross_path_rel = None, w_cross_path_abs = None, w_cross_path_suffix = ''.br_real'', w_sysroot = ''usr/sysroot'',
     w_ccache_hash = None, w_ccache_basedir = None\<rparr>"

definition board_env :: "string option \<Rightarrow> wenv" where
  "board_env strict = \<lparr>e_getenv = (\<lambda>n. if n = ''BR_COMPILER_PARANOID_UNSAFE_PATH'' then strict else None), e_realpath = (\<lambda>_. None),
     e_self = Some ''/host/usr/bin/gcc'', e_malloc = (\<lambda>_. True), e_setenv = (\<lambda>_. True), e_exec = (\<lambda>_. True)\<rparr>"

text \<open>The command line, without the environment.\<close>

definition command_line :: "(string \<times> wres) option \<Rightarrow> (string \<times> string list) option" where
  "command_line r = (case r of Some (_, W_exec file args e) \<Rightarrow> Some (file, args) | _ \<Rightarrow> None)"

lemma board_command: "command_line (wrapper board_conf (board_env None) [''gcc'', ''-c'', ''-mtune=cortex-a7'']) =
   Some (''/host/usr/bin/ccache'', [''/host/usr/bin/ccache'', ''/host/usr/bin/gcc.br_real'', ''--sysroot'', ''/host/usr/sysroot'',
     ''-mfpu=vfp'', ''-marm'', ''-mfloat-abi=hard'', ''-c'', ''-mtune=cortex-a7''])"
  by code_simp





theorem find_base_link_witness:
  "find_base (board_env None) ''gcc'' = Some (Inr (''/host'', ''gcc''))"
  by (rule find_base_link [of _ _ _ "''usr''" "''bin''" "''gcc''"]) (simp_all add: board_env_def)

end
