(* ===== verification/Spec2Isabelle.thy ===== *)
theory Spec2Isabelle
  imports Kconfig_Expr_Props Kconfig_Calc_Props Kconfig_Symbol_Props Kconfig_Check_Props Kconfig_Conf_Props
    Kconfig_Util_Props Kconfig_Menu_Props Kconfig_Help_Props Kconfig_Options Kconfig_Front_Props Toolchain_Props
begin

text \<open>
  A verification of the configuration system of Buildroot: the C files \<^verbatim>\<open>expr.c\<close>, \<^verbatim>\<open>symbol.c\<close>, \<^verbatim>\<open>confdata.c\<close>,
  \<^verbatim>\<open>menu.c\<close>, \<^verbatim>\<open>util.c\<close>, \<^verbatim>\<open>conf.c\<close>, \<^verbatim>\<open>expr.h\<close> and \<^verbatim>\<open>lkc.h\<close> under \<^verbatim>\<open>src/buildroot/support/kconfig\<close>; and of the wrapper
  through which Buildroot calls its compilers, \<^verbatim>\<open>src/buildroot/toolchain/toolchain-wrapper.c\<close>.

  \<^bold>\<open>The program.\<close>  The parser reads the \<^verbatim>\<open>Config.in\<close> files and calls \<^verbatim>\<open>menu.c\<close> for each entry, which
  builds a tree of menus, the symbols with their properties, and the expressions of their dependencies;
  \<open>menu_finalize\<close> then distributes the dependencies over the tree, using the rewritings of \<^verbatim>\<open>expr.c\<close>,
  and \<open>sym_check_deps\<close> rejects recursive dependencies.  \<open>conf_read\<close> stores the values of a
  configuration file in the symbols, \<open>sym_calc_value\<close> derives the value of each symbol from what the user set, its
  prompts, defaults, selects and ranges, front ends change values with \<open>sym_set_tristate_value\<close> and
  \<open>sym_set_string_value\<close>, and \<open>conf_write\<close> and \<open>conf_write_autoconf\<close> write the results.  The text front end
  \<^verbatim>\<open>conf.c\<close> ties these together: it reads a configuration, asks for the values of new symbols or gives them
  values, and writes the results.  The compiler wrapper is a program of its own, which runs during the build that the configuration
  describes.

  \<^bold>\<open>The state.\<close>  The pointers of the C code are indices: \<open>symref\<close> for symbols (the four constants, or
  the number of the allocation), numbers for properties and menus.  The record \<open>kstate\<close> holds the stores
  of the three, the hash table, and the global variables; \<open>os\<close> (theory \<open>Kconfig_Util\<close>) holds the files,
  the environment and which files can be written.  A value of \<open>struct symbol_value\<close> keeps the identity of its string, because
  \<open>sym_calc_value\<close> compares pointers.  A result \<open>None\<close> stands for a crash (a null pointer, a failed assertion, an
  overrun buffer) or for exhausted fuel; exit codes and error results are values.

  \<^bold>\<open>The theories of the model.\<close>
  \<^item> \<open>Kconfig_Data\<close>, \<open>Kconfig_State\<close>: the types of \<^verbatim>\<open>expr.h\<close>, the constants, flags, change marks and
    the lookup of properties.
  \<^item> \<open>Kconfig_Expr\<close>, \<open>Kconfig_Expr_Print\<close>: every rewriting of expressions of \<^verbatim>\<open>expr.c\<close>, comparison, printing.
  \<^item> \<open>Kconfig_Calc\<close>: \<open>expr_calc_value\<close> and \<open>sym_calc_value\<close> with all they call.  The functions take the evaluator as an
    argument, \<open>sym_calc_value n\<close> ties the knot with fuel \<open>n\<close>, one unit per nested call.
  \<^item> \<open>Kconfig_Strings\<close>, \<open>Kconfig_Symbol\<close>: \<open>strtoll\<close> and \<open>printf\<close> on numbers, the rest of \<^verbatim>\<open>symbol.c\<close>.
  \<^item> \<open>Kconfig_Check\<close>: the search for recursive dependencies with its explicit stack, and its report.
  \<^item> \<open>Kconfig_Menu\<close>: the menu tree of \<^verbatim>\<open>menu.c\<close>.  \<open>Kconfig_Menu_Help\<close>: its texts about symbols, with the keys of a search,
    and \<open>expr_gstr_print\<close>; the places of the menus are a parameter.
  \<^item> \<open>Kconfig_Util\<close>, \<open>Kconfig_Conf_Read\<close>, \<open>Kconfig_Conf_Write\<close>: \<^verbatim>\<open>util.c\<close> and \<^verbatim>\<open>confdata.c\<close>; \<open>regcomp\<close>, \<open>zconf_fopen\<close> and
    \<open>rand\<close> are parameters.
  \<^item> \<open>Kconfig_Front\<close>: \<^verbatim>\<open>conf.c\<close>.  The record \<open>front\<close> holds its static variables, the input that is left and the output so
    far; \<open>conf_main\<close> is \<open>main\<close> after the options are read, as \<open>Kconfig_Options\<close> does, and the menus parsed.  Walks and repeated questions share
    one fuel: a question whose answers are all refused is asked for ever.
  \<^item> \<open>Toolchain_Wrapper\<close>: the compiler wrapper.  The macros of the build are the record \<open>wconf\<close>, and the array of
    arguments keeps track of slots that are not written.

  \<^bold>\<open>The theories of proofs.\<close>
  \<^item> \<open>Kconfig_Expr_Sem\<close>, \<open>Kconfig_Expr_Dups\<close>: the value of an expression in an environment, and that the rewritings preserve
    it: exactly, or for the values \<open>y\<close> and \<open>n\<close> where the code relies on symbols being boolean.
  \<^item> \<open>Kconfig_Calc_Frame\<close>: what evaluation may change (\<open>frame\<close>, \<open>keeps\<close>), in the locale of evaluators that keep it.
    \<open>Kconfig_Calc_Sem\<close>: the equations that define the values (\<open>solved\<close>) hold after evaluation.
    \<open>Kconfig_Calc_Range\<close>: ranges.  \<open>Kconfig_Calc_Total\<close>: evaluation returns where there is no recursion; the fuel is one
    more than the longest chain of dependencies.
  \<^item> \<open>Kconfig_Symbol_Sem\<close>: the hash table as a search through a list, the buffers of the string functions, the search
    by regular expressions.
  \<^item> \<open>Kconfig_Menu_Sem\<close>, \<open>Kconfig_Menu_Build\<close>, \<open>Kconfig_Menu_Final\<close>: the tree that the menu pointers represent (\<open>menu_tree\<close>), an abstract
    specification of the parser's calls with the refinement, and \<open>menu_finalize\<close>.
  \<^item> \<open>Kconfig_Conf_Sem\<close>, \<open>Kconfig_Conf_Walk\<close>, \<open>Kconfig_Conf_File\<close>, \<open>Kconfig_Conf_Trip\<close>: lines and entries of configuration files, the walk
    over the menus, and the round trip.
  \<^item> \<open>Kconfig_Front_Sem\<close>: the walks of the front end that ask nothing; all evaluation in them goes through the locale
    of evaluators.  \<open>Kconfig_Front_Total\<close>: these walks return, with one unit of fuel more than there are menus and the fuel
    that evaluation needs.  There is no claim that a dialogue ends, as its answers decide that.
  \<^item> \<open>Kconfig_Sample\<close>: a small configuration on which the theorems are exercised.
  \<^item> The theories whose names end in \<open>Props\<close> state the properties of the components and apply
    each to a concrete input.

  \<^bold>\<open>Interfaces.\<close>  Evaluators are a locale (\<open>evaluator\<close> and its extensions) with the frame conditions as laws; it is interpreted on
  \<open>sym_calc_value n\<close>.  The printers of configuration files rely on a locale \<open>printing\<close>, of which the evaluator
  is an instance through sublocales, and the search for recursion is the locale \<open>searcher\<close>,
  interpreted on \<open>sym_check_deps n\<close>.

  \<^bold>\<open>Where the code falls short.\<close>  The hypotheses of several theorems mark defects of the code: negative bounds of hexadecimal
  ranges, newlines in string values, the ignored result of the rename to the backup, and the
  elimination of duplicates, which takes tristate symbols for boolean ones.

  \<^bold>\<open>Not modelled.\<close>  The generated lexer and parser (their calls are the sequences of operations of
  \<open>Kconfig_Menu_Build\<close>), the graphical front ends, translations of messages and what
  \<open>getopt_long\<close> makes of a command line; and, outside the configuration system, the recipes and tools of Buildroot, the programs for the
  board, and the vendored media libraries.
\<close>

end
